theory Spec2Isabelle
  imports Complex_Main "HOL-Library.Sublist" "HOL-Library.Char_ord" "HOL-Library.List_Lexorder"
    "HOL-Library.Monad_Syntax"
begin

section \<open>JavaScript values used by the scanner\<close>

text \<open>
  \<^verbatim>\<open>src/src/scanner.ts\<close> computes with JavaScript numbers and strings. A number is a
  binary64 value: a finite one is given by the rational it denotes, negative zero has a
  constructor of its own (\<open>Fin 0\<close> is positive zero), and there are NaN and the two
  infinities. Every operation rounds its exact result to the nearest binary64 value, ties
  to the even significand. A string is a list of 8-bit characters.
\<close>

datatype jsnum = Fin rat | NegZero | NaN | PosInf | NegInf

text \<open>The result of \<^verbatim>\<open>Math.floor\<close>: an integer or a special value. Negative zero, which
  prints as \<^verbatim>\<open>0\<close>, is the integer 0 here.\<close>

datatype jsint = IFin int | INaN | IPosInf | INegInf

fun of_jsint :: "jsint \<Rightarrow> jsnum" where
  "of_jsint (IFin i) = Fin (of_int i)"
| "of_jsint INaN = NaN"
| "of_jsint IPosInf = PosInf"
| "of_jsint INegInf = NegInf"

text \<open>An element of a JavaScript array that the code indexes: a number, a string, or
  \<^verbatim>\<open>undefined\<close> when the index is out of range.\<close>

datatype jsval = JNum jsnum | JStr string | JUndefined

definition js_index :: "jsval list \<Rightarrow> nat \<Rightarrow> jsval" where
  "js_index xs i = (if i < length xs then xs ! i else JUndefined)"

text \<open>\<^verbatim>\<open>v === 0\<close>: true for the number zero of either sign, false for every string.\<close>

definition strictly_zero :: "jsval \<Rightarrow> bool" where
  "strictly_zero v = (v = JNum (Fin 0) \<or> v = JNum NegZero)"

subsection \<open>Rounding to binary64\<close>

text \<open>The number of binary digits of a positive integer.\<close>

function bit_length :: "int \<Rightarrow> int" where
  "bit_length i = (if i \<le> 0 then 0 else 1 + bit_length (i div 2))"
  by pat_completeness auto
termination
  by (relation "measure nat") auto

declare bit_length.simps [simp del]

definition pow2 :: "int \<Rightarrow> rat" where
  "pow2 e = (if 0 \<le> e then 2 ^ nat e else 1 / 2 ^ nat (- e))"

text \<open>The binary exponent of a positive rational: the \<open>e\<close> with
  \<open>2^e \<le> x < 2^(e+1)\<close>. The difference of the bit lengths of numerator and
  denominator is \<open>e\<close> or \<open>e + 1\<close>.\<close>

definition exponent_of :: "rat \<Rightarrow> int" where
  "exponent_of x =
     (let e = bit_length (fst (quotient_of x)) - bit_length (snd (quotient_of x))
      in if pow2 e \<le> x then e else e - 1)"

definition round_half_even :: "rat \<Rightarrow> int" where
  "round_half_even y =
     (if y - of_int \<lfloor>y\<rfloor> < 1 / 2 then \<lfloor>y\<rfloor>
      else if 1 / 2 < y - of_int \<lfloor>y\<rfloor> then \<lfloor>y\<rfloor> + 1
      else if even \<lfloor>y\<rfloor> then \<lfloor>y\<rfloor> else \<lfloor>y\<rfloor> + 1)"

text \<open>
  The binary64 value nearest to a non-negative rational, \<open>None\<close> when that is
  infinity. A binary64 value is an integer of at most 53 bits times a power of two whose
  exponent is at least \<open>-1074\<close>; the largest is \<open>(2^53 - 1) * 2^971\<close>. The unit of the
  last place for a number of binary exponent \<open>e\<close> is \<open>2^(e - 52)\<close>, and \<open>2^-1074\<close>
  below the normal range.
\<close>

definition round64_mag :: "rat \<Rightarrow> rat option" where
  "round64_mag a =
     (if a = 0 then Some 0
      else if 1023 < exponent_of a then None
      else
        (let q = max (exponent_of a - 52) (- 1074);
             m = round_half_even (a / pow2 q)
         in if exponent_of a = 1023 \<and> 9007199254740992 \<le> m then None
            else Some (of_int m * pow2 q)))"

text \<open>A sign and a rounded magnitude as a number; a magnitude of zero keeps the
  sign.\<close>

definition signed :: "bool \<Rightarrow> rat option \<Rightarrow> jsnum" where
  "signed neg m =
     (case m of
        None \<Rightarrow> if neg then NegInf else PosInf
      | Some v \<Rightarrow> if v = 0 then (if neg then NegZero else Fin 0) else Fin (if neg then - v else v))"

text \<open>The number for an exact value; exact zero is positive zero.\<close>

definition round64 :: "rat \<Rightarrow> jsnum" where
  "round64 x = signed (x < 0) (round64_mag \<bar>x\<bar>)"

subsection \<open>Arithmetic\<close>

fun is_negative :: "jsnum \<Rightarrow> bool" where
  "is_negative (Fin a) = (a < 0)"
| "is_negative NegZero = True"
| "is_negative NegInf = True"
| "is_negative NaN = False"
| "is_negative PosInf = False"

text \<open>The absolute value of a finite number; \<open>None\<close> for the infinities.\<close>

fun magnitude :: "jsnum \<Rightarrow> rat option" where
  "magnitude (Fin a) = Some \<bar>a\<bar>"
| "magnitude NegZero = Some 0"
| "magnitude NaN = None"
| "magnitude PosInf = None"
| "magnitude NegInf = None"

text \<open>\<^verbatim>\<open>a * b\<close>: NaN when an operand is NaN or the operands are zero and infinity;
  otherwise the sign is negative when exactly one operand is negative, and the magnitude
  is the rounded product.\<close>

definition js_mul :: "jsnum \<Rightarrow> jsnum \<Rightarrow> jsnum" where
  "js_mul a b =
     (if a = NaN \<or> b = NaN then NaN
      else case (magnitude a, magnitude b) of
        (Some x, Some y) \<Rightarrow> signed (is_negative a \<noteq> is_negative b) (round64_mag (x * y))
      | (Some x, None) \<Rightarrow> if x = 0 then NaN else signed (is_negative a \<noteq> is_negative b) None
      | (None, Some y) \<Rightarrow> if y = 0 then NaN else signed (is_negative a \<noteq> is_negative b) None
      | (None, None) \<Rightarrow> signed (is_negative a \<noteq> is_negative b) None)"

text \<open>\<^verbatim>\<open>a / b\<close>: NaN when an operand is NaN, for zero by zero and for infinity by
  infinity; a non-zero number by zero is an infinity, a finite number by an infinity
  is a zero.\<close>

definition js_div :: "jsnum \<Rightarrow> jsnum \<Rightarrow> jsnum" where
  "js_div a b =
     (if a = NaN \<or> b = NaN then NaN
      else case (magnitude a, magnitude b) of
        (Some x, Some y) \<Rightarrow>
          if y = 0 then (if x = 0 then NaN else signed (is_negative a \<noteq> is_negative b) None)
          else signed (is_negative a \<noteq> is_negative b) (round64_mag (x / y))
      | (Some x, None) \<Rightarrow> signed (is_negative a \<noteq> is_negative b) (Some 0)
      | (None, Some y) \<Rightarrow> signed (is_negative a \<noteq> is_negative b) None
      | (None, None) \<Rightarrow> NaN)"

fun Math_floor :: "jsnum \<Rightarrow> jsint" where
  "Math_floor (Fin a) = IFin \<lfloor>a\<rfloor>"
| "Math_floor NegZero = IFin 0"
| "Math_floor NaN = INaN"
| "Math_floor PosInf = IPosInf"
| "Math_floor NegInf = INegInf"

text \<open>The operand of \<^verbatim>\<open>||\<close> is falsy when it is NaN or a zero.\<close>

definition js_or_num :: "jsnum \<Rightarrow> jsnum \<Rightarrow> jsnum" where
  "js_or_num a b = (if a = NaN \<or> a = Fin 0 \<or> a = NegZero then b else a)"

text \<open>\<^verbatim>\<open>a || b\<close> on an optional string: \<^verbatim>\<open>undefined\<close> and the empty string are falsy.\<close>

definition js_or_str :: "string option \<Rightarrow> string \<Rightarrow> string" where
  "js_or_str a b = (case a of None \<Rightarrow> b | Some s \<Rightarrow> if s = [] then b else s)"

subsection \<open>Numbers of text\<close>

definition is_digit :: "char \<Rightarrow> bool" where
  "is_digit c = (c \<in> set ''0123456789'')"

definition is_space :: "char \<Rightarrow> bool" where
  "is_space c = (c \<in> set [CHR 0x09, CHR 0x0A, CHR 0x0B, CHR 0x0C, CHR 0x0D, CHR '' ''])"

definition digit_val :: "char \<Rightarrow> int" where
  "digit_val c = of_char c - 48"

text \<open>The value of a run of decimal digits.\<close>

definition parse_dec :: "string \<Rightarrow> int" where
  "parse_dec s = foldl (\<lambda>n c. 10 * n + digit_val c) 0 s"

definition strip_sign :: "string \<Rightarrow> bool \<times> string" where
  "strip_sign s = (case s of
      [] \<Rightarrow> (False, s)
    | c # cs \<Rightarrow> if c = CHR ''-'' then (True, cs) else if c = CHR ''+'' then (False, cs) else (False, s))"

definition trim :: "string \<Rightarrow> string" where
  "trim s = rev (dropWhile is_space (rev (dropWhile is_space s)))"

definition pow10 :: "int \<Rightarrow> rat" where
  "pow10 e = (if 0 \<le> e then 10 ^ nat e else 1 / 10 ^ nat (- e))"

text \<open>The exponent part that may follow the digits of a decimal literal: \<^verbatim>\<open>e\<close> or
  \<^verbatim>\<open>E\<close>, an optional sign and at least one digit. The result is the exponent and the
  text after it; text that does not start with an exponent part is left as it is.\<close>

definition exponent_part :: "string \<Rightarrow> int \<times> string" where
  "exponent_part s = (case s of
      [] \<Rightarrow> (0, s)
    | c # cs \<Rightarrow>
        if c = CHR ''e'' \<or> c = CHR ''E'' then
          (let (neg, ds) = strip_sign cs; e = takeWhile is_digit ds in
           if e = [] then (0, s)
           else (if neg then - parse_dec e else parse_dec e, dropWhile is_digit ds))
        else (0, s))"

text \<open>The longest prefix that is an unsigned decimal literal (digits, an optional
  fraction, an optional exponent part; at least one digit before the exponent), with
  its exact value and the text that follows; \<open>None\<close> when there is no such prefix.\<close>

definition decimal_literal :: "string \<Rightarrow> (rat \<times> string) option" where
  "decimal_literal t =
     (let ip = takeWhile is_digit t;
          r1 = dropWhile is_digit t;
          (fp, r2) = (case r1 of
                        [] \<Rightarrow> ([], r1)
                      | c # cs \<Rightarrow> if c = CHR ''.'' then (takeWhile is_digit cs, dropWhile is_digit cs)
                                  else ([], r1))
      in if ip = [] \<and> fp = [] then None
         else
           (let (ex, r3) = exponent_part r2
            in Some ((of_int (parse_dec ip) + of_int (parse_dec fp) / 10 ^ length fp) * pow10 ex, r3)))"

text \<open>\<^verbatim>\<open>parseFloat(s)\<close>: the longest prefix (after leading white space) that is a signed
  decimal literal or a signed \<^verbatim>\<open>Infinity\<close>, rounded; NaN when there is none.\<close>

definition parseFloat :: "string \<Rightarrow> jsnum" where
  "parseFloat s =
     (let (neg, t) = strip_sign (dropWhile is_space s) in
      if prefix ''Infinity'' t then (if neg then NegInf else PosInf)
      else case decimal_literal t of
             None \<Rightarrow> NaN
           | Some (m, rest) \<Rightarrow> signed neg (round64_mag m))"

text \<open>\<^verbatim>\<open>parseFloat\<close> of a JSON field that may be absent: \<^verbatim>\<open>undefined\<close> converts to the
  text \<^verbatim>\<open>undefined\<close>, which is NaN.\<close>

definition parseFloat_field :: "string option \<Rightarrow> jsnum" where
  "parseFloat_field f = (case f of None \<Rightarrow> NaN | Some s \<Rightarrow> parseFloat s)"

text \<open>The value of a digit in a literal with a radix prefix; 99 for a character that
  is no digit of any radix.\<close>

definition radix_digit :: "char \<Rightarrow> int" where
  "radix_digit c =
     (if is_digit c then digit_val c
      else if c \<in> set ''abcdef'' then of_char c - 87
      else if c \<in> set ''ABCDEF'' then of_char c - 55
      else 99)"

text \<open>A literal with the prefix \<^verbatim>\<open>0x\<close>, \<^verbatim>\<open>0o\<close> or \<^verbatim>\<open>0b\<close> (in either case) and at
  least one digit of that radix.\<close>

definition radix_literal :: "string \<Rightarrow> int option" where
  "radix_literal t =
     (case t of
        z # x # ds \<Rightarrow>
          (let base = (if x \<in> set ''xX'' then 16 else if x \<in> set ''oO'' then 8
                       else if x \<in> set ''bB'' then 2 else 0)
           in if z = CHR ''0'' \<and> base \<noteq> 0 \<and> ds \<noteq> [] \<and> list_all (\<lambda>c. radix_digit c < base) ds
              then Some (foldl (\<lambda>n c. base * n + radix_digit c) 0 ds)
              else None)
      | _ \<Rightarrow> None)"

text \<open>
  \<^verbatim>\<open>Number(s)\<close> and the implicit conversion of a string operand of \<^verbatim>\<open>*\<close> and \<^verbatim>\<open>/\<close>:
  surrounding white space is dropped; the empty text is zero; the whole of the rest has
  to be a literal with a radix prefix, a signed \<^verbatim>\<open>Infinity\<close> or a signed decimal
  literal; every other text is NaN.
\<close>

definition js_Number :: "string \<Rightarrow> jsnum" where
  "js_Number s =
     (let t = trim s in
      if t = [] then Fin 0
      else case radix_literal t of
        Some i \<Rightarrow> round64 (of_int i)
      | None \<Rightarrow>
          (let (neg, u) = strip_sign t in
           if u = ''Infinity'' then (if neg then NegInf else PosInf)
           else case decimal_literal u of
                  None \<Rightarrow> NaN
                | Some (m, rest) \<Rightarrow> if rest = [] then signed neg (round64_mag m) else NaN))"

fun js_ToNumber :: "jsval \<Rightarrow> jsnum" where
  "js_ToNumber (JNum n) = n"
| "js_ToNumber (JStr s) = js_Number s"
| "js_ToNumber JUndefined = NaN"

subsection \<open>Text of numbers\<close>

text \<open>The decimal digits of a non-negative integer.\<close>

function show_dec :: "int \<Rightarrow> string" where
  "show_dec i = (if i < 10 then [''0123456789'' ! nat i]
                 else show_dec (i div 10) @ [''0123456789'' ! nat (i mod 10)])"
  by pat_completeness auto
termination
  by (relation "measure nat") auto

declare show_dec.simps [simp del]

text \<open>The text of a byte size or a count, which is an integer below \<open>2^53\<close>.\<close>

definition show_int :: "int \<Rightarrow> string" where
  "show_int i = (if i < 0 then CHR ''-'' # show_dec (- i) else show_dec i)"

text \<open>The decimal exponent of a positive rational: the \<open>n\<close> with
  \<open>10^(n-1) \<le> x < 10^n\<close>.\<close>

definition dec_exponent :: "rat \<Rightarrow> int" where
  "dec_exponent x =
     (let n = int (length (show_dec (fst (quotient_of x)))) - int (length (show_dec (snd (quotient_of x))))
      in if pow10 n \<le> x then n + 1 else n)"

text \<open>
  \<^verbatim>\<open>Number::toString\<close> prints the shortest run of digits \<open>s\<close>, of length \<open>k\<close>, for
  which \<open>s * 10^(n - k)\<close> rounds to the number, and among several such runs of that
  length the one closest to the number. For a given \<open>k\<close> only the two integers next to
  \<open>x / 10^(n - k)\<close> can qualify. Seventeen digits always suffice.
\<close>

definition digits_candidate :: "rat \<Rightarrow> int \<Rightarrow> int \<Rightarrow> int option" where
  "digits_candidate x n k =
     (let y = x / pow10 (n - k);
          lo = \<lfloor>y\<rfloor>;
          hi = lo + 1;
          ok_lo = (10 ^ nat (k - 1) \<le> lo \<and> round64_mag (of_int lo * pow10 (n - k)) = Some x);
          ok_hi = (round64_mag (of_int hi * pow10 (n - k)) = Some x)
      in if ok_lo \<and> ok_hi then
           (if y - of_int lo < of_int hi - y then Some lo
            else if of_int hi - y < y - of_int lo then Some hi
            else if even lo then Some lo else Some hi)
         else if ok_lo then Some lo
         else if ok_hi then Some hi
         else None)"

fun shortest_digits :: "nat \<Rightarrow> rat \<Rightarrow> int \<Rightarrow> int \<Rightarrow> (int \<times> int) option" where
  "shortest_digits 0 x n k = None"
| "shortest_digits (Suc fuel) x n k =
     (case digits_candidate x n k of
        Some s \<Rightarrow> Some (s, k)
      | None \<Rightarrow> shortest_digits fuel x n (k + 1))"

text \<open>The layout of the digits \<open>ds\<close> of a number below \<open>10^n\<close>: plain up to 21
  integer digits and down to six zeros after the point, with an exponent otherwise.\<close>

definition format_digits :: "string \<Rightarrow> int \<Rightarrow> string" where
  "format_digits ds n =
     (let k = int (length ds) in
      if k \<le> n \<and> n \<le> 21 then ds @ replicate (nat (n - k)) (CHR ''0'')
      else if 0 < n \<and> n \<le> 21 then take (nat n) ds @ ''.'' @ drop (nat n) ds
      else if - 6 < n \<and> n \<le> 0 then ''0.'' @ replicate (nat (- n)) (CHR ''0'') @ ds
      else (if k = 1 then ds else hd ds # ''.'' @ tl ds)
           @ ''e'' @ (if n - 1 < 0 then ''-'' else ''+'') @ show_dec \<bar>n - 1\<bar>)"

text \<open>The text of a positive binary64 value. A run of digits that rounds up to the
  next power of ten is the digit 1 with the next exponent.\<close>

definition positive_toString :: "rat \<Rightarrow> string" where
  "positive_toString x =
     (case shortest_digits 17 x (dec_exponent x) 1 of
        None \<Rightarrow> []
      | Some (s, k) \<Rightarrow>
          if s = 10 ^ nat k then format_digits ''1'' (dec_exponent x + 1)
          else format_digits (show_dec s) (dec_exponent x))"

fun Number_toString :: "jsnum \<Rightarrow> string" where
  "Number_toString (Fin a) =
     (if a = 0 then ''0'' else if a < 0 then CHR ''-'' # positive_toString (- a) else positive_toString a)"
| "Number_toString NegZero = ''0''"
| "Number_toString NaN = ''NaN''"
| "Number_toString PosInf = ''Infinity''"
| "Number_toString NegInf = ''-Infinity''"

definition jsint_toString :: "jsint \<Rightarrow> string" where
  "jsint_toString n = Number_toString (of_jsint n)"

fun js_toString :: "jsval \<Rightarrow> string" where
  "js_toString (JNum n) = Number_toString n"
| "js_toString (JStr s) = s"
| "js_toString JUndefined = ''undefined''"

subsection \<open>Splitting and joining\<close>

text \<open>\<^verbatim>\<open>s.split('/')\<close>: the pieces between the separators; one piece when there is no
  separator, also for the empty string.\<close>

fun split_at :: "char \<Rightarrow> string \<Rightarrow> string list" where
  "split_at sep [] = [[]]"
| "split_at sep (c # cs) =
     (if c = sep then [] # split_at sep cs
      else (case split_at sep cs of p # ps \<Rightarrow> (c # p) # ps | [] \<Rightarrow> [[c]]))"

text \<open>\<^verbatim>\<open>xs.join(' ')\<close>.\<close>

fun join_sp :: "string list \<Rightarrow> string" where
  "join_sp [] = []"
| "join_sp [x] = x"
| "join_sp (x # y # ys) = x @ '' '' @ join_sp (y # ys)"

section \<open>Time stamps\<close>

text \<open>
  \<^verbatim>\<open>moment(ms).format(...)\<close> renders an instant in the host's local time. The model takes
  the local offset from UTC in minutes and converts the day count with the usual
  proleptic Gregorian calculation; it covers the years 0 to 9999, which \<^verbatim>\<open>YYYY\<close>
  renders with four digits.
\<close>

definition civil_from_days :: "int \<Rightarrow> int \<times> int \<times> int" where
  "civil_from_days days =
     (let z = days + 719468;
          era = z div 146097;
          doe = z mod 146097;
          yoe = (doe - doe div 1460 + doe div 36524 - doe div 146096) div 365;
          doy = doe - (365 * yoe + yoe div 4 - yoe div 100);
          mp = (5 * doy + 2) div 153;
          d = doy - (153 * mp + 2) div 5 + 1;
          m = (if mp < 10 then mp + 3 else mp - 9);
          y = yoe + era * 400 + (if m \<le> 2 then 1 else 0)
      in (y, m, d))"

definition zeroFill :: "nat \<Rightarrow> int \<Rightarrow> string" where
  "zeroFill w n = replicate (w - length (show_dec n)) (CHR ''0'') @ show_dec n"

text \<open>The two patterns of the scanner: \<^verbatim>\<open>YYYYMMDDHHmmss\<close> for CINF and
  \<^verbatim>\<open>YYYYMMDDTHHmmss\<close> for TINF, where \<^verbatim>\<open>T\<close> is copied as it is.\<close>

definition moment_format :: "bool \<Rightarrow> int \<Rightarrow> int \<Rightarrow> string" where
  "moment_format withT offset ms =
     (let t = ms + offset * 60000;
          (y, m, d) = civil_from_days (t div 86400000);
          r = t mod 86400000
      in zeroFill 4 y @ zeroFill 2 m @ zeroFill 2 d @ (if withT then ''T'' else [])
         @ zeroFill 2 (r div 3600000) @ zeroFill 2 (r div 60000 mod 60) @ zeroFill 2 (r div 1000 mod 60))"

section \<open>Data of the scanner\<close>

datatype error =
    ExecError string  \<comment> \<open>\<^verbatim>\<open>cp.exec\<close> reported an error (the tool could not run or exited non-zero)\<close>
  | NotMedia          \<comment> \<open>\<^verbatim>\<open>new Error('not media')\<close>\<close>
  | TypeError         \<comment> \<open>a property of \<^verbatim>\<open>undefined\<close> or \<^verbatim>\<open>null\<close> was read\<close>
  | SyntaxError       \<comment> \<open>\<^verbatim>\<open>JSON.parse\<close> was given text that is not JSON\<close>
  | FsError string    \<comment> \<open>\<^verbatim>\<open>mkdirp\<close>, \<^verbatim>\<open>fs.stat\<close>, \<^verbatim>\<open>fs.readFile\<close> or \<^verbatim>\<open>fs.unlink\<close> failed\<close>
  | NotFound          \<comment> \<open>the store has no document under the id\<close>
  | Conflict          \<comment> \<open>the store rejected a write whose revision is not the current one\<close>

text \<open>The part of ffprobe's JSON that the scanner reads. Fields are optional, as in
  JSON; the stream attributes that are only copied into the metadata document are
  represented by the three that the classification also reads.\<close>

record stream =
  codec_type :: "string option"
  codec_time_base :: "string option"
  avg_frame_rate :: "string option"
  r_frame_rate :: "string option"
  time_base :: "string option"

record ffformat =
  duration :: "string option"

record probe =
  streams :: "stream list"
  format :: "ffformat option"

text \<open>
  What the callback of \<^verbatim>\<open>cp.exec\<close> for ffprobe meets: an error of the process; or
  standard output on which \<^verbatim>\<open>JSON.parse\<close> or the read of \<^verbatim>\<open>json.streams\<close> throws (text
  that is not JSON, or the JSON text \<^verbatim>\<open>null\<close>), with the exception thrown; or parsed
  output. Output without streams is parsed output whose stream list is empty.
\<close>

datatype ffprobe_output =
    Exec_failed error
  | Unparseable error
  | Parsed probe

record mediainfo_stream =
  mi_codec_type :: "string option"
  mi_codec_time_base :: "string option"
  mi_time_base :: "string option"

record mediainfo =
  mi_name :: string
  mi_path :: string
  mi_size :: int
  mi_time :: int
  field_order :: string
  mi_streams :: "mediainfo_stream list"
  mi_duration :: "string option"

text \<open>\<^verbatim>\<open>PouchDBMediaDocument\<close>: \<^verbatim>\<open>_id\<close>, \<^verbatim>\<open>_rev\<close>, the stat fingerprint, and the optional
  fields that a scan fills in. The revision is an opaque token of the store; the
  placeholder's \<^verbatim>\<open>'0'\<close> is the number 0.\<close>

record mediaDocument =
  doc_id :: string
  doc_rev :: nat
  mediaPath :: string
  mediaSize :: int
  mediaTime :: int
  thumbSize :: "int option"
  thumbTime :: "int option"
  cinf :: "string option"
  tinf :: "string option"
  mediainfo :: "mediainfo option"
  attachment :: "string option"

text \<open>\<^verbatim>\<open>fs.Stats\<close>: size, modification time in epoch milliseconds, and the two kind flags
  that the scanner asks for.\<close>

record stats =
  st_size :: int
  st_mtime :: int
  isFile :: bool
  isDirectory :: bool

record metadata_config =
  fieldOrder :: bool
  fieldOrderScanDuration :: string

text \<open>What one run of \<^verbatim>\<open>generateThumb\<close> meets, await by await: \<^verbatim>\<open>mkdirp\<close>, the ffmpeg
  process, the stat of the temporary file (size and mtime), reading it, deleting it.\<close>

record thumb_run =
  mkdirp_result :: "error option"
  exec_result :: "error option"
  stat_result :: "error + int \<times> int"
  read_result :: "error + string"
  unlink_result :: "error option"

text \<open>
  The configuration and the collaborators of the scanner. \<open>getId\<close> is \<^verbatim>\<open>./util\<close>'s
  function, which is not part of the sources at hand, and \<open>path_normalize\<close> is Node's
  \<^verbatim>\<open>path.normalize\<close>; both are parameters. The external processes and the file system
  are given by their outcome for each path (for the interlace detection also for the
  number of frames to scan; its outcome is the diagnostic output). \<open>thumb_stat_first\<close>
  says which of the two concurrent jobs of a scan gets there first: whether the
  thumbnail's stat has been stored in the document when ffprobe's answer arrives.
\<close>

record env =
  paths_media :: string
  scanner_paths :: string
  metadata :: "metadata_config option"
  getId :: "string \<Rightarrow> string \<Rightarrow> string"
  path_normalize :: "string \<Rightarrow> string"
  utcOffset :: int
  now :: int
  run_ffprobe :: "string \<Rightarrow> ffprobe_output"
  run_thumb :: "string \<Rightarrow> thumb_run"
  run_idet :: "string \<Rightarrow> string \<Rightarrow> error + string"
  statAsync :: "string \<Rightarrow> error + stats"
  thumb_stat_first :: bool

section \<open>The CINF record\<close>

text \<open>A time base is a JavaScript array: two numbers when it is built from a frame
  rate or is the still sentinel \<^verbatim>\<open>[0, 1]\<close>, the pieces of a split text otherwise.\<close>

type_synonym Timebase = "jsval list"

record tbs =
  audioTb :: "Timebase option"
  videoTb :: "Timebase option"
  stillTb :: "Timebase option"

definition split_tb :: "string option \<Rightarrow> Timebase" where
  "split_tb tb = map JStr (split_at (CHR ''/'') (js_or_str tb ''1/25''))"

definition motion_tb :: "stream \<Rightarrow> Timebase" where
  "motion_tb s =
     (let fr = split_at (CHR ''/'') (js_or_str (avg_frame_rate s) (js_or_str (r_frame_rate s) [])) in
      if length fr = 2 then [JNum (js_Number (fr ! 1)), JNum (js_Number (fr ! 0))]
      else split_tb (time_base s))"

text \<open>The body of the loop over \<^verbatim>\<open>json.streams\<close>.\<close>

definition scan_stream :: "tbs \<Rightarrow> stream \<Rightarrow> tbs" where
  "scan_stream t s =
     (if codec_type s = Some ''audio'' then
        (if audioTb t = None then t\<lparr>audioTb := Some (split_tb (time_base s))\<rparr> else t)
      else if codec_type s = Some ''video'' then
        (if codec_time_base s = Some ''0/1'' then
           (if stillTb t = None then t\<lparr>stillTb := Some [JNum (Fin 0), JNum (Fin 1)]\<rparr> else t)
         else
           (if videoTb t = None then t\<lparr>videoTb := Some (motion_tb s)\<rparr> else t))
      else t)"

definition scan_streams :: "stream list \<Rightarrow> tbs" where
  "scan_streams ss = foldl scan_stream \<lparr>audioTb = None, videoTb = None, stillTb = None\<rparr> ss"

definition classify :: "tbs \<Rightarrow> string \<times> Timebase" where
  "classify t =
     (case videoTb t of
        Some v \<Rightarrow> ('' MOVIE '', v)
      | None \<Rightarrow>
          (case (stillTb t, audioTb t) of
             (Some st, None) \<Rightarrow> ('' STILL '', st)
           | (_, Some a) \<Rightarrow> ('' AUDIO '', a)
           | (None, None) \<Rightarrow> ('' AUDIO '', [JNum (Fin 0), JNum (Fin 1)])))"

definition cinf_dur :: "ffformat \<Rightarrow> jsnum" where
  "cinf_dur fmt = js_or_num (parseFloat_field (duration fmt)) (js_div (Fin 1) (Fin 24))"

definition cinf_frames :: "jsnum \<Rightarrow> Timebase \<Rightarrow> jsint" where
  "cinf_frames dur tb =
     (if strictly_zero (js_index tb 0) then IFin 0
      else Math_floor (js_div (js_mul dur (js_ToNumber (js_index tb 1))) (js_ToNumber (js_index tb 0))))"

definition dquote :: "string \<Rightarrow> string" where
  "dquote s = CHR 0x22 # s @ [CHR 0x22]"

definition CRLF :: string where
  "CRLF = [CHR 0x0D, CHR 0x0A]"

text \<open>\<^verbatim>\<open>moment(doc.thumbTime)\<close>: the current time when the document has no thumbnail
  time yet.\<close>

definition moment_of :: "env \<Rightarrow> int option \<Rightarrow> int" where
  "moment_of e t = (case t of None \<Rightarrow> now e | Some ms \<Rightarrow> ms)"

definition generateCinf :: "env \<Rightarrow> mediaDocument \<Rightarrow> probe \<Rightarrow> error + string" where
  "generateCinf e doc json =
     (case format json of
        None \<Rightarrow> Inl TypeError
      | Some fmt \<Rightarrow>
          (let dur = cinf_dur fmt;
               (type, tb) = classify (scan_streams (streams json))
           in Inr (join_sp
                 [dquote (getId e (paths_media e) (mediaPath doc)),
                  type,
                  show_int (mediaSize doc),
                  moment_format False (utcOffset e) (moment_of e (thumbTime doc)),
                  jsint_toString (cinf_frames dur tb),
                  js_toString (js_index tb 0) @ ''/'' @ js_toString (js_index tb 1)]
               @ CRLF)))"

section \<open>Field order\<close>

text \<open>
  The pattern of \<^verbatim>\<open>generateMediainfo\<close>,
  \<^verbatim>\<open>/Multi frame detection: TFF:\s+(\d+)\s+BFF:\s+(\d+)\s+Progressive:\s+(\d+)/\<close>.
  White space and digits are disjoint classes and each literal piece starts with a
  letter, so the greedy runs never have to give characters back: matching at one position
  is a sequence of deterministic steps. \<^verbatim>\<open>exec\<close> returns the groups of the leftmost
  position that matches. White space is ASCII white space.
\<close>

definition match_literal :: "string \<Rightarrow> string \<Rightarrow> string option" where
  "match_literal lit s = (if prefix lit s then Some (drop (length lit) s) else None)"

definition match_spaces :: "string \<Rightarrow> string option" where
  "match_spaces s = (if takeWhile is_space s = [] then None else Some (dropWhile is_space s))"

definition match_digits :: "string \<Rightarrow> (string \<times> string) option" where
  "match_digits s = (if takeWhile is_digit s = [] then None
                     else Some (takeWhile is_digit s, dropWhile is_digit s))"

definition resultRegex_here :: "string \<Rightarrow> (string \<times> string \<times> string) option" where
  "resultRegex_here s = do {
     s1 \<leftarrow> match_literal ''Multi frame detection: TFF:'' s;
     s2 \<leftarrow> match_spaces s1;
     (tff, s3) \<leftarrow> match_digits s2;
     s4 \<leftarrow> match_spaces s3;
     s5 \<leftarrow> match_literal ''BFF:'' s4;
     s6 \<leftarrow> match_spaces s5;
     (bff, s7) \<leftarrow> match_digits s6;
     s8 \<leftarrow> match_spaces s7;
     s9 \<leftarrow> match_literal ''Progressive:'' s8;
     s10 \<leftarrow> match_spaces s9;
     (prog, s11) \<leftarrow> match_digits s10;
     Some (tff, bff, prog)
   }"

fun resultRegex_exec :: "string \<Rightarrow> (string \<times> string \<times> string) option" where
  "resultRegex_exec [] = None"
| "resultRegex_exec (c # cs) =
     (case resultRegex_here (c # cs) of Some r \<Rightarrow> Some r | None \<Rightarrow> resultRegex_exec cs)"

text \<open>The promise \<^verbatim>\<open>fieldOrder\<close>: resolved with a text, or rejected with the error of
  the process. \<^verbatim>\<open>parseInt\<close> of a run of digits is its decimal value.\<close>

definition detectFieldOrder :: "env \<Rightarrow> metadata_config \<Rightarrow> mediaDocument \<Rightarrow> error + string" where
  "detectFieldOrder e m doc =
     (if \<not> fieldOrder m then Inr ''unknown''
      else case run_idet e (fieldOrderScanDuration m) (mediaPath doc) of
        Inl err \<Rightarrow> Inl err
      | Inr stderr \<Rightarrow>
          (case resultRegex_exec stderr of
             None \<Rightarrow> Inr ''unknown''
           | Some (t, b, p) \<Rightarrow>
               (let tff = parse_dec t; bff = parse_dec b in
                Inr (if tff \<le> 10 \<and> bff \<le> 10 then ''progressive''
                     else if tff > bff then ''tff'' else ''bff''))))"

definition remap_stream :: "stream \<Rightarrow> mediainfo_stream" where
  "remap_stream s = \<lparr>mi_codec_type = codec_type s, mi_codec_time_base = codec_time_base s,
     mi_time_base = time_base s\<rparr>"

definition generateMediainfo :: "env \<Rightarrow> metadata_config \<Rightarrow> mediaDocument \<Rightarrow> probe \<Rightarrow> error + mediainfo" where
  "generateMediainfo e m doc json =
     (case detectFieldOrder e m doc of
        Inl err \<Rightarrow> Inl err
      | Inr fo \<Rightarrow>
          (case format json of
             None \<Rightarrow> Inl TypeError
           | Some fmt \<Rightarrow>
               Inr \<lparr>mi_name = doc_id doc, mi_path = mediaPath doc, mi_size = mediaSize doc,
                    mi_time = mediaTime doc, field_order = fo,
                    mi_streams = map remap_stream (streams json), mi_duration = duration fmt\<rparr>))"

section \<open>The catalog store\<close>

text \<open>
  The store behind \<^verbatim>\<open>./db\<close> is not among the sources. Its operations follow the
  interface of section 6 of the specification: a lookup by id that fails when the id is
  absent, writes and removals that succeed only with the current revision, a page listing
  from a start key, and a bulk deletion. A catalog is the list of its documents in the
  order of their ids.
\<close>

type_synonym catalog = "mediaDocument list"

text \<open>Modelled from the spec: the order of a catalog, strictly increasing ids, so that
  no id occurs twice.\<close>

definition sorted_catalog :: "catalog \<Rightarrow> bool" where
  "sorted_catalog c = sorted_wrt (<) (map doc_id c)"

text \<open>Modelled from the spec: \<^verbatim>\<open>db.get\<close>, \<open>get(id) -> (doc, revision) | NotFound\<close>.\<close>

definition db_get :: "catalog \<Rightarrow> string \<Rightarrow> error + mediaDocument" where
  "db_get c i = (case find (\<lambda>d. doc_id d = i) c of None \<Rightarrow> Inl NotFound | Some d \<Rightarrow> Inr d)"

text \<open>Modelled from the spec: \<^verbatim>\<open>db.put\<close>, \<open>put(doc, revision) -> newRevision | Conflict\<close>.
  A document whose id is new is accepted with the placeholder revision 0; an existing
  one with the revision on file. The stored document carries the next revision.\<close>

definition db_put :: "catalog \<Rightarrow> mediaDocument \<Rightarrow> error + catalog" where
  "db_put c doc =
     (case find (\<lambda>d. doc_id d = doc_id doc) c of
        None \<Rightarrow>
          if doc_rev doc = 0 then Inr (insort_key doc_id (doc\<lparr>doc_rev := 1\<rparr>) c) else Inl Conflict
      | Some d \<Rightarrow>
          if doc_rev d = doc_rev doc
          then Inr (map (\<lambda>x. if doc_id x = doc_id doc then doc\<lparr>doc_rev := Suc (doc_rev doc)\<rparr> else x) c)
          else Inl Conflict)"

text \<open>Modelled from the spec: \<^verbatim>\<open>db.remove\<close>, \<open>remove(doc, revision) -> ok | Conflict\<close>.\<close>

definition db_remove :: "catalog \<Rightarrow> mediaDocument \<Rightarrow> error + catalog" where
  "db_remove c doc =
     (case find (\<lambda>d. doc_id d = doc_id doc) c of
        None \<Rightarrow> Inl NotFound
      | Some d \<Rightarrow>
          if doc_rev d = doc_rev doc then Inr (filter (\<lambda>x. doc_id x \<noteq> doc_id doc) c)
          else Inl Conflict)"

text \<open>Modelled from the spec: the documents that a listing from a start key covers,
  those whose id is the start key or comes after it; all of them when there is no start
  key. The start key itself is included, as the claim about the pagination cursor
  says.\<close>

definition from_key :: "string option \<Rightarrow> mediaDocument \<Rightarrow> bool" where
  "from_key startkey d = (case startkey of None \<Rightarrow> True | Some k \<Rightarrow> k \<le> doc_id d)"

text \<open>Modelled from the spec: \<^verbatim>\<open>db.allDocs\<close> with \<^verbatim>\<open>include_docs\<close>,
  \<open>listPage(startKey, limit)\<close>: the first \<open>n\<close> documents, in the order of their ids,
  from the start key on.\<close>

definition allDocs :: "catalog \<Rightarrow> string option \<Rightarrow> nat \<Rightarrow> mediaDocument list" where
  "allDocs c startkey n = take n (filter (from_key startkey) c)"

record deletion =
  del_id :: string
  del_rev :: nat

text \<open>Modelled from the spec: \<^verbatim>\<open>db.bulkDocs\<close> on entries marked \<^verbatim>\<open>_deleted\<close>,
  \<open>bulkDelete(entries) -> ok\<close>: every document named with its current revision is
  removed.\<close>

definition bulkDocs :: "catalog \<Rightarrow> deletion list \<Rightarrow> catalog" where
  "bulkDocs c dels =
     filter (\<lambda>d. \<not> list_ex (\<lambda>x. del_id x = doc_id d \<and> del_rev x = doc_rev d) dels) c"

section \<open>Effects\<close>

text \<open>What the scanner does to the outside, in the order of the model: calls of the
  store, runs of the external tools, stats of catalogued files, and log lines. An
  error is logged with the message of the call, which is empty for
  \<^verbatim>\<open>logger.error({ err })\<close>. The state is the catalog together with the effects so
  far.\<close>

datatype effect =
    Db_get string
  | Db_put mediaDocument
  | Db_remove mediaDocument
  | Db_allDocs "string option"
  | Db_bulkDocs "deletion list"
  | Exec_ffprobe string
  | Exec_thumb string
  | Exec_idet string
  | Fs_stat string
  | Log_info string
  | Log_error string error

record world =
  catalog :: catalog
  effects :: "effect list"

definition emit :: "effect list \<Rightarrow> world \<Rightarrow> world" where
  "emit es w = w\<lparr>effects := effects w @ es\<rparr>"

definition is_probe :: "effect \<Rightarrow> bool" where
  "is_probe x = (case x of Exec_ffprobe p \<Rightarrow> True | Exec_thumb p \<Rightarrow> True | Exec_idet p \<Rightarrow> True | _ \<Rightarrow> False)"

definition is_write :: "effect \<Rightarrow> bool" where
  "is_write x = (case x of Db_put d \<Rightarrow> True | Db_remove d \<Rightarrow> True | Db_bulkDocs ds \<Rightarrow> True | _ \<Rightarrow> False)"

section \<open>Scanning one file\<close>

text \<open>
  How a call of an asynchronous function ends: its promise resolves; its promise
  rejects with an error; or an exception is thrown in a callback that runs outside every
  promise and every \<^verbatim>\<open>try\<close>. Nothing in \<^verbatim>\<open>scanner.ts\<close> handles such an exception: the
  promise that was waiting never settles, and Node ends the process.
\<close>

datatype settled = Resolved | Rejected error | Uncaught error

text \<open>\<^verbatim>\<open>generateThumb\<close>: how the call ends, the document as the run leaves it, and the
  effects. The fields are assigned as the awaits complete, so a late failure leaves the
  earlier assignments in place. Its one callback only resolves or rejects.\<close>

definition generateThumb :: "env \<Rightarrow> mediaDocument \<Rightarrow> settled \<times> mediaDocument \<times> effect list" where
  "generateThumb e doc =
     (let r = run_thumb e (mediaPath doc) in
      case mkdirp_result r of
        Some err \<Rightarrow> (Rejected err, doc, [])
      | None \<Rightarrow>
          (case exec_result r of
             Some err \<Rightarrow> (Rejected err, doc, [Exec_thumb (mediaPath doc)])
           | None \<Rightarrow>
               (case stat_result r of
                  Inl err \<Rightarrow> (Rejected err, doc, [Exec_thumb (mediaPath doc)])
                | Inr (sz, mt) \<Rightarrow>
                    (let doc1 = doc\<lparr>thumbSize := Some sz, thumbTime := Some mt,
                           tinf := Some (join_sp
                             [dquote (getId e (paths_media e) (mediaPath doc)),
                              moment_format True (utcOffset e) mt,
                              show_int sz] @ CRLF)\<rparr>
                     in case read_result r of
                          Inl err \<Rightarrow> (Rejected err, doc1, [Exec_thumb (mediaPath doc)])
                        | Inr data \<Rightarrow>
                            (let doc2 = doc1\<lparr>attachment := Some data\<rparr> in
                             case unlink_result r of
                               Some err \<Rightarrow> (Rejected err, doc2, [Exec_thumb (mediaPath doc)])
                             | None \<Rightarrow> (Resolved, doc2, [Exec_thumb (mediaPath doc)]))))))"

definition idet_effects :: "metadata_config \<Rightarrow> mediaDocument \<Rightarrow> effect list" where
  "idet_effects m doc = (if fieldOrder m then [Exec_idet (mediaPath doc)] else [])"

text \<open>
  \<^verbatim>\<open>generateInfo\<close>: ffprobe, the check for streams, then \<^verbatim>\<open>doc.cinf\<close>, then, when
  metadata is configured, \<^verbatim>\<open>doc.mediainfo\<close>. The callback of ffprobe rejects the promise
  for an error of the process and for output without streams. \<^verbatim>\<open>JSON.parse(stdout)\<close> and
  the read of \<^verbatim>\<open>json.streams\<close> stand in the callback outside any \<^verbatim>\<open>try\<close>: what they throw
  reaches no promise.
\<close>

definition generateInfo :: "env \<Rightarrow> mediaDocument \<Rightarrow> settled \<times> mediaDocument \<times> effect list" where
  "generateInfo e doc =
     (case run_ffprobe e (mediaPath doc) of
        Exec_failed err \<Rightarrow> (Rejected err, doc, [Exec_ffprobe (mediaPath doc)])
      | Unparseable err \<Rightarrow> (Uncaught err, doc, [Exec_ffprobe (mediaPath doc)])
      | Parsed json \<Rightarrow>
          if streams json = [] then (Rejected NotMedia, doc, [Exec_ffprobe (mediaPath doc)])
          else
            (case generateCinf e doc json of
               Inl err \<Rightarrow> (Rejected err, doc, [Exec_ffprobe (mediaPath doc)])
             | Inr c \<Rightarrow>
                 (let doc1 = doc\<lparr>cinf := Some c\<rparr> in
                  case metadata e of
                    None \<Rightarrow> (Resolved, doc1, [Exec_ffprobe (mediaPath doc)])
                  | Some m \<Rightarrow>
                      (case generateMediainfo e m doc1 json of
                         Inl err \<Rightarrow> (Rejected err, doc1, Exec_ffprobe (mediaPath doc) # idet_effects m doc1)
                       | Inr mi \<Rightarrow> (Resolved, doc1\<lparr>mediainfo := Some mi\<rparr>,
                                    Exec_ffprobe (mediaPath doc) # idet_effects m doc1)))))"

text \<open>\<^verbatim>\<open>.catch\<close> with a handler that logs under a message: a rejection becomes a log
  line. An exception that reached no promise is not caught; it is the first component
  of the result.\<close>

definition caught :: "string \<Rightarrow> settled \<times> mediaDocument \<times> effect list
    \<Rightarrow> error option \<times> mediaDocument \<times> effect list" where
  "caught msg r =
     (case r of
        (Resolved, d, es) \<Rightarrow> (None, d, es)
      | (Rejected err, d, es) \<Rightarrow> (None, d, es @ [Log_error msg err])
      | (Uncaught err, d, es) \<Rightarrow> (Some err, d, es))"

text \<open>One job after another on the document; after an uncaught exception nothing
  follows.\<close>

definition and_then :: "error option \<times> mediaDocument \<times> effect list
    \<Rightarrow> (mediaDocument \<Rightarrow> error option \<times> mediaDocument \<times> effect list)
    \<Rightarrow> error option \<times> mediaDocument \<times> effect list" where
  "and_then r f =
     (case r of
        (Some err, d, es) \<Rightarrow> (Some err, d, es)
      | (None, d, es) \<Rightarrow> (case f d of (r2, d2, es2) \<Rightarrow> (r2, d2, es @ es2)))"

text \<open>
  \<^verbatim>\<open>Promise.all\<close> of the two jobs on the shared document. They write different fields;
  the one field that one job writes and the other reads is \<^verbatim>\<open>thumbTime\<close>, read once
  when the CINF record is built. Every interleaving in which both jobs settle therefore
  leaves the document of one of the two sequential orders.
\<close>

definition run_probes :: "env \<Rightarrow> mediaDocument \<Rightarrow> error option \<times> mediaDocument \<times> effect list" where
  "run_probes e doc =
     (if thumb_stat_first e then
        and_then (caught ''Thumbnail Failed'' (generateThumb e doc))
          (\<lambda>d. caught ''Info Failed'' (generateInfo e d))
      else
        and_then (caught ''Info Failed'' (generateInfo e doc))
          (\<lambda>d. caught ''Thumbnail Failed'' (generateThumb e d)))"

definition placeholder :: "string \<Rightarrow> mediaDocument" where
  "placeholder mediaId = \<lparr>doc_id = mediaId, doc_rev = 0, mediaPath = [], mediaSize = 0, mediaTime = 0,
     thumbSize = None, thumbTime = None, cinf = None, tinf = None, mediainfo = None, attachment = None\<rparr>"

text \<open>\<^verbatim>\<open>db.get(mediaId).catch(() => placeholder)\<close>.\<close>

definition fetch :: "catalog \<Rightarrow> string \<Rightarrow> mediaDocument" where
  "fetch c mediaId = (case db_get c mediaId of Inl err \<Rightarrow> placeholder mediaId | Inr d \<Rightarrow> d)"

text \<open>\<^verbatim>\<open>scanFile\<close>: how the call ends, and the state it leaves. After an uncaught
  exception in a probe there is no \<^verbatim>\<open>db.put\<close>.\<close>

definition scanFile :: "env \<Rightarrow> world \<Rightarrow> string \<Rightarrow> string \<Rightarrow> stats \<Rightarrow> settled \<times> world" where
  "scanFile e w path mediaId mediaStat =
     (if mediaId = [] \<or> isDirectory mediaStat then (Resolved, w)
      else
        (let doc = fetch (catalog w) mediaId;
             w1 = emit [Db_get mediaId] w
         in if mediaPath doc \<noteq> [] \<and> mediaPath doc \<noteq> path then (Resolved, emit [Log_info ''Skipped''] w1)
            else if mediaSize doc = st_size mediaStat \<and> mediaTime doc = st_mtime mediaStat then (Resolved, w1)
            else
              (case run_probes e (doc\<lparr>mediaPath := path, mediaSize := st_size mediaStat,
                                       mediaTime := st_mtime mediaStat\<rparr>) of
                 (Some err, doc2, es) \<Rightarrow> (Uncaught err, emit es w1)
               | (None, doc2, es) \<Rightarrow>
                   (let w2 = emit (es @ [Db_put doc2]) w1
                    in case db_put (catalog w2) doc2 of
                         Inl err \<Rightarrow> (Rejected err, w2)
                       | Inr c \<Rightarrow> (Resolved, emit [Log_info ''Scanned''] (w2\<lparr>catalog := c\<rparr>))))))"

section \<open>The event pipeline\<close>

text \<open>An event of the watcher: the path, and the stat for \<^verbatim>\<open>add\<close> and \<^verbatim>\<open>change\<close>; no
  stat for \<^verbatim>\<open>unlink\<close>.\<close>

type_synonym event = "string \<times> stats option"

text \<open>The \<^verbatim>\<open>try\<close> block of the callback.\<close>

definition handle_body :: "env \<Rightarrow> world \<Rightarrow> string \<Rightarrow> string \<Rightarrow> stats option \<Rightarrow> settled \<times> world" where
  "handle_body e w path mediaId mediaStat =
     (case mediaStat of
        None \<Rightarrow>
          (let w1 = emit [Db_get mediaId] w in
           case db_get (catalog w1) mediaId of
             Inl err \<Rightarrow> (Rejected err, w1)
           | Inr d \<Rightarrow>
               (let w2 = emit [Db_remove d] w1 in
                case db_remove (catalog w2) d of
                  Inl err \<Rightarrow> (Rejected err, w2)
                | Inr c \<Rightarrow> (Resolved, w2\<lparr>catalog := c\<rparr>)))
      | Some st \<Rightarrow> scanFile e w path mediaId st)"

text \<open>
  The callback given to \<^verbatim>\<open>concatMap\<close>. Its \<^verbatim>\<open>catch\<close> logs what the \<^verbatim>\<open>try\<close> block
  rejects with, and the callback's promise resolves: \<open>Inr\<close> with the state reached. An
  exception that no promise received is not within reach of the \<^verbatim>\<open>catch\<close>: \<open>Inl\<close>, the
  callback never completes and the process has ended.
\<close>

definition on_event :: "env \<Rightarrow> world \<Rightarrow> event \<Rightarrow> error + world" where
  "on_event e w ev =
     (let (path, mediaStat) = ev;
          mediaId = getId e (paths_media e) path
      in case handle_body e w path mediaId mediaStat of
           (Resolved, w') \<Rightarrow> Inr w'
         | (Rejected err, w') \<Rightarrow> Inr (emit [Log_error [] err] w')
         | (Uncaught err, w') \<Rightarrow> Inl err)"

text \<open>The subscription through \<^verbatim>\<open>concatMap\<close>: the callback runs for one event at a
  time, in arrival order, each on the state the previous one left; when a callback does
  not complete, no later event is handled.\<close>

fun concatMap_subscribe :: "('w \<Rightarrow> 'a \<Rightarrow> error + 'w) \<Rightarrow> 'w \<Rightarrow> 'a list \<Rightarrow> error + 'w" where
  "concatMap_subscribe f w [] = Inr w"
| "concatMap_subscribe f w (x # xs) =
     (case f w x of Inl err \<Rightarrow> Inl err | Inr w' \<Rightarrow> concatMap_subscribe f w' xs)"

text \<open>The state that the callback leaves; where it does not complete, the state it
  started from.\<close>

definition after_event :: "env \<Rightarrow> world \<Rightarrow> event \<Rightarrow> world" where
  "after_event e w ev = (case on_event e w ev of Inl err \<Rightarrow> w | Inr w' \<Rightarrow> w')"

section \<open>The sweep\<close>

definition limit :: nat where
  "limit = 256"

text \<open>One row of a page: the entry for \<^verbatim>\<open>deleted\<close>, if the row is pushed, and the
  effects. Nothing in the body raises once the paths are texts, so the outer handler of
  the row is never entered.\<close>

definition sweep_row :: "env \<Rightarrow> mediaDocument \<Rightarrow> deletion option \<times> effect list" where
  "sweep_row e doc =
     (let mediaFolder = path_normalize e (scanner_paths e);
          mp = path_normalize e (mediaPath doc);
          del = \<lparr>del_id = doc_id doc, del_rev = doc_rev doc\<rparr>
      in if prefix mediaFolder mp then
           (case statAsync e (mediaPath doc) of
              Inr st \<Rightarrow> if isFile st then (None, [Fs_stat (mediaPath doc)])
                        else (Some del, [Fs_stat (mediaPath doc)])
            | Inl err \<Rightarrow> (Some del, [Fs_stat (mediaPath doc)]))
         else (Some del, []))"

text \<open>One turn of the loop: the rows listed, the deletions submitted, and the state
  after the bulk deletion. The rows are taken in the order of the page.\<close>

definition sweep_deleted :: "env \<Rightarrow> mediaDocument list \<Rightarrow> deletion list" where
  "sweep_deleted e rows = List.map_filter (\<lambda>d. fst (sweep_row e d)) rows"

definition sweep_page :: "env \<Rightarrow> world \<Rightarrow> string option \<Rightarrow> world" where
  "sweep_page e w startkey =
     (let rows = allDocs (catalog w) startkey limit;
          deleted = sweep_deleted e rows
      in \<lparr>catalog = bulkDocs (catalog w) deleted,
          effects = effects w @ [Db_allDocs startkey] @ concat (map (\<lambda>d. snd (sweep_row e d)) rows)
                    @ [Db_bulkDocs deleted]\<rparr>)"

text \<open>The loop of \<^verbatim>\<open>cleanDeleted\<close>. It has no bound of its own: the result is \<open>None\<close>
  when it does not end.\<close>

partial_function (option) cleanDeleted_loop :: "env \<Rightarrow> world \<Rightarrow> string option \<Rightarrow> world option" where
  "cleanDeleted_loop e w startkey =
     (let rows = allDocs (catalog w) startkey limit;
          w' = sweep_page e w startkey
      in if length rows < limit then Some w'
         else cleanDeleted_loop e w' (Some (doc_id (last rows))))"

definition cleanDeleted :: "env \<Rightarrow> world \<Rightarrow> world option" where
  "cleanDeleted e w =
     map_option (emit [Log_info ''Finished check for dead media''])
       (cleanDeleted_loop e (emit [Log_info ''Checking for dead media''] w) None)"

text \<open>The test that the sweep makes on the path of an entry: the normalized path
  starts with the normalized text of the scan root. The test compares characters, not
  path components: for the root \<^verbatim>\<open>/media\<close> the path \<^verbatim>\<open>/media-old/x\<close> passes as well.\<close>

definition starts_with_root :: "env \<Rightarrow> mediaDocument \<Rightarrow> bool" where
  "starts_with_root e doc = prefix (path_normalize e (scanner_paths e)) (path_normalize e (mediaPath doc))"

text \<open>An entry survives the sweep when its path passes that test and its stat succeeds
  and reports a regular file.\<close>

definition is_regular_file :: "env \<Rightarrow> string \<Rightarrow> bool" where
  "is_regular_file e p = (case statAsync e p of Inl err \<Rightarrow> False | Inr st \<Rightarrow> isFile st)"

definition survives :: "env \<Rightarrow> mediaDocument \<Rightarrow> bool" where
  "survives e doc = (starts_with_root e doc \<and> is_regular_file e (mediaPath doc))"

declare cleanDeleted_loop.simps [code]

section \<open>The words of the claims\<close>

text \<open>Predicates and values that state the properties below; none of them is part of
  the scanner.\<close>

subsection \<open>Kinds of stream\<close>

definition is_audio :: "stream \<Rightarrow> bool" where
  "is_audio s = (codec_type s = Some ''audio'')"

text \<open>A video stream is a still when its codec time base is the sentinel \<^verbatim>\<open>0/1\<close>,
  and motion video otherwise.\<close>

definition is_still :: "stream \<Rightarrow> bool" where
  "is_still s = (codec_type s = Some ''video'' \<and> codec_time_base s = Some ''0/1'')"

definition is_motion :: "stream \<Rightarrow> bool" where
  "is_motion s = (codec_type s = Some ''video'' \<and> codec_time_base s \<noteq> Some ''0/1'')"

definition or_else :: "'a option \<Rightarrow> 'a option \<Rightarrow> 'a option" where
  "or_else a b = (case a of None \<Rightarrow> b | Some x \<Rightarrow> Some x)"

subsection \<open>The frame count as the specification words it\<close>

text \<open>Zero when the numerator of the time base is zero, otherwise the floor of seconds
  times denominator over numerator, where the seconds are the parsed duration and
  \<open>1/24\<close> only when the duration does not parse. The arithmetic is that of the
  code.\<close>

definition claimed_frames :: "ffformat \<Rightarrow> Timebase \<Rightarrow> jsint" where
  "claimed_frames fmt tb =
     (let d = parseFloat_field (duration fmt);
          secs = (if d = NaN then js_div (Fin 1) (Fin 24) else d)
      in if js_ToNumber (js_index tb 0) = Fin 0 \<or> js_ToNumber (js_index tb 0) = NegZero then IFin 0
         else Math_floor (js_div (js_mul secs (js_ToNumber (js_index tb 1))) (js_ToNumber (js_index tb 0))))"

subsection \<open>How a scan can go\<close>

text \<open>The scan gets as far as the probes: the file has an id, is not a directory, the
  fetched entry is not in collision with the path, and size or time differ.\<close>

definition scan_proceeds :: "world \<Rightarrow> string \<Rightarrow> string \<Rightarrow> stats \<Rightarrow> bool" where
  "scan_proceeds w path mediaId mediaStat =
     (mediaId \<noteq> [] \<and> \<not> isDirectory mediaStat
      \<and> (mediaPath (fetch (catalog w) mediaId) = [] \<or> mediaPath (fetch (catalog w) mediaId) = path)
      \<and> (mediaSize (fetch (catalog w) mediaId) \<noteq> st_size mediaStat
          \<or> mediaTime (fetch (catalog w) mediaId) \<noteq> st_mtime mediaStat))"

text \<open>The error with which the callback of ffprobe rejects, if it does: the error of
  the process, or \<^verbatim>\<open>not media\<close> for output without streams.\<close>

definition ffprobe_rejection :: "env \<Rightarrow> string \<Rightarrow> error option" where
  "ffprobe_rejection e path =
     (case run_ffprobe e path of
        Exec_failed err \<Rightarrow> Some err
      | Unparseable err \<Rightarrow> None
      | Parsed json \<Rightarrow> if streams json = [] then Some NotMedia else None)"

text \<open>The document after the three assignments from the stat of the event.\<close>

definition with_stat :: "mediaDocument \<Rightarrow> string \<Rightarrow> stats \<Rightarrow> mediaDocument" where
  "with_stat doc path mediaStat =
     doc\<lparr>mediaPath := path, mediaSize := st_size mediaStat, mediaTime := st_mtime mediaStat\<rparr>"

text \<open>The thumbnail probe succeeds with a file of the given size, time and content.\<close>

definition thumb_succeeds_with :: "env \<Rightarrow> string \<Rightarrow> int \<Rightarrow> int \<Rightarrow> string \<Rightarrow> bool" where
  "thumb_succeeds_with e path sz mt data =
     (run_thumb e path = \<lparr>mkdirp_result = None, exec_result = None, stat_result = Inr (sz, mt),
        read_result = Inr data, unlink_result = None\<rparr>)"

text \<open>The thumbnail probe fails before anything is stored: at \<^verbatim>\<open>mkdirp\<close>, at the
  process, or at the stat of its output.\<close>

definition thumb_fails_early :: "env \<Rightarrow> string \<Rightarrow> bool" where
  "thumb_fails_early e path =
     (mkdirp_result (run_thumb e path) \<noteq> None \<or> exec_result (run_thumb e path) \<noteq> None
      \<or> isl (stat_result (run_thumb e path)))"

definition with_thumb :: "env \<Rightarrow> mediaDocument \<Rightarrow> int \<Rightarrow> int \<Rightarrow> string \<Rightarrow> mediaDocument" where
  "with_thumb e doc sz mt data =
     doc\<lparr>thumbSize := Some sz, thumbTime := Some mt,
         tinf := Some (join_sp [dquote (getId e (paths_media e) (mediaPath doc)),
                                moment_format True (utcOffset e) mt, show_int sz] @ CRLF),
         attachment := Some data\<rparr>"

subsection \<open>Pages of the sweep\<close>

text \<open>The rows of the page that follows the page listed from \<open>startkey\<close>: the
  listing of the catalog after the bulk deletion, from the id of the last row.\<close>

definition next_page :: "env \<Rightarrow> catalog \<Rightarrow> string option \<Rightarrow> mediaDocument list" where
  "next_page e c startkey =
     allDocs (bulkDocs c (sweep_deleted e (allDocs c startkey limit)))
       (Some (doc_id (last (allDocs c startkey limit)))) limit"

definition deletion_of :: "mediaDocument \<Rightarrow> deletion" where
  "deletion_of d = \<lparr>del_id = doc_id d, del_rev = doc_rev d\<rparr>"

text \<open>The stats that one page performs, in the order of its rows.\<close>

definition page_stats :: "env \<Rightarrow> mediaDocument list \<Rightarrow> effect list" where
  "page_stats e rows = concat (map (\<lambda>d. snd (sweep_row e d)) rows)"

section \<open>Sample data\<close>

subsection \<open>Probe output and documents\<close>

definition video_25fps :: stream where
  "video_25fps = \<lparr>codec_type = Some ''video'', codec_time_base = Some ''1/50'',
     avg_frame_rate = Some ''25/1'', r_frame_rate = Some ''25/1'', time_base = Some ''1/12800''\<rparr>"

definition audio_48k :: stream where
  "audio_48k = \<lparr>codec_type = Some ''audio'', codec_time_base = Some ''1/48000'',
     avg_frame_rate = Some ''0/0'', r_frame_rate = Some ''0/0'', time_base = Some ''1/48000''\<rparr>"

definition still_png :: stream where
  "still_png = \<lparr>codec_type = Some ''video'', codec_time_base = Some ''0/1'',
     avg_frame_rate = Some ''0/0'', r_frame_rate = Some ''25/1'', time_base = Some ''1/25''\<rparr>"

definition two_seconds :: ffformat where
  "two_seconds = \<lparr>duration = Some ''2.000000''\<rparr>"

definition zero_seconds :: ffformat where
  "zero_seconds = \<lparr>duration = Some ''0.000000''\<rparr>"

text \<open>Twenty-nine frames of a 25 fps clip, as ffprobe prints their duration.\<close>

definition frames_29 :: ffformat where
  "frames_29 = \<lparr>duration = Some ''1.160000''\<rparr>"

definition clip_probe :: probe where
  "clip_probe = \<lparr>streams = [video_25fps, audio_48k], format = Some two_seconds\<rparr>"

definition clip_doc :: mediaDocument where
  "clip_doc = \<lparr>doc_id = ''CLIP'', doc_rev = 1, mediaPath = ''/media/CLIP'', mediaSize = 1000,
     mediaTime = 0, thumbSize = Some 2048, thumbTime = Some 0, cinf = None, tinf = None,
     mediainfo = None, attachment = None\<rparr>"

subsection \<open>A host\<close>

text \<open>Modelled from the spec: \<^verbatim>\<open>./util\<close>'s \<open>getId\<close> is not among the sources. This
  sample gives the path relative to the media root, without the leading separator, as
  section 4.1 of the specification asks.\<close>

definition sample_getId :: "string \<Rightarrow> string \<Rightarrow> string" where
  "sample_getId base p = drop (Suc (length base)) p"

text \<open>A host in the UTC time zone whose media root is \<^verbatim>\<open>/media\<close>; the external tools
  answer for the sample clip only.\<close>

definition sample_thumb :: thumb_run where
  "sample_thumb = \<lparr>mkdirp_result = None, exec_result = None, stat_result = Inr (2048, 0),
     read_result = Inr ''PNG'', unlink_result = None\<rparr>"

definition sample_env :: env where
  "sample_env = \<lparr>paths_media = ''/media'', scanner_paths = ''/media'', metadata = None,
     getId = sample_getId, path_normalize = (\<lambda>p. p), utcOffset = 0, now = 86400000,
     run_ffprobe = (\<lambda>p. if p = ''/media/CLIP'' then Parsed clip_probe
                         else Exec_failed (ExecError ''ffprobe'')),
     run_thumb = (\<lambda>p. sample_thumb),
     run_idet = (\<lambda>frames p. Inl (ExecError ''ffmpeg'')),
     statAsync = (\<lambda>p. if p = ''/media/CLIP''
        then Inr \<lparr>st_size = 1000, st_mtime = 0, isFile = True, isDirectory = False\<rparr>
        else Inl (FsError ''ENOENT'')),
     thumb_stat_first = False\<rparr>"

definition broken_probe_env :: env where
  "broken_probe_env = sample_env\<lparr>run_ffprobe := (\<lambda>p. Exec_failed (ExecError ''ffprobe''))\<rparr>"

definition broken_thumb_env :: env where
  "broken_thumb_env = sample_env\<lparr>run_thumb := (\<lambda>p. sample_thumb\<lparr>exec_result := Some (ExecError ''ffmpeg'')\<rparr>)\<rparr>"

text \<open>A host whose ffprobe exits with status 0 and prints nothing for the file
  \<^verbatim>\<open>/media/BAD\<close>: \<^verbatim>\<open>JSON.parse('')\<close> throws a syntax error.\<close>

definition garbled_env :: env where
  "garbled_env = sample_env\<lparr>run_ffprobe := (\<lambda>p. if p = ''/media/BAD'' then Unparseable SyntaxError
                                                  else run_ffprobe sample_env p)\<rparr>"

subsection \<open>Diagnostic output of the interlace detection\<close>

definition idet_config :: metadata_config where
  "idet_config = \<lparr>fieldOrder = True, fieldOrderScanDuration = ''200''\<rparr>"

definition idet_output :: "string \<Rightarrow> string \<Rightarrow> string \<Rightarrow> string" where
  "idet_output t b p =
     ''[Parsed_idet_0 @ 0x55d0] Single frame detection: TFF:     9 BFF:     1 Progressive:     1 Undetermined:   189''
     @ [CHR 0x0A]
     @ ''[Parsed_idet_0 @ 0x55d0] Multi frame detection: TFF:    '' @ t @ '' BFF:     '' @ b
     @ '' Progressive:    '' @ p @ '' Undetermined:     3'' @ [CHR 0x0A]"

definition idet_env :: "string \<Rightarrow> env" where
  "idet_env out = sample_env\<lparr>metadata := Some idet_config, run_idet := (\<lambda>frames p. Inr out)\<rparr>"

text \<open>A host with metadata configured on which the detection run of ffmpeg fails.\<close>

definition broken_idet_env :: env where
  "broken_idet_env = sample_env\<lparr>metadata := Some idet_config\<rparr>"

subsection \<open>Events\<close>

definition clip_stat :: stats where
  "clip_stat = \<lparr>st_size = 1000, st_mtime = 0, isFile = True, isDirectory = False\<rparr>"

definition grown_stat :: stats where
  "grown_stat = \<lparr>st_size = 2000, st_mtime = 60000, isFile = True, isDirectory = False\<rparr>"

definition clip_world :: world where
  "clip_world = \<lparr>catalog = [clip_doc], effects = []\<rparr>"

definition empty_world :: world where
  "empty_world = \<lparr>catalog = [], effects = []\<rparr>"

definition sample_events :: "event list" where
  "sample_events = [(''/media/GONE'', None), (''/media/CLIP'', Some grown_stat)]"

text \<open>A file for which ffprobe prints nothing is added, then the sample clip.\<close>

definition bad_events :: "event list" where
  "bad_events = [(''/media/BAD'', Some clip_stat), (''/media/CLIP'', Some clip_stat)]"

subsection \<open>Catalogs\<close>

text \<open>An entry whose file exists, outside the scan root.\<close>

definition stray_doc :: mediaDocument where
  "stray_doc = (placeholder ''OLD'')\<lparr>doc_rev := 3, mediaPath := ''/archive/OLD'', mediaSize := 7\<rparr>"

definition gone_doc :: mediaDocument where
  "gone_doc = (placeholder ''GONE'')\<lparr>doc_rev := 2, mediaPath := ''/media/GONE'', mediaSize := 9\<rparr>"

text \<open>An entry whose file exists in a directory beside the scan root, with a name that
  starts with the text of the root.\<close>

definition sibling_doc :: mediaDocument where
  "sibling_doc = (placeholder ''SIDE'')\<lparr>doc_rev := 1, mediaPath := ''/media-old/SIDE'', mediaSize := 5\<rparr>"

definition sweep_env :: env where
  "sweep_env = sample_env\<lparr>statAsync :=
     (\<lambda>p. if p = ''/media/CLIP'' \<or> p = ''/archive/OLD'' \<or> p = ''/media-old/SIDE''
        then Inr \<lparr>st_size = 1000, st_mtime = 0, isFile = True, isDirectory = False\<rparr>
        else Inl (FsError ''ENOENT''))\<rparr>"

definition sweep_world :: world where
  "sweep_world = \<lparr>catalog = [clip_doc, gone_doc, stray_doc, sibling_doc], effects = []\<rparr>"

text \<open>Three hundred entries under the scan root, with the ids \<^verbatim>\<open>a\<close>, \<^verbatim>\<open>aa\<close>, \<^verbatim>\<open>aaa\<close> and so
  on, on a host where none of the files exists.\<close>

definition numbered_doc :: "nat \<Rightarrow> mediaDocument" where
  "numbered_doc n = (placeholder (replicate (Suc n) (CHR ''a'')))
     \<lparr>doc_rev := 1, mediaPath := ''/media/'' @ replicate (Suc n) (CHR ''a'')\<rparr>"

definition big_catalog :: catalog where
  "big_catalog = map numbered_doc [0..<300]"

definition unmounted_env :: env where
  "unmounted_env = sample_env\<lparr>statAsync := (\<lambda>p. Inl (FsError ''ENOENT''))\<rparr>"

definition mounted_env :: env where
  "mounted_env = sample_env\<lparr>statAsync :=
     (\<lambda>p. Inr \<lparr>st_size = 1000, st_mtime = 0, isFile = True, isDirectory = False\<rparr>)\<rparr>"

definition big_world :: world where
  "big_world = \<lparr>catalog = big_catalog, effects = []\<rparr>"

section \<open>Properties of the CINF record\<close>

subsection \<open>Type and time base\<close>

lemma scan_stream_cases:
  "scan_stream t s =
     (if is_audio s then (if audioTb t = None then t\<lparr>audioTb := Some (split_tb (time_base s))\<rparr> else t)
      else if is_still s then (if stillTb t = None then t\<lparr>stillTb := Some [JNum (Fin 0), JNum (Fin 1)]\<rparr> else t)
      else if is_motion s then (if videoTb t = None then t\<lparr>videoTb := Some (motion_tb s)\<rparr> else t)
      else t)"
  by (simp add: scan_stream_def is_audio_def is_still_def is_motion_def)

lemma kinds_disjoint:
  "is_audio s \<Longrightarrow> \<not> is_still s" "is_audio s \<Longrightarrow> \<not> is_motion s" "is_still s \<Longrightarrow> \<not> is_motion s"
  by (simp_all add: is_audio_def is_still_def is_motion_def)

text \<open>What the loop leaves in each of its three variables, for any values they start
  with: a variable that is set stays, an unset one takes the first stream of its kind.\<close>

lemma audioTb_foldl:
  "audioTb (foldl scan_stream t ss) =
     or_else (audioTb t) (map_option (\<lambda>s. split_tb (time_base s)) (find is_audio ss))"
  by (induction ss arbitrary: t) (simp_all add: scan_stream_cases or_else_def split: option.splits)

lemma videoTb_foldl:
  "videoTb (foldl scan_stream t ss) = or_else (videoTb t) (map_option motion_tb (find is_motion ss))"
  by (induction ss arbitrary: t) (simp_all add: scan_stream_cases kinds_disjoint or_else_def split: option.splits)

lemma stillTb_foldl:
  "stillTb (foldl scan_stream t ss) =
     or_else (stillTb t) (if list_ex is_still ss then Some [JNum (Fin 0), JNum (Fin 1)] else None)"
  by (induction ss arbitrary: t) (simp_all add: scan_stream_cases kinds_disjoint or_else_def split: option.splits)

lemma split_at_no_sep: "sep \<notin> set a \<Longrightarrow> split_at sep a = [a]"
  by (induction a) auto

lemma split_at_two:
  "sep \<notin> set a \<Longrightarrow> sep \<notin> set b \<Longrightarrow> split_at sep (a @ sep # b) = [a, b]"
  by (induction a) (auto simp: split_at_no_sep)

text \<open>A time base that is split from a text \<open>n/d\<close> is the pair of the texts \<open>n\<close> and
  \<open>d\<close>; an absent or empty text counts as \<^verbatim>\<open>1/25\<close>.\<close>

lemma split_tb_pair:
  assumes "CHR ''/'' \<notin> set n" "CHR ''/'' \<notin> set d"
  shows "split_tb (Some (n @ CHR ''/'' # d)) = [JStr n, JStr d]"
  using assms by (simp add: split_tb_def js_or_str_def split_at_two)

lemma split_tb_default: "split_tb None = [JStr ''1'', JStr ''25'']" "split_tb (Some []) = [JStr ''1'', JStr ''25'']"
  by (simp_all add: split_tb_def js_or_str_def)

lemma motion_tb_inverts:
  assumes "avg_frame_rate s = Some (a @ CHR ''/'' # b)" "CHR ''/'' \<notin> set a" "CHR ''/'' \<notin> set b"
  shows "motion_tb s = [JNum (js_Number b), JNum (js_Number a)]"
  using assms by (simp add: motion_tb_def js_or_str_def split_at_two)

lemma motion_tb_real_rate:
  assumes "avg_frame_rate s = None \<or> avg_frame_rate s = Some []"
    and "r_frame_rate s = Some (a @ CHR ''/'' # b)" "CHR ''/'' \<notin> set a" "CHR ''/'' \<notin> set b"
  shows "motion_tb s = [JNum (js_Number b), JNum (js_Number a)]"
  using assms by (auto simp: motion_tb_def js_or_str_def split_at_two)

lemma motion_tb_no_rate:
  assumes "avg_frame_rate s = None \<or> avg_frame_rate s = Some []"
    and "r_frame_rate s = None \<or> r_frame_rate s = Some []"
  shows "motion_tb s = split_tb (time_base s)"
  using assms by (auto simp: motion_tb_def js_or_str_def)

lemma list_ex_audio_find: "list_ex is_audio ss \<longleftrightarrow> find is_audio ss \<noteq> None"
  by (auto simp: list_ex_iff find_None_iff)

lemma classify_scan_streams:
  "classify (scan_streams ss) =
     (case find is_motion ss of
        Some v \<Rightarrow> ('' MOVIE '', motion_tb v)
      | None \<Rightarrow>
          if list_ex is_still ss \<and> \<not> list_ex is_audio ss then ('' STILL '', [JNum (Fin 0), JNum (Fin 1)])
          else (case find is_audio ss of
                  Some a \<Rightarrow> ('' AUDIO '', split_tb (time_base a))
                | None \<Rightarrow> ('' AUDIO '', [JNum (Fin 0), JNum (Fin 1)])))"
  by (simp add: scan_streams_def classify_def audioTb_foldl videoTb_foldl stillTb_foldl
      or_else_def list_ex_audio_find split: option.splits)

text \<open>
  Claim C3. The type and time base that \<^verbatim>\<open>generateCinf\<close> infers from a stream list:
  MOVIE with the time base of the first motion video stream when there is one;
  otherwise STILL with the pair of numbers 0 and 1 when there is a still and no audio
  stream; otherwise AUDIO with the time base of the first audio stream, or the numbers
  0 and 1 when there is none. The motion time base of a stream whose average frame rate
  is the text \<open>a/b\<close> is the pair of the numbers that \<open>b\<close> and \<open>a\<close> convert to; the real
  frame rate stands in for an absent or empty average frame rate; with neither, the
  time base is split from the stream's \<^verbatim>\<open>time_base\<close>, like that of an audio stream. A
  time base split from the text \<open>n/d\<close> is the pair of the texts \<open>n\<close> and \<open>d\<close>, and from
  an absent or empty text the pair of the texts \<^verbatim>\<open>1\<close> and \<^verbatim>\<open>25\<close>.
\<close>

theorem classification_precedence:
  "classify (scan_streams ss) =
     (case find is_motion ss of
        Some v \<Rightarrow> ('' MOVIE '', motion_tb v)
      | None \<Rightarrow>
          if list_ex is_still ss \<and> \<not> list_ex is_audio ss then ('' STILL '', [JNum (Fin 0), JNum (Fin 1)])
          else (case find is_audio ss of
                  Some a \<Rightarrow> ('' AUDIO '', split_tb (time_base a))
                | None \<Rightarrow> ('' AUDIO '', [JNum (Fin 0), JNum (Fin 1)])))
   \<and> (\<forall>s a b. avg_frame_rate s = Some (a @ CHR ''/'' # b) \<and> CHR ''/'' \<notin> set a \<and> CHR ''/'' \<notin> set b
        \<longrightarrow> motion_tb s = [JNum (js_Number b), JNum (js_Number a)])
   \<and> (\<forall>s a b. (avg_frame_rate s = None \<or> avg_frame_rate s = Some [])
          \<and> r_frame_rate s = Some (a @ CHR ''/'' # b) \<and> CHR ''/'' \<notin> set a \<and> CHR ''/'' \<notin> set b
        \<longrightarrow> motion_tb s = [JNum (js_Number b), JNum (js_Number a)])
   \<and> (\<forall>s. (avg_frame_rate s = None \<or> avg_frame_rate s = Some [])
          \<and> (r_frame_rate s = None \<or> r_frame_rate s = Some [])
        \<longrightarrow> motion_tb s = split_tb (time_base s))
   \<and> (\<forall>n d. CHR ''/'' \<notin> set n \<and> CHR ''/'' \<notin> set d
        \<longrightarrow> split_tb (Some (n @ CHR ''/'' # d)) = [JStr n, JStr d])
   \<and> split_tb None = [JStr ''1'', JStr ''25'']
   \<and> split_tb (Some []) = [JStr ''1'', JStr ''25'']"
proof (intro conjI allI impI)
  show "classify (scan_streams ss) =
     (case find is_motion ss of
        Some v \<Rightarrow> ('' MOVIE '', motion_tb v)
      | None \<Rightarrow>
          if list_ex is_still ss \<and> \<not> list_ex is_audio ss then ('' STILL '', [JNum (Fin 0), JNum (Fin 1)])
          else (case find is_audio ss of
                  Some a \<Rightarrow> ('' AUDIO '', split_tb (time_base a))
                | None \<Rightarrow> ('' AUDIO '', [JNum (Fin 0), JNum (Fin 1)])))"
    by (rule classify_scan_streams)
next
  fix s :: stream and a b
  assume "avg_frame_rate s = Some (a @ CHR ''/'' # b) \<and> CHR ''/'' \<notin> set a \<and> CHR ''/'' \<notin> set b"
  then show "motion_tb s = [JNum (js_Number b), JNum (js_Number a)]"
    by (simp add: motion_tb_inverts)
next
  fix s :: stream and a b
  assume "(avg_frame_rate s = None \<or> avg_frame_rate s = Some [])
          \<and> r_frame_rate s = Some (a @ CHR ''/'' # b) \<and> CHR ''/'' \<notin> set a \<and> CHR ''/'' \<notin> set b"
  then show "motion_tb s = [JNum (js_Number b), JNum (js_Number a)]"
    using motion_tb_real_rate [of s a b] by blast
next
  fix s :: stream
  assume "(avg_frame_rate s = None \<or> avg_frame_rate s = Some [])
          \<and> (r_frame_rate s = None \<or> r_frame_rate s = Some [])"
  then show "motion_tb s = split_tb (time_base s)"
    using motion_tb_no_rate [of s] by blast
next
  fix n d :: string
  assume "CHR ''/'' \<notin> set n \<and> CHR ''/'' \<notin> set d"
  then show "split_tb (Some (n @ CHR ''/'' # d)) = [JStr n, JStr d]"
    by (simp add: split_tb_pair)
qed (simp_all add: split_tb_default)

lemma number_of_text: "js_Number ''1'' = Fin 1" "js_Number ''25'' = Fin 25"
  by code_simp+

text \<open>
  A video stream of frame rate \<^verbatim>\<open>25/1\<close> with an audio stream is a MOVIE whose time base
  is the numbers 1 and 25. A still alone is a STILL with the numbers 0 and 1. An audio
  stream of time base \<^verbatim>\<open>1/48000\<close>, alone or with a still, is AUDIO with the texts \<^verbatim>\<open>1\<close>
  and \<^verbatim>\<open>48000\<close>. A subtitle stream alone is AUDIO with the numbers 0 and 1. A video
  stream without frame rates takes its time base from \<^verbatim>\<open>time_base\<close>.
\<close>

theorem classification_precedence_witness:
  "avg_frame_rate video_25fps = Some (''25'' @ CHR ''/'' # ''1'')
   \<and> CHR ''/'' \<notin> set ''25'' \<and> CHR ''/'' \<notin> set ''1''
   \<and> find is_motion [video_25fps, audio_48k] = Some video_25fps
   \<and> classify (scan_streams [video_25fps, audio_48k]) = ('' MOVIE '', [JNum (Fin 1), JNum (Fin 25)])
   \<and> classify (scan_streams [still_png]) = ('' STILL '', [JNum (Fin 0), JNum (Fin 1)])
   \<and> time_base audio_48k = Some (''1'' @ CHR ''/'' # ''48000'')
   \<and> CHR ''/'' \<notin> set ''48000''
   \<and> classify (scan_streams [audio_48k]) = ('' AUDIO '', [JStr ''1'', JStr ''48000''])
   \<and> classify (scan_streams [still_png, audio_48k]) = ('' AUDIO '', [JStr ''1'', JStr ''48000''])
   \<and> classify (scan_streams [audio_48k\<lparr>codec_type := Some ''subtitle''\<rparr>])
        = ('' AUDIO '', [JNum (Fin 0), JNum (Fin 1)])
   \<and> classify (scan_streams [video_25fps\<lparr>avg_frame_rate := None, r_frame_rate := Some []\<rparr>])
        = ('' MOVIE '', [JStr ''1'', JStr ''12800''])
   \<and> classify (scan_streams [audio_48k\<lparr>time_base := None\<rparr>]) = ('' AUDIO '', [JStr ''1'', JStr ''25''])"
proof -
  note all = classification_precedence
  have rate: "avg_frame_rate video_25fps = Some (''25'' @ CHR ''/'' # ''1'')
      \<and> CHR ''/'' \<notin> set ''25'' \<and> CHR ''/'' \<notin> set ''1''"
    by (simp add: video_25fps_def)
  have tb: "time_base audio_48k = Some (''1'' @ CHR ''/'' # ''48000'')" "CHR ''/'' \<notin> set ''48000''"
    by (simp_all add: audio_48k_def)
  have first: "find is_motion [video_25fps, audio_48k] = Some video_25fps"
    by (simp add: is_motion_def video_25fps_def)
  have kinds: "is_motion video_25fps" "is_audio audio_48k" "is_still still_png"
    "\<not> is_motion audio_48k" "\<not> is_motion still_png" "\<not> is_still audio_48k" "\<not> is_audio still_png"
    by (simp_all add: is_motion_def is_audio_def is_still_def video_25fps_def audio_48k_def still_png_def)
  have movie_tb: "motion_tb video_25fps = [JNum (Fin 1), JNum (Fin 25)]"
    using all [of "[]", THEN conjunct2, THEN conjunct1, rule_format, OF rate]
    by (simp add: number_of_text)
  have audio_tb: "split_tb (time_base audio_48k) = [JStr ''1'', JStr ''48000'']"
    using all [of "[]", THEN conjunct2, THEN conjunct2, THEN conjunct2, THEN conjunct2, THEN conjunct1,
        rule_format, of "''1''" "''48000''"] tb
    by simp
  have movie: "classify (scan_streams [video_25fps, audio_48k]) = ('' MOVIE '', [JNum (Fin 1), JNum (Fin 25)])"
    using all [of "[video_25fps, audio_48k]", THEN conjunct1] kinds movie_tb by simp
  have still: "classify (scan_streams [still_png]) = ('' STILL '', [JNum (Fin 0), JNum (Fin 1)])"
    using all [of "[still_png]", THEN conjunct1] kinds by simp
  have audio: "classify (scan_streams [audio_48k]) = ('' AUDIO '', [JStr ''1'', JStr ''48000''])"
    using all [of "[audio_48k]", THEN conjunct1] kinds audio_tb by simp
  have both: "classify (scan_streams [still_png, audio_48k]) = ('' AUDIO '', [JStr ''1'', JStr ''48000''])"
    using all [of "[still_png, audio_48k]", THEN conjunct1] kinds audio_tb by simp
  have none: "classify (scan_streams [audio_48k\<lparr>codec_type := Some ''subtitle''\<rparr>])
        = ('' AUDIO '', [JNum (Fin 0), JNum (Fin 1)])"
    using all [of "[audio_48k\<lparr>codec_type := Some ''subtitle''\<rparr>]", THEN conjunct1]
    by (simp add: is_motion_def is_audio_def is_still_def)
  let ?v = "video_25fps\<lparr>avg_frame_rate := None, r_frame_rate := Some []\<rparr>"
  have "motion_tb ?v = split_tb (time_base ?v)"
    using all [of "[]", THEN conjunct2, THEN conjunct2, THEN conjunct2, THEN conjunct1, rule_format, of ?v]
    by simp
  moreover have "split_tb (time_base ?v) = [JStr ''1'', JStr ''12800'']"
    using all [of "[]", THEN conjunct2, THEN conjunct2, THEN conjunct2, THEN conjunct2, THEN conjunct1,
        rule_format, of "''1''" "''12800''"]
    by (simp add: video_25fps_def)
  ultimately have bare: "classify (scan_streams [?v]) = ('' MOVIE '', [JStr ''1'', JStr ''12800''])"
    using all [of "[?v]", THEN conjunct1] by (simp add: is_motion_def video_25fps_def)
  have dflt: "classify (scan_streams [audio_48k\<lparr>time_base := None\<rparr>]) = ('' AUDIO '', [JStr ''1'', JStr ''25''])"
    using all [of "[audio_48k\<lparr>time_base := None\<rparr>]", THEN conjunct1]
      all [of "[]", THEN conjunct2, THEN conjunct2, THEN conjunct2, THEN conjunct2, THEN conjunct2, THEN conjunct1]
    by (simp add: is_motion_def is_audio_def is_still_def audio_48k_def)
  from rate tb first movie still audio both none bare dflt show ?thesis
    by simp
qed

subsection \<open>Duration in frames\<close>

lemma cinf_frames_zero: "strictly_zero (js_index tb 0) \<Longrightarrow> cinf_frames dur tb = IFin 0"
  by (simp add: cinf_frames_def)

lemma signed_cases:
  "signed neg m = Fin p \<longleftrightarrow> (\<exists>v. m = Some v \<and> (v = 0 \<longrightarrow> \<not> neg) \<and> p = (if neg then - v else v))"
  by (auto simp: signed_def split: option.splits)

lemma Math_floor_signed: "Math_floor (signed neg (Some v)) = IFin \<lfloor>if neg then - v else v\<rfloor>"
  by (simp add: signed_def)

lemma js_mul_finite:
  assumes "round64 (a * b) = Fin p"
  shows "js_mul (Fin a) (Fin b) = Fin p \<or> (p = 0 \<and> js_mul (Fin a) (Fin b) = NegZero)"
proof -
  from assms obtain v where v: "round64_mag \<bar>a * b\<bar> = Some v" "v = 0 \<longrightarrow> \<not> a * b < 0"
      "p = (if a * b < 0 then - v else v)"
    unfolding round64_def signed_cases by blast
  have mul: "js_mul (Fin a) (Fin b) = signed ((a < 0) \<noteq> (b < 0)) (Some v)"
    using v(1) by (simp add: js_mul_def abs_mult)
  show ?thesis
  proof (cases "v = 0")
    case True
    with v(3) mul show ?thesis by (simp add: signed_def)
  next
    case False
    with v(1) have "a * b \<noteq> 0"
      by (auto simp: round64_mag_def)
    then have "(a * b < 0) = ((a < 0) \<noteq> (b < 0))"
      by (auto simp: mult_less_0_iff not_less order_le_less)
    with False v(3) mul show ?thesis by (simp add: signed_def)
  qed
qed

lemma js_div_finite:
  assumes "n \<noteq> 0" "round64 (p / n) = Fin v" "x = Fin p \<or> (p = 0 \<and> x = NegZero)"
  shows "Math_floor (js_div x (Fin n)) = IFin \<lfloor>v\<rfloor>"
proof -
  from assms(2) obtain u where u: "round64_mag \<bar>p / n\<bar> = Some u" "u = 0 \<longrightarrow> \<not> p / n < 0"
      "v = (if p / n < 0 then - u else u)"
    unfolding round64_def signed_cases by blast
  have mag: "magnitude x = Some \<bar>p\<bar>"
    using assms(3) by auto
  have div: "js_div x (Fin n) = signed (is_negative x \<noteq> (n < 0)) (Some u)"
    using assms(1,3) u(1) mag by (auto simp: js_div_def abs_divide)
  show ?thesis
  proof (cases "u = 0")
    case True
    with u(3) div show ?thesis by (simp add: signed_def)
  next
    case False
    with u(1) have "p / n \<noteq> 0"
      by (auto simp: round64_mag_def)
    then have p: "p \<noteq> 0"
      by auto
    with assms(3) have x: "x = Fin p"
      by simp
    from p assms(1) have "(p / n < 0) = ((p < 0) \<noteq> (n < 0))"
      by (auto simp: divide_less_0_iff not_less order_le_less)
    with u(3) div x show ?thesis
      by (simp add: Math_floor_signed)
  qed
qed

lemma cinf_frames_rounded:
  assumes "js_ToNumber (js_index tb 0) = Fin n" "n \<noteq> 0" "js_ToNumber (js_index tb 1) = Fin d"
    and "round64 (q * d) = Fin p" "round64 (p / n) = Fin v"
  shows "cinf_frames (Fin q) tb = IFin \<lfloor>v\<rfloor>"
proof -
  from assms(1,2) have "\<not> strictly_zero (js_index tb 0)"
    by (auto simp: strictly_zero_def)
  then have "cinf_frames (Fin q) tb = Math_floor (js_div (js_mul (Fin q) (Fin d)) (Fin n))"
    using assms(1,3) by (simp add: cinf_frames_def)
  also have "\<dots> = IFin \<lfloor>v\<rfloor>"
    using js_div_finite [OF assms(2,5) js_mul_finite [OF assms(4)]] .
  finally show ?thesis .
qed

lemma fallback_duration: "js_div (Fin 1) (Fin 24) = Fin (6004799503160661 / 144115188075855872)"
  by code_simp

text \<open>
  Claim C7, as the code has it. The duration in seconds is the parsed
  \<^verbatim>\<open>format.duration\<close>, a binary64 number, and the binary64 number nearest to \<open>1/24\<close>
  when the parse gives NaN or zero. The frame count is 0 when the numerator of the chosen
  time base is the number zero. When numerator \<open>n\<close> and denominator \<open>d\<close> convert to
  finite numbers with \<open>n\<close> not zero, the seconds are multiplied by \<open>d\<close> and the product
  is rounded to binary64, the rounded product is divided by \<open>n\<close> and the quotient is
  rounded to binary64, and the frame count is the floor of that.
\<close>

theorem cinf_frames_formula:
  "cinf_dur fmt =
     (if parseFloat_field (duration fmt) = NaN \<or> parseFloat_field (duration fmt) = Fin 0
         \<or> parseFloat_field (duration fmt) = NegZero
      then Fin (6004799503160661 / 144115188075855872) else parseFloat_field (duration fmt))
   \<and> (js_index (snd (classify (scan_streams ss))) 0 = JNum (Fin 0)
        \<or> js_index (snd (classify (scan_streams ss))) 0 = JNum NegZero
        \<longrightarrow> cinf_frames (cinf_dur fmt) (snd (classify (scan_streams ss))) = IFin 0)
   \<and> (\<forall>q n d p v. cinf_dur fmt = Fin q
          \<and> js_ToNumber (js_index (snd (classify (scan_streams ss))) 0) = Fin n \<and> n \<noteq> 0
          \<and> js_ToNumber (js_index (snd (classify (scan_streams ss))) 1) = Fin d
          \<and> round64 (q * d) = Fin p \<and> round64 (p / n) = Fin v
        \<longrightarrow> cinf_frames (cinf_dur fmt) (snd (classify (scan_streams ss))) = IFin \<lfloor>v\<rfloor>)"
proof (intro conjI allI impI)
  show "cinf_dur fmt =
     (if parseFloat_field (duration fmt) = NaN \<or> parseFloat_field (duration fmt) = Fin 0
         \<or> parseFloat_field (duration fmt) = NegZero
      then Fin (6004799503160661 / 144115188075855872) else parseFloat_field (duration fmt))"
    unfolding cinf_dur_def js_or_num_def fallback_duration ..
next
  assume "js_index (snd (classify (scan_streams ss))) 0 = JNum (Fin 0)
        \<or> js_index (snd (classify (scan_streams ss))) 0 = JNum NegZero"
  then show "cinf_frames (cinf_dur fmt) (snd (classify (scan_streams ss))) = IFin 0"
    by (intro cinf_frames_zero) (simp add: strictly_zero_def)
next
  fix q n d p v
  assume "cinf_dur fmt = Fin q
          \<and> js_ToNumber (js_index (snd (classify (scan_streams ss))) 0) = Fin n \<and> n \<noteq> 0
          \<and> js_ToNumber (js_index (snd (classify (scan_streams ss))) 1) = Fin d
          \<and> round64 (q * d) = Fin p \<and> round64 (p / n) = Fin v"
  then show "cinf_frames (cinf_dur fmt) (snd (classify (scan_streams ss))) = IFin \<lfloor>v\<rfloor>"
    using cinf_frames_rounded [of "snd (classify (scan_streams ss))" n d q p v] by simp
qed

lemma tb_clip: "snd (classify (scan_streams [video_25fps, audio_48k])) = [JNum (Fin 1), JNum (Fin 25)]"
  by code_simp

lemma tb_still: "snd (classify (scan_streams [still_png])) = [JNum (Fin 0), JNum (Fin 1)]"
  by code_simp

lemma parsed_durations:
  "parseFloat_field (duration two_seconds) = Fin 2"
  "parseFloat_field (duration frames_29) = Fin (5224175567749775 / 4503599627370496)"
  "parseFloat_field (duration \<lparr>duration = None\<rparr>) = NaN"
  by code_simp+

lemma rounded_products:
  "round64 (2 * 25) = Fin 50" "round64 (50 / 1) = Fin 50"
  "round64 (5224175567749775 / 4503599627370496 * 25) = Fin (8162774324609023 / 281474976710656)"
  "round64 (8162774324609023 / 281474976710656 / 1) = Fin (8162774324609023 / 281474976710656)"
  "round64 (6004799503160661 / 144115188075855872 * 25) = Fin (2345624805922133 / 2251799813685248)"
  "round64 (2345624805922133 / 2251799813685248 / 1) = Fin (2345624805922133 / 2251799813685248)"
  by code_simp+

lemma floors:
  "\<lfloor>8162774324609023 / 281474976710656 :: rat\<rfloor> = 28" "\<lfloor>2345624805922133 / 2251799813685248 :: rat\<rfloor> = 1"
  by code_simp+

text \<open>
  At the time base \<open>1/25\<close>: two seconds are 50 frames. The duration \<^verbatim>\<open>1.160000\<close> parses
  to the binary64 number below 1.16, its product with 25 rounds to the number below 29,
  and the frame count is 28. Without a duration the count is that of \<open>1/24\<close> of a
  second, 1. A still has 0 frames.
\<close>

theorem cinf_frames_formula_witness:
  "cinf_dur two_seconds = Fin 2
   \<and> js_ToNumber (js_index (snd (classify (scan_streams [video_25fps, audio_48k]))) 0) = Fin 1 \<and> (1::rat) \<noteq> 0
   \<and> js_ToNumber (js_index (snd (classify (scan_streams [video_25fps, audio_48k]))) 1) = Fin 25
   \<and> round64 (2 * 25) = Fin 50 \<and> round64 (50 / 1) = Fin 50
   \<and> cinf_frames (cinf_dur two_seconds) (snd (classify (scan_streams [video_25fps, audio_48k]))) = IFin 50
   \<and> cinf_dur frames_29 = Fin (5224175567749775 / 4503599627370496)
   \<and> round64 (5224175567749775 / 4503599627370496 * 25) = Fin (8162774324609023 / 281474976710656)
   \<and> cinf_frames (cinf_dur frames_29) (snd (classify (scan_streams [video_25fps, audio_48k]))) = IFin 28
   \<and> cinf_dur \<lparr>duration = None\<rparr> = Fin (6004799503160661 / 144115188075855872)
   \<and> cinf_frames (cinf_dur \<lparr>duration = None\<rparr>) (snd (classify (scan_streams [video_25fps, audio_48k]))) = IFin 1
   \<and> js_index (snd (classify (scan_streams [still_png]))) 0 = JNum (Fin 0)
   \<and> cinf_frames (cinf_dur two_seconds) (snd (classify (scan_streams [still_png]))) = IFin 0"
proof -
  let ?clip = "[video_25fps, audio_48k]"
  have n: "js_ToNumber (js_index (snd (classify (scan_streams ?clip))) 0) = Fin 1"
    and d: "js_ToNumber (js_index (snd (classify (scan_streams ?clip))) 1) = Fin 25"
    and z: "js_index (snd (classify (scan_streams [still_png]))) 0 = JNum (Fin 0)"
    by (simp_all add: tb_clip tb_still js_index_def)
  have one: "(1::rat) \<noteq> 0"
    by simp
  have dur2: "cinf_dur two_seconds = Fin 2"
    using cinf_frames_formula [of two_seconds "[]", THEN conjunct1] by (simp add: parsed_durations)
  have dur29: "cinf_dur frames_29 = Fin (5224175567749775 / 4503599627370496)"
    using cinf_frames_formula [of frames_29 "[]", THEN conjunct1] by (simp add: parsed_durations)
  have dur0: "cinf_dur \<lparr>duration = None\<rparr> = Fin (6004799503160661 / 144115188075855872)"
    using cinf_frames_formula [of "\<lparr>duration = None\<rparr>" "[]", THEN conjunct1]
    by (simp only: parsed_durations if_True simp_thms)
  have f50: "cinf_frames (cinf_dur two_seconds) (snd (classify (scan_streams ?clip))) = IFin 50"
    using cinf_frames_formula [of two_seconds ?clip, THEN conjunct2, THEN conjunct2, rule_format,
        of 2 1 25 50 50] dur2 n d rounded_products(1,2)
    by simp
  have "cinf_frames (cinf_dur frames_29) (snd (classify (scan_streams ?clip)))
      = IFin \<lfloor>8162774324609023 / 281474976710656 :: rat\<rfloor>"
    using cinf_frames_formula [of frames_29 ?clip, THEN conjunct2, THEN conjunct2, rule_format,
        of "5224175567749775 / 4503599627370496" 1 25 "8162774324609023 / 281474976710656"
           "8162774324609023 / 281474976710656"] dur29 n one d rounded_products(3,4)
    by blast
  then have f28: "cinf_frames (cinf_dur frames_29) (snd (classify (scan_streams ?clip))) = IFin 28"
    by (simp only: floors)
  have "cinf_frames (cinf_dur \<lparr>duration = None\<rparr>) (snd (classify (scan_streams ?clip)))
      = IFin \<lfloor>2345624805922133 / 2251799813685248 :: rat\<rfloor>"
    using cinf_frames_formula [of "\<lparr>duration = None\<rparr>" ?clip, THEN conjunct2, THEN conjunct2, rule_format,
        of "6004799503160661 / 144115188075855872" 1 25 "2345624805922133 / 2251799813685248"
           "2345624805922133 / 2251799813685248"] dur0 n one d rounded_products(5,6)
    by blast
  then have f1: "cinf_frames (cinf_dur \<lparr>duration = None\<rparr>) (snd (classify (scan_streams ?clip))) = IFin 1"
    by (simp only: floors)
  have f0: "cinf_frames (cinf_dur two_seconds) (snd (classify (scan_streams [still_png]))) = IFin 0"
    using cinf_frames_formula [of two_seconds "[still_png]", THEN conjunct2, THEN conjunct1] z by simp
  from dur2 n one d rounded_products(1,2,3) f50 dur29 f28 dur0 f1 z f0 show ?thesis
    by (intro conjI)
qed

text \<open>The claim as it is worded fails for a duration that parses to zero: the code
  then counts with \<open>1/24\<close> of a second, which is one frame at \<open>1/25\<close>, not zero
  frames.\<close>

theorem cinf_frames_claimed_counterexample:
  "parseFloat_field (duration zero_seconds) = Fin 0
   \<and> cinf_frames (cinf_dur zero_seconds) (snd (classify (scan_streams [video_25fps, audio_48k]))) = IFin 1
   \<and> claimed_frames zero_seconds (snd (classify (scan_streams [video_25fps, audio_48k]))) = IFin 0"
  by code_simp

text \<open>With exact arithmetic the duration \<^verbatim>\<open>1.160000\<close> at 25 frames per second would be
  29 frames.\<close>

lemma exact_frames_differ: "\<lfloor>116 / 100 * 25 / 1 :: rat\<rfloor> = 29"
  by code_simp

subsection \<open>The text of the record\<close>

lemma epoch_text: "moment_format False 0 0 = ''19700101000000''"
  by code_simp

lemma show_int_1000: "show_int 1000 = ''1000''"
  by code_simp

lemma frames_text_50: "jsint_toString (IFin 50) = ''50''"
  by code_simp

text \<open>
  Claim C1, as the code has it. For the id \<^verbatim>\<open>CLIP\<close>, 1000 bytes, a thumbnail time of
  epoch 0 on a host whose local time is UTC, and probe output that classifies as MOVIE
  with 50 frames and a time base that prints as \<open>1/25\<close>, the record is the quoted id,
  the type token, the size, the time stamp, the frame count and the time base joined by
  single spaces and ended by CR LF. The type token is the seven characters
  \<^verbatim>\<open>' MOVIE '\<close>, so two spaces stand on either side of the word.
\<close>

theorem cinf_fixed_inputs:
  assumes "getId e (paths_media e) (mediaPath doc) = ''CLIP''"
    and "mediaSize doc = 1000"
    and "thumbTime doc = Some 0"
    and "utcOffset e = 0"
    and "format json = Some fmt"
    and "classify (scan_streams (streams json)) = ('' MOVIE '', tb)"
    and "cinf_frames (cinf_dur fmt) tb = IFin 50"
    and "js_toString (js_index tb 0) = ''1''"
    and "js_toString (js_index tb 1) = ''25''"
  shows "generateCinf e doc json
    = Inr (dquote ''CLIP'' @ ''  MOVIE  1000 19700101000000 50 1/25'' @ CRLF)"
  using assms
  by (simp add: generateCinf_def moment_of_def epoch_text show_int_1000 frames_text_50 dquote_def)

lemma clip_classified:
  "classify (scan_streams (streams clip_probe)) = ('' MOVIE '', [JNum (Fin 1), JNum (Fin 25)])"
  by code_simp

lemma clip_frames: "cinf_frames (cinf_dur two_seconds) [JNum (Fin 1), JNum (Fin 25)] = IFin 50"
  by code_simp

theorem cinf_fixed_inputs_witness:
  "getId sample_env (paths_media sample_env) (mediaPath clip_doc) = ''CLIP''
   \<and> mediaSize clip_doc = 1000 \<and> thumbTime clip_doc = Some 0 \<and> utcOffset sample_env = 0
   \<and> format clip_probe = Some two_seconds
   \<and> classify (scan_streams (streams clip_probe)) = ('' MOVIE '', [JNum (Fin 1), JNum (Fin 25)])
   \<and> cinf_frames (cinf_dur two_seconds) [JNum (Fin 1), JNum (Fin 25)] = IFin 50
   \<and> generateCinf sample_env clip_doc clip_probe
       = Inr (dquote ''CLIP'' @ ''  MOVIE  1000 19700101000000 50 1/25'' @ CRLF)"
proof -
  have inputs: "getId sample_env (paths_media sample_env) (mediaPath clip_doc) = ''CLIP''"
    "mediaSize clip_doc = 1000" "thumbTime clip_doc = Some 0" "utcOffset sample_env = 0"
    "format clip_probe = Some two_seconds"
    by code_simp+
  have texts: "js_toString (js_index [JNum (Fin 1), JNum (Fin 25)] 0) = ''1''"
    "js_toString (js_index [JNum (Fin 1), JNum (Fin 25)] 1) = ''25''"
    by code_simp+
  from cinf_fixed_inputs [OF inputs clip_classified clip_frames texts]
  show ?thesis using inputs clip_classified clip_frames by simp
qed

text \<open>The text with one space on either side of the word, as the claim spells it, is
  not what the code returns for these inputs.\<close>

theorem cinf_single_space_counterexample:
  "cinf_frames (cinf_dur two_seconds) (snd (classify (scan_streams (streams clip_probe)))) = IFin 50
   \<and> snd (classify (scan_streams (streams clip_probe))) = [JNum (Fin 1), JNum (Fin 25)]
   \<and> generateCinf sample_env clip_doc clip_probe
       \<noteq> Inr (dquote ''CLIP'' @ '' MOVIE 1000 19700101000000 50 1/25'' @ CRLF)"
  by code_simp

text \<open>The time stamp is local time: one hour east of UTC the same instant prints as
  one o'clock.\<close>

lemma cinf_local_time_example:
  "generateCinf (sample_env\<lparr>utcOffset := 60\<rparr>) clip_doc clip_probe
     = Inr (dquote ''CLIP'' @ ''  MOVIE  1000 19700101010000 50 1/25'' @ CRLF)"
  by code_simp

text \<open>A time base that comes from splitting a text keeps its pieces as text. The
  comparison \<^verbatim>\<open>tb[0] === 0\<close> is then false also for the piece \<^verbatim>\<open>0\<close>, and the division
  by zero gives Infinity; by the piece \<^verbatim>\<open>-0\<close>, which converts to negative zero, it gives
  \<^verbatim>\<open>-Infinity\<close>.\<close>

lemma cinf_frames_text_zero_numerator:
  "snd (classify (scan_streams [audio_48k\<lparr>time_base := Some ''0/1''\<rparr>])) = [JStr ''0'', JStr ''1'']
   \<and> cinf_frames (cinf_dur two_seconds) [JStr ''0'', JStr ''1''] = IPosInf
   \<and> cinf_frames (cinf_dur two_seconds) [JStr ''-0'', JStr ''1''] = INegInf"
  by code_simp

text \<open>A frame rate with a fraction: the number that the text converts to is printed
  with the shortest digits that denote it.\<close>

lemma cinf_fractional_rate_example:
  "generateCinf sample_env clip_doc
     \<lparr>streams = [video_25fps\<lparr>avg_frame_rate := Some ''29.97/1''\<rparr>], format = Some two_seconds\<rparr>
     = Inr (dquote ''CLIP'' @ ''  MOVIE  1000 19700101000000 59 1/29.97'' @ CRLF)"
  by code_simp

section \<open>Properties of the field order detection\<close>

lemma run_then_other:
  assumes "\<forall>x \<in> set xs. P x" "ys = [] \<or> \<not> P (hd ys)"
  shows "takeWhile P (xs @ ys) = xs" and "dropWhile P (xs @ ys) = ys"
  using assms by (induction xs) (auto simp: takeWhile_eq_Nil_iff dropWhile_eq_self_iff)

lemma match_spaces_run:
  assumes "ws \<noteq> []" "\<forall>x \<in> set ws. is_space x" "ys = [] \<or> \<not> is_space (hd ys)"
  shows "match_spaces (ws @ ys) = Some ys"
  unfolding match_spaces_def run_then_other [OF assms(2,3)] using assms(1) by simp

lemma match_digits_run:
  assumes "ds \<noteq> []" "\<forall>x \<in> set ds. is_digit x" "ys = [] \<or> \<not> is_digit (hd ys)"
  shows "match_digits (ds @ ys) = Some (ds, ys)"
  unfolding match_digits_def run_then_other [OF assms(2,3)] using assms(1) by simp

lemma match_literal_append: "match_literal lit (lit @ ys) = Some ys"
  by (simp add: match_literal_def)

lemma digit_not_space: "is_digit x \<Longrightarrow> \<not> is_space x"
  by (auto simp: is_digit_def is_space_def)

text \<open>On a summary line of the tool, the groups of the pattern are the three counts
  as they are printed.\<close>

lemma resultRegex_here_summary:
  assumes ws: "ws1 \<noteq> []" "\<forall>x \<in> set ws1. is_space x" "ws2 \<noteq> []" "\<forall>x \<in> set ws2. is_space x"
      "ws3 \<noteq> []" "\<forall>x \<in> set ws3. is_space x" "ws4 \<noteq> []" "\<forall>x \<in> set ws4. is_space x"
      "ws5 \<noteq> []" "\<forall>x \<in> set ws5. is_space x"
    and ds: "t \<noteq> []" "\<forall>x \<in> set t. is_digit x" "b \<noteq> []" "\<forall>x \<in> set b. is_digit x"
      "p \<noteq> []" "\<forall>x \<in> set p. is_digit x"
    and rest: "rest = [] \<or> \<not> is_digit (hd rest)"
  shows "resultRegex_here (''Multi frame detection: TFF:'' @ ws1 @ t @ ws2 @ ''BFF:'' @ ws3 @ b @ ws4
           @ ''Progressive:'' @ ws5 @ p @ rest) = Some (t, b, p)"
proof -
  have hd_digit: "\<not> is_space (hd (d @ ys))" if "d \<noteq> []" "\<forall>x \<in> set d. is_digit x" for d ys
    using that by (cases d) (auto simp: digit_not_space)
  have hd_space: "\<not> is_digit (hd (w @ ys))" if "w \<noteq> []" "\<forall>x \<in> set w. is_space x" for w ys
    using that digit_not_space by (cases w) auto
  have lit: "\<not> is_space (hd (''BFF:'' @ ys))" "\<not> is_space (hd (''Progressive:'' @ ys))" for ys
    by (simp_all add: is_space_def)
  let ?s10 = "p @ rest"
  let ?s9 = "ws5 @ ?s10"
  let ?s8 = "''Progressive:'' @ ?s9"
  let ?s7 = "ws4 @ ?s8"
  let ?s6 = "b @ ?s7"
  let ?s5 = "ws3 @ ?s6"
  let ?s4 = "''BFF:'' @ ?s5"
  let ?s3 = "ws2 @ ?s4"
  let ?s2 = "t @ ?s3"
  let ?s1 = "ws1 @ ?s2"
  have 1: "match_literal ''Multi frame detection: TFF:'' (''Multi frame detection: TFF:'' @ ?s1) = Some ?s1"
    by (rule match_literal_append)
  have 2: "match_spaces ?s1 = Some ?s2"
    by (rule match_spaces_run) (use ws ds hd_digit in auto)
  have 3: "match_digits ?s2 = Some (t, ?s3)"
    by (rule match_digits_run) (use ws ds hd_space in auto)
  have 4: "match_spaces ?s3 = Some ?s4"
    by (rule match_spaces_run) (use ws lit(1) [of ?s5] in auto)
  have 5: "match_literal ''BFF:'' ?s4 = Some ?s5"
    by (rule match_literal_append)
  have 6: "match_spaces ?s5 = Some ?s6"
    by (rule match_spaces_run) (use ws ds hd_digit in auto)
  have 7: "match_digits ?s6 = Some (b, ?s7)"
    by (rule match_digits_run) (use ws ds hd_space in auto)
  have 8: "match_spaces ?s7 = Some ?s8"
    by (rule match_spaces_run) (use ws lit(2) [of ?s9] in auto)
  have 9: "match_literal ''Progressive:'' ?s8 = Some ?s9"
    by (rule match_literal_append)
  have 10: "match_spaces ?s9 = Some ?s10"
    by (rule match_spaces_run) (use ws ds hd_digit in auto)
  have 11: "match_digits ?s10 = Some (p, rest)"
    by (rule match_digits_run) (use ds rest in auto)
  show ?thesis
    unfolding resultRegex_here_def by (simp only: 1 2 3 4 5 6 7 8 9 10 11 bind.bind_lunit prod.case)
qed

text \<open>
  Claim C8. With detection disabled the result is \<^verbatim>\<open>unknown\<close>. With detection enabled
  and diagnostic output from the tool: when the pattern does not match, the result is
  \<^verbatim>\<open>unknown\<close>; when it matches with both the TFF and the BFF count at most 10, the
  result is \<^verbatim>\<open>progressive\<close>; otherwise it is \<^verbatim>\<open>tff\<close> or \<^verbatim>\<open>bff\<close>, \<^verbatim>\<open>tff\<close> when the TFF
  count is the larger and \<^verbatim>\<open>bff\<close> when the BFF count is the larger.
\<close>

theorem field_order_classification:
  "(\<not> fieldOrder m \<longrightarrow> detectFieldOrder e m doc = Inr ''unknown'')
   \<and> (fieldOrder m \<and> run_idet e (fieldOrderScanDuration m) (mediaPath doc) = Inr out \<longrightarrow>
        (resultRegex_exec out = None \<longrightarrow> detectFieldOrder e m doc = Inr ''unknown'')
      \<and> (\<forall>t b p. resultRegex_exec out = Some (t, b, p) \<longrightarrow>
            (parse_dec t \<le> 10 \<and> parse_dec b \<le> 10 \<longrightarrow> detectFieldOrder e m doc = Inr ''progressive'')
          \<and> (\<not> (parse_dec t \<le> 10 \<and> parse_dec b \<le> 10) \<longrightarrow>
                (detectFieldOrder e m doc = Inr ''tff'' \<or> detectFieldOrder e m doc = Inr ''bff'')
              \<and> (parse_dec b < parse_dec t \<longrightarrow> detectFieldOrder e m doc = Inr ''tff'')
              \<and> (parse_dec t < parse_dec b \<longrightarrow> detectFieldOrder e m doc = Inr ''bff''))))"
  by (auto simp: detectFieldOrder_def Let_def)

lemma idet_50_2: "resultRegex_exec (idet_output ''50'' ''2'' ''145'') = Some (''50'', ''2'', ''145'')"
  by code_simp

lemma idet_4_0: "resultRegex_exec (idet_output ''4'' ''0'' ''193'') = Some (''4'', ''0'', ''193'')"
  by code_simp

lemma idet_counts:
  "parse_dec ''50'' = 50" "parse_dec ''2'' = 2" "parse_dec ''4'' = 4" "parse_dec ''0'' = 0"
  by code_simp+

text \<open>TFF 50 and BFF 2 give \<^verbatim>\<open>tff\<close>; TFF 4 and BFF 0 give \<^verbatim>\<open>progressive\<close>; output without
  the summary line gives \<^verbatim>\<open>unknown\<close>; so does a configuration that disables detection.\<close>

theorem field_order_classification_witness:
  "detectFieldOrder (idet_env (idet_output ''50'' ''2'' ''145'')) idet_config clip_doc = Inr ''tff''
   \<and> detectFieldOrder (idet_env (idet_output ''4'' ''0'' ''193'')) idet_config clip_doc = Inr ''progressive''
   \<and> detectFieldOrder (idet_env ''frame=  200 fps=0.0'') idet_config clip_doc = Inr ''unknown''
   \<and> detectFieldOrder sample_env (idet_config\<lparr>fieldOrder := False\<rparr>) clip_doc = Inr ''unknown''"
proof -
  have on: "fieldOrder idet_config" and off: "\<not> fieldOrder (idet_config\<lparr>fieldOrder := False\<rparr>)"
    by (simp_all add: idet_config_def)
  have run: "run_idet (idet_env out) (fieldOrderScanDuration idet_config) (mediaPath clip_doc) = Inr out" for out
    by (simp add: idet_env_def)
  have none: "resultRegex_exec ''frame=  200 fps=0.0'' = None"
    by code_simp
  have "detectFieldOrder (idet_env (idet_output ''50'' ''2'' ''145'')) idet_config clip_doc = Inr ''tff''"
    using field_order_classification [of idet_config "idet_env (idet_output ''50'' ''2'' ''145'')" clip_doc
        "idet_output ''50'' ''2'' ''145''"] on run idet_50_2 idet_counts
    by simp
  moreover
  have "detectFieldOrder (idet_env (idet_output ''4'' ''0'' ''193'')) idet_config clip_doc = Inr ''progressive''"
    using field_order_classification [of idet_config "idet_env (idet_output ''4'' ''0'' ''193'')" clip_doc
        "idet_output ''4'' ''0'' ''193''"] on run idet_4_0 idet_counts
    by simp
  moreover
  have "detectFieldOrder (idet_env ''frame=  200 fps=0.0'') idet_config clip_doc = Inr ''unknown''"
    using field_order_classification [of idet_config "idet_env ''frame=  200 fps=0.0''" clip_doc
        "''frame=  200 fps=0.0''"] on run none
    by simp
  moreover
  have "detectFieldOrder sample_env (idet_config\<lparr>fieldOrder := False\<rparr>) clip_doc = Inr ''unknown''"
    using field_order_classification [of "idet_config\<lparr>fieldOrder := False\<rparr>" sample_env clip_doc undefined] off
    by simp
  ultimately show ?thesis by simp
qed

section \<open>Properties of a scan\<close>

lemma caught_effects:
  "set (snd (snd (caught msg (r, d, es)))) \<subseteq> set es \<union> range (Log_error msg)"
  by (cases r) (auto simp: caught_def)

lemma fetch_id: "doc_id (fetch c mediaId) = mediaId"
  by (auto simp: fetch_def db_get_def placeholder_def find_Some_iff split: option.splits)

lemma generateInfo_runs_ffprobe: "Exec_ffprobe (mediaPath doc) \<in> set (snd (snd (generateInfo e doc)))"
  by (simp add: generateInfo_def Let_def split: sum.splits option.splits ffprobe_output.splits)

lemma generateInfo_path: "mediaPath (fst (snd (generateInfo e doc))) = mediaPath doc"
  by (simp add: generateInfo_def Let_def split: sum.splits option.splits ffprobe_output.splits)

lemma generateThumb_path: "mediaPath (fst (snd (generateThumb e doc))) = mediaPath doc"
  by (simp add: generateThumb_def Let_def split: sum.splits option.splits prod.splits)

text \<open>The thumbnail job settles: every callback and await of it resolves or rejects
  a promise.\<close>

lemma generateThumb_settles: "fst (generateThumb e doc) \<noteq> Uncaught err"
  by (simp add: generateThumb_def Let_def split: sum.splits option.splits prod.splits)

text \<open>The info job leaves an exception uncaught exactly when the output of ffprobe
  cannot be parsed.\<close>

lemma generateInfo_uncaught:
  "fst (generateInfo e doc) = Uncaught err \<longleftrightarrow> run_ffprobe e (mediaPath doc) = Unparseable err"
  by (simp add: generateInfo_def Let_def split: sum.splits option.splits ffprobe_output.splits)

lemma caught_parts:
  "fst (snd (caught msg r)) = fst (snd r)" "set (snd (snd r)) \<subseteq> set (snd (snd (caught msg r)))"
  by (auto simp: caught_def split: prod.splits settled.splits)

lemma caught_fst: "fst (caught msg r) = (case fst r of Uncaught err \<Rightarrow> Some err | _ \<Rightarrow> None)"
  by (auto simp: caught_def split: prod.splits settled.splits)

lemma caught_thumb: "fst (caught msg (generateThumb e doc)) = None"
  using generateThumb_settles [of e doc] by (auto simp: caught_fst split: settled.splits)

lemma and_then_parts:
  "fst (and_then r f) = (case fst r of Some err \<Rightarrow> Some err | None \<Rightarrow> fst (f (fst (snd r))))"
  "fst r = None \<Longrightarrow> fst (snd (and_then r f)) = fst (snd (f (fst (snd r))))"
  "fst r = None \<Longrightarrow> snd (snd (and_then r f)) = snd (snd r) @ snd (snd (f (fst (snd r))))"
  "fst r \<noteq> None \<Longrightarrow> snd (and_then r f) = snd r"
  by (auto simp: and_then_def split: prod.splits option.splits)

text \<open>Which exception the two jobs leave uncaught, if any.\<close>

lemma run_probes_fst:
  "fst (run_probes e doc) = (case run_ffprobe e (mediaPath doc) of Unparseable err \<Rightarrow> Some err | _ \<Rightarrow> None)"
proof -
  have info: "fst (caught msg (generateInfo e d))
      = (case run_ffprobe e (mediaPath d) of Unparseable err \<Rightarrow> Some err | _ \<Rightarrow> None)" for msg d
    by (simp add: caught_fst generateInfo_def Let_def split: sum.splits option.splits ffprobe_output.splits)
  show ?thesis
  proof (cases "thumb_stat_first e")
    case True
    then show ?thesis
      by (simp add: run_probes_def and_then_parts(1) caught_thumb info caught_parts(1) generateThumb_path)
  next
    case False
    then show ?thesis
      by (simp add: run_probes_def and_then_parts(1) caught_thumb info caught_parts(1) generateThumb_path
          split: option.splits ffprobe_output.splits)
  qed
qed

lemma run_probes_runs_ffprobe: "Exec_ffprobe (mediaPath doc) \<in> set (snd (snd (run_probes e doc)))"
proof (cases "thumb_stat_first e")
  case True
  let ?d1 = "fst (snd (generateThumb e doc))"
  have "Exec_ffprobe (mediaPath ?d1) \<in> set (snd (snd (caught ''Info Failed'' (generateInfo e ?d1))))"
    using caught_parts(2) generateInfo_runs_ffprobe by blast
  with True show ?thesis
    by (simp add: run_probes_def and_then_parts(3) caught_thumb caught_parts(1) generateThumb_path)
next
  case False
  have here: "Exec_ffprobe (mediaPath doc) \<in> set (snd (snd (caught ''Info Failed'' (generateInfo e doc))))"
    using caught_parts(2) generateInfo_runs_ffprobe by blast
  show ?thesis
  proof (cases "fst (caught ''Info Failed'' (generateInfo e doc))")
    case None
    with False here show ?thesis
      by (simp add: run_probes_def and_then_parts(3))
  next
    case (Some err)
    with False here show ?thesis
      by (simp add: run_probes_def and_then_parts(4))
  qed
qed



section \<open>Properties of the event handler\<close>

lemma scanFile_skips_collision:
  assumes "mediaPath (fetch (catalog w) mediaId) \<noteq> []" "mediaPath (fetch (catalog w) mediaId) \<noteq> path"
  shows "\<exists>es. scanFile e w path mediaId mediaStat = (Resolved, w\<lparr>effects := effects w @ es\<rparr>)
            \<and> (\<forall>x \<in> set es. \<not> is_probe x \<and> \<not> is_write x)"
proof (cases "mediaId = [] \<or> isDirectory mediaStat")
  case True
  then have "scanFile e w path mediaId mediaStat = (Resolved, w\<lparr>effects := effects w @ []\<rparr>)"
    by (simp add: scanFile_def)
  then show ?thesis by fastforce
next
  case False
  with assms have "scanFile e w path mediaId mediaStat
      = (Resolved, w\<lparr>effects := effects w @ [Db_get mediaId, Log_info ''Skipped'']\<rparr>)"
    by (simp add: scanFile_def emit_def Let_def)
  moreover have "\<forall>x \<in> set [Db_get mediaId, Log_info ''Skipped'']. \<not> is_probe x \<and> \<not> is_write x"
    by (simp add: is_probe_def is_write_def)
  ultimately show ?thesis by blast
qed

text \<open>
  Claim C5. An added or changed event whose fetched entry has a non-empty path that is
  not the path of the event is skipped: the handler ends without error, the catalog is
  the same catalog, so no field of the entry on file has changed, and the effects of the
  event contain no run of an external tool and no write to the store.
\<close>

theorem collision_is_skipped:
  assumes "mediaPath (fetch (catalog w) (getId e (paths_media e) path)) \<noteq> []"
    and "mediaPath (fetch (catalog w) (getId e (paths_media e) path)) \<noteq> path"
  shows "\<exists>es. on_event e w (path, Some mediaStat) = Inr (w\<lparr>effects := effects w @ es\<rparr>)
            \<and> (\<forall>x \<in> set es. \<not> is_probe x \<and> \<not> is_write x)"
proof -
  from scanFile_skips_collision [OF assms]
  obtain es where "scanFile e w path (getId e (paths_media e) path) mediaStat
        = (Resolved, w\<lparr>effects := effects w @ es\<rparr>)"
    and "\<forall>x \<in> set es. \<not> is_probe x \<and> \<not> is_write x"
    by blast
  then show ?thesis
    by (auto simp: on_event_def handle_body_def)
qed

text \<open>The sample clip is on file under the id \<^verbatim>\<open>CLIP\<close> with the path \<^verbatim>\<open>/media/CLIP\<close>.
  With an id function that folds every path to \<^verbatim>\<open>CLIP\<close>, an event for
  \<^verbatim>\<open>/media/other/CLIP\<close> collides with it and is skipped.\<close>

theorem collision_is_skipped_witness:
  "mediaPath (fetch (catalog clip_world)
      (getId (sample_env\<lparr>getId := (\<lambda>base p. ''CLIP'')\<rparr>)
         (paths_media (sample_env\<lparr>getId := (\<lambda>base p. ''CLIP'')\<rparr>)) ''/media/other/CLIP'')) = ''/media/CLIP''
   \<and> (\<exists>es. on_event (sample_env\<lparr>getId := (\<lambda>base p. ''CLIP'')\<rparr>) clip_world (''/media/other/CLIP'', Some grown_stat)
             = Inr (clip_world\<lparr>effects := effects clip_world @ es\<rparr>)
          \<and> (\<forall>x \<in> set es. \<not> is_probe x \<and> \<not> is_write x))"
proof -
  let ?e = "sample_env\<lparr>getId := (\<lambda>base p. ''CLIP'')\<rparr>"
  have stored: "mediaPath (fetch (catalog clip_world) (getId ?e (paths_media ?e) ''/media/other/CLIP''))
      = ''/media/CLIP''"
    by code_simp
  then have "mediaPath (fetch (catalog clip_world) (getId ?e (paths_media ?e) ''/media/other/CLIP'')) \<noteq> []"
    and "mediaPath (fetch (catalog clip_world) (getId ?e (paths_media ?e) ''/media/other/CLIP''))
      \<noteq> ''/media/other/CLIP''"
    by simp_all
  from collision_is_skipped [OF this, of grown_stat] stored show ?thesis
    by blast
qed

subsection \<open>The store after a write\<close>

lemma find_insort_new:
  "find P xs = None \<Longrightarrow> P x \<Longrightarrow> find P (insort_key f x xs) = Some x"
  by (induction xs) (auto split: if_splits)

lemma find_map_replace:
  assumes "find (\<lambda>x. doc_id x = i) c = Some y" "doc_id d = i"
  shows "find (\<lambda>x. doc_id x = i) (map (\<lambda>x. if doc_id x = i then d else x) c) = Some d"
  using assms by (induction c) (auto split: if_splits)

lemma db_get_put:
  assumes "db_put c d = Inr c'"
  shows "\<exists>r. db_get c' (doc_id d) = Inr (d\<lparr>doc_rev := r\<rparr>)"
proof (cases "find (\<lambda>x. doc_id x = doc_id d) c")
  case None
  with assms have c': "c' = insort_key doc_id (d\<lparr>doc_rev := 1\<rparr>) c"
    by (simp add: db_put_def split: if_splits)
  have "find (\<lambda>x. doc_id x = doc_id d) c' = Some (d\<lparr>doc_rev := 1\<rparr>)"
    unfolding c' using None by (intro find_insort_new) simp_all
  then show ?thesis
    by (auto simp: db_get_def)
next
  case (Some y)
  with assms have c': "c' = map (\<lambda>x. if doc_id x = doc_id d then d\<lparr>doc_rev := Suc (doc_rev d)\<rparr> else x) c"
    by (simp add: db_put_def split: if_splits)
  have "find (\<lambda>x. doc_id x = doc_id d) c' = Some (d\<lparr>doc_rev := Suc (doc_rev d)\<rparr>)"
    unfolding c' using Some by (intro find_map_replace) simp_all
  then show ?thesis
    by (auto simp: db_get_def)
qed

text \<open>A write with the id and the revision that were fetched is accepted.\<close>

lemma db_put_fetched:
  assumes "doc_id d = mediaId" "doc_rev d = doc_rev (fetch c mediaId)"
  shows "\<exists>c'. db_put c d = Inr c'"
  using assms
  by (auto simp: db_put_def fetch_def db_get_def placeholder_def split: option.splits)

subsection \<open>What the probes leave alone\<close>

lemma generateThumb_keeps:
  "doc_id (fst (snd (generateThumb e d))) = doc_id d"
  "doc_rev (fst (snd (generateThumb e d))) = doc_rev d"
  "cinf (fst (snd (generateThumb e d))) = cinf d"
  "mediainfo (fst (snd (generateThumb e d))) = mediainfo d"
  by (simp_all add: generateThumb_def Let_def split: sum.splits option.splits prod.splits)

lemma generateInfo_keeps:
  "doc_id (fst (snd (generateInfo e d))) = doc_id d"
  "doc_rev (fst (snd (generateInfo e d))) = doc_rev d"
  "thumbSize (fst (snd (generateInfo e d))) = thumbSize d"
  "thumbTime (fst (snd (generateInfo e d))) = thumbTime d"
  "tinf (fst (snd (generateInfo e d))) = tinf d"
  "attachment (fst (snd (generateInfo e d))) = attachment d"
  by (simp_all add: generateInfo_def Let_def split: sum.splits option.splits ffprobe_output.splits)

text \<open>When no exception stays uncaught, the two jobs have run one after the other on
  the document, and each rejection has been logged.\<close>

lemma run_probes_settled:
  assumes "fst (run_probes e d) = None"
  shows "run_probes e d =
     (if thumb_stat_first e then
        (None, fst (snd (generateInfo e (fst (snd (generateThumb e d))))),
         snd (snd (caught ''Thumbnail Failed'' (generateThumb e d)))
           @ snd (snd (caught ''Info Failed'' (generateInfo e (fst (snd (generateThumb e d)))))))
      else
        (None, fst (snd (generateThumb e (fst (snd (generateInfo e d))))),
         snd (snd (caught ''Info Failed'' (generateInfo e d)))
           @ snd (snd (caught ''Thumbnail Failed'' (generateThumb e (fst (snd (generateInfo e d))))))))"
proof (cases "thumb_stat_first e")
  case True
  have "run_probes e d = (fst (run_probes e d), fst (snd (run_probes e d)), snd (snd (run_probes e d)))"
    by simp
  also have "fst (snd (run_probes e d)) = fst (snd (generateInfo e (fst (snd (generateThumb e d)))))"
    using True by (simp add: run_probes_def and_then_parts(2) caught_thumb caught_parts(1))
  also have "snd (snd (run_probes e d)) = snd (snd (caught ''Thumbnail Failed'' (generateThumb e d)))
           @ snd (snd (caught ''Info Failed'' (generateInfo e (fst (snd (generateThumb e d))))))"
    using True by (simp add: run_probes_def and_then_parts(3) caught_thumb caught_parts(1))
  finally show ?thesis
    using True assms by simp
next
  case False
  with assms have info: "fst (caught ''Info Failed'' (generateInfo e d)) = None"
    by (simp add: run_probes_def and_then_parts(1) split: option.splits)
  have "run_probes e d = (fst (run_probes e d), fst (snd (run_probes e d)), snd (snd (run_probes e d)))"
    by simp
  also have "fst (snd (run_probes e d)) = fst (snd (generateThumb e (fst (snd (generateInfo e d)))))"
    using False info by (simp add: run_probes_def and_then_parts(2) caught_parts(1))
  also have "snd (snd (run_probes e d)) = snd (snd (caught ''Info Failed'' (generateInfo e d)))
           @ snd (snd (caught ''Thumbnail Failed'' (generateThumb e (fst (snd (generateInfo e d))))))"
    using False info by (simp add: run_probes_def and_then_parts(3) caught_parts(1))
  finally show ?thesis
    using False assms by simp
qed

lemma run_probes_keeps:
  assumes "fst (run_probes e d) = None"
  shows "doc_id (fst (snd (run_probes e d))) = doc_id d" "doc_rev (fst (snd (run_probes e d))) = doc_rev d"
    "mediaPath (fst (snd (run_probes e d))) = mediaPath d"
  unfolding run_probes_settled [OF assms]
  by (simp_all add: generateThumb_keeps generateInfo_keeps generateThumb_path generateInfo_path)

lemma generateThumb_effects: "set (snd (snd (generateThumb e d))) \<subseteq> range Exec_thumb"
  by (auto simp: generateThumb_def Let_def split: sum.splits option.splits prod.splits)

lemma generateInfo_effects: "set (snd (snd (generateInfo e d))) \<subseteq> range Exec_ffprobe \<union> range Exec_idet"
  by (auto simp: generateInfo_def Let_def idet_effects_def
      split: sum.splits option.splits if_splits ffprobe_output.splits)

lemma caught_no_write:
  assumes "set (snd (snd r)) \<subseteq> range Exec_thumb \<union> range Exec_ffprobe \<union> range Exec_idet"
  shows "filter is_write (snd (snd (caught msg r))) = []"
proof -
  obtain a d es where r: "r = (a, d, es)" by (cases r)
  have "set (snd (snd (caught msg r))) \<subseteq> set es \<union> range (Log_error msg)"
    unfolding r by (rule caught_effects)
  moreover have "\<not> is_write x" if "x \<in> set es \<union> range (Log_error msg)" for x
    using that assms r by (auto simp: is_write_def)
  ultimately have "\<forall>x \<in> set (snd (snd (caught msg r))). \<not> is_write x"
    by blast
  then show ?thesis
    by (simp add: filter_empty_conv)
qed

lemma run_probes_no_write:
  assumes "fst (run_probes e d) = None"
  shows "filter is_write (snd (snd (run_probes e d))) = []"
proof -
  have t: "filter is_write (snd (snd (caught msg (generateThumb e x)))) = []" for x msg
    using generateThumb_effects [of e x] by (intro caught_no_write) auto
  have i: "filter is_write (snd (snd (caught msg (generateInfo e x)))) = []" for x msg
    using generateInfo_effects [of e x] by (intro caught_no_write) auto
  show ?thesis
    unfolding run_probes_settled [OF assms] by (simp add: t i)
qed

text \<open>A scan that gets as far as the probes, and whose probes leave no exception
  uncaught, resolves with one write: the document that the probes leave, stored in the
  catalog. The handler of the event returns with that state.\<close>

lemma scanFile_proceeds:
  assumes "scan_proceeds w path mediaId mediaStat"
    and "run_probes e (with_stat (fetch (catalog w) mediaId) path mediaStat) = (None, d2, es)"
  shows "\<exists>c' r. scanFile e w path mediaId mediaStat
          = (Resolved, \<lparr>catalog = c', effects = effects w @ Db_get mediaId # es @ [Db_put d2, Log_info ''Scanned'']\<rparr>)
      \<and> filter is_write (Db_get mediaId # es @ [Db_put d2, Log_info ''Scanned'']) = [Db_put d2]
      \<and> db_get c' mediaId = Inr (d2\<lparr>doc_rev := r\<rparr>)"
proof -
  let ?d = "with_stat (fetch (catalog w) mediaId) path mediaStat"
  have settled: "fst (run_probes e ?d) = None" and d2: "d2 = fst (snd (run_probes e ?d))"
    and es: "es = snd (snd (run_probes e ?d))"
    using assms(2) by simp_all
  have id: "doc_id d2 = mediaId" and rev: "doc_rev d2 = doc_rev (fetch (catalog w) mediaId)"
    unfolding d2 using run_probes_keeps [OF settled] by (simp_all add: with_stat_def fetch_id)
  from db_put_fetched [OF id rev] obtain c' where put: "db_put (catalog w) d2 = Inr c'"
    by blast
  from db_get_put [OF put] id obtain r where get: "db_get c' mediaId = Inr (d2\<lparr>doc_rev := r\<rparr>)"
    by auto
  from assms(1) have go: "\<not> (mediaId = [] \<or> isDirectory mediaStat)"
    "\<not> (mediaPath (fetch (catalog w) mediaId) \<noteq> [] \<and> mediaPath (fetch (catalog w) mediaId) \<noteq> path)"
    "\<not> (mediaSize (fetch (catalog w) mediaId) = st_size mediaStat
        \<and> mediaTime (fetch (catalog w) mediaId) = st_mtime mediaStat)"
    by (auto simp: scan_proceeds_def)
  have "scanFile e w path mediaId mediaStat
      = (Resolved, \<lparr>catalog = c', effects = effects w @ Db_get mediaId # es @ [Db_put d2, Log_info ''Scanned'']\<rparr>)"
    unfolding scanFile_def Let_def if_not_P [OF go(1)] if_not_P [OF go(2)] if_not_P [OF go(3)]
    using assms(2) by (simp add: emit_def put with_stat_def)
  moreover have "filter is_write (Db_get mediaId # es @ [Db_put d2, Log_info ''Scanned'']) = [Db_put d2]"
    unfolding es by (simp add: run_probes_no_write [OF settled] is_write_def)
  ultimately show ?thesis
    using get by blast
qed

lemma on_event_proceeds:
  assumes "scan_proceeds w path (getId e (paths_media e) path) mediaStat"
    and "run_probes e (with_stat (fetch (catalog w) (getId e (paths_media e) path)) path mediaStat) = (None, d2, es)"
  shows "\<exists>es' c' r. on_event e w (path, Some mediaStat) = Inr \<lparr>catalog = c', effects = effects w @ es'\<rparr>
      \<and> filter is_write es' = [Db_put d2] \<and> set es \<subseteq> set es'
      \<and> db_get c' (getId e (paths_media e) path) = Inr (d2\<lparr>doc_rev := r\<rparr>)"
proof -
  let ?id = "getId e (paths_media e) path"
  from scanFile_proceeds [OF assms] obtain c' r where
    scan: "scanFile e w path ?id mediaStat
          = (Resolved, \<lparr>catalog = c', effects = effects w @ Db_get ?id # es @ [Db_put d2, Log_info ''Scanned'']\<rparr>)"
    and wr: "filter is_write (Db_get ?id # es @ [Db_put d2, Log_info ''Scanned'']) = [Db_put d2]"
    and get: "db_get c' ?id = Inr (d2\<lparr>doc_rev := r\<rparr>)"
    by blast
  from scan have "on_event e w (path, Some mediaStat)
      = Inr \<lparr>catalog = c', effects = effects w @ Db_get ?id # es @ [Db_put d2, Log_info ''Scanned'']\<rparr>"
    by (simp add: on_event_def handle_body_def)
  moreover have "set es \<subseteq> set (Db_get ?id # es @ [Db_put d2, Log_info ''Scanned''])"
    by auto
  ultimately show ?thesis
    using wr get by blast
qed

subsection \<open>One probe fails\<close>

lemma thumb_success:
  assumes "thumb_succeeds_with e (mediaPath x) sz mt data"
  shows "generateThumb e x
    = (Resolved,
       x\<lparr>thumbSize := Some sz, thumbTime := Some mt,
         tinf := Some (join_sp [dquote (getId e (paths_media e) (mediaPath x)),
                                moment_format True (utcOffset e) mt, show_int sz] @ CRLF),
         attachment := Some data\<rparr>,
       [Exec_thumb (mediaPath x)])"
  using assms by (simp add: generateThumb_def thumb_succeeds_with_def)

lemma thumb_failure:
  assumes "thumb_fails_early e (mediaPath x)"
  shows "\<exists>err es. generateThumb e x = (Rejected err, x, es)"
  using assms
  by (auto simp: generateThumb_def thumb_fails_early_def isl_def Let_def split: option.splits sum.splits)

lemma info_rejects_at_ffprobe:
  assumes "ffprobe_rejection e (mediaPath x) = Some err"
  shows "generateInfo e x = (Rejected err, x, [Exec_ffprobe (mediaPath x)])"
  using assms
  by (auto simp: generateInfo_def ffprobe_rejection_def split: ffprobe_output.splits if_splits)

lemma info_rejects_at_field_order:
  assumes "run_ffprobe e (mediaPath x) = Parsed json" "streams json \<noteq> []"
    and "generateCinf e x json = Inr c"
    and "metadata e = Some m" "fieldOrder m"
    and "run_idet e (fieldOrderScanDuration m) (mediaPath x) = Inl err"
  shows "generateInfo e x = (Rejected err, x\<lparr>cinf := Some c\<rparr>, [Exec_ffprobe (mediaPath x), Exec_idet (mediaPath x)])"
  using assms
  by (simp add: generateInfo_def generateMediainfo_def detectFieldOrder_def idet_effects_def)

lemma info_builds_cinf:
  assumes "run_ffprobe e (mediaPath x) = Parsed json" "streams json \<noteq> []"
    and "generateCinf e x json = Inr c"
  shows "fst (generateInfo e x) \<noteq> Uncaught err" "cinf (fst (snd (generateInfo e x))) = Some c"
  using assms by (simp_all add: generateInfo_def Let_def split: option.splits sum.splits)

text \<open>The CINF record reads three fields of the document.\<close>

lemma generateCinf_reads:
  assumes "mediaPath d1 = mediaPath d2" "mediaSize d1 = mediaSize d2" "thumbTime d1 = thumbTime d2"
  shows "generateCinf e d1 json = generateCinf e d2 json"
  by (simp only: generateCinf_def assms)

lemma with_stat_fields:
  "mediaPath (with_stat d path st) = path" "mediaSize (with_stat d path st) = st_size st"
  "mediaTime (with_stat d path st) = st_mtime st" "thumbTime (with_stat d path st) = thumbTime d"
  by (simp_all add: with_stat_def)

lemma probes_ffprobe_rejects:
  assumes "ffprobe_rejection e (mediaPath x) = Some err" "thumb_succeeds_with e (mediaPath x) sz mt data"
  shows "\<exists>es. run_probes e x
    = (None,
       x\<lparr>thumbSize := Some sz, thumbTime := Some mt,
         tinf := Some (join_sp [dquote (getId e (paths_media e) (mediaPath x)),
                                moment_format True (utcOffset e) mt, show_int sz] @ CRLF),
         attachment := Some data\<rparr>,
       es)
    \<and> Log_error ''Info Failed'' err \<in> set es"
proof (cases "thumb_stat_first e")
  case True
  let ?x1 = "x\<lparr>thumbSize := Some sz, thumbTime := Some mt,
         tinf := Some (join_sp [dquote (getId e (paths_media e) (mediaPath x)),
                                moment_format True (utcOffset e) mt, show_int sz] @ CRLF),
         attachment := Some data\<rparr>"
  have "mediaPath ?x1 = mediaPath x"
    by simp
  with assms(1) have "generateInfo e ?x1 = (Rejected err, ?x1, [Exec_ffprobe (mediaPath x)])"
    using info_rejects_at_ffprobe [of e ?x1 err] by simp
  with True show ?thesis
    by (simp add: run_probes_def and_then_def caught_def thumb_success [OF assms(2)])
next
  case False
  then show ?thesis
    using assms(2)
    by (simp add: run_probes_def and_then_def caught_def info_rejects_at_ffprobe [OF assms(1)] thumb_success)
qed

lemma probes_field_order_rejects:
  assumes "run_ffprobe e (mediaPath x) = Parsed json" "streams json \<noteq> []"
    and "metadata e = Some m" "fieldOrder m"
    and "run_idet e (fieldOrderScanDuration m) (mediaPath x) = Inl err"
    and "thumb_succeeds_with e (mediaPath x) sz mt data"
    and "generateCinf e (x\<lparr>thumbTime := (if thumb_stat_first e then Some mt else thumbTime x)\<rparr>) json = Inr c"
  shows "\<exists>es. run_probes e x
    = (None,
       x\<lparr>thumbSize := Some sz, thumbTime := Some mt,
         tinf := Some (join_sp [dquote (getId e (paths_media e) (mediaPath x)),
                                moment_format True (utcOffset e) mt, show_int sz] @ CRLF),
         attachment := Some data, cinf := Some c\<rparr>,
       es)
    \<and> Log_error ''Info Failed'' err \<in> set es"
proof (cases "thumb_stat_first e")
  case True
  let ?x1 = "x\<lparr>thumbSize := Some sz, thumbTime := Some mt,
         tinf := Some (join_sp [dquote (getId e (paths_media e) (mediaPath x)),
                                moment_format True (utcOffset e) mt, show_int sz] @ CRLF),
         attachment := Some data\<rparr>"
  have "generateCinf e ?x1 json = generateCinf e (x\<lparr>thumbTime := Some mt\<rparr>) json"
    by (rule generateCinf_reads) simp_all
  with assms(7) True have "generateCinf e ?x1 json = Inr c"
    by simp
  then have "generateInfo e ?x1
      = (Rejected err, ?x1\<lparr>cinf := Some c\<rparr>, [Exec_ffprobe (mediaPath ?x1), Exec_idet (mediaPath ?x1)])"
    using assms(1-5) by (intro info_rejects_at_field_order) simp_all
  with True show ?thesis
    by (simp add: run_probes_def and_then_def caught_def thumb_success [OF assms(6)])
next
  case False
  with assms(7) have "generateCinf e x json = Inr c"
    by simp
  from info_rejects_at_field_order [OF assms(1,2) this assms(3-5)] False assms(6) show ?thesis
    by (simp add: run_probes_def and_then_def caught_def thumb_success)
qed

lemma probes_thumb_fails:
  assumes "thumb_fails_early e (mediaPath x)"
    and "run_ffprobe e (mediaPath x) = Parsed json" "streams json \<noteq> []" "generateCinf e x json = Inr c"
  shows "\<exists>d es err. run_probes e x = (None, d, es)
    \<and> cinf d = Some c \<and> thumbSize d = thumbSize x \<and> thumbTime d = thumbTime x \<and> tinf d = tinf x
    \<and> attachment d = attachment x
    \<and> Log_error ''Thumbnail Failed'' err \<in> set es"
proof -
  let ?i = "fst (snd (generateInfo e x))"
  have path: "mediaPath ?i = mediaPath x"
    by (rule generateInfo_path)
  from thumb_failure [OF assms(1)] obtain terr tes where thumb: "generateThumb e x = (Rejected terr, x, tes)"
    by blast
  from thumb_failure [of e ?i] assms(1) path obtain terr' tes'
    where thumb': "generateThumb e ?i = (Rejected terr', ?i, tes')"
    by auto
  have info: "fst (caught ''Info Failed'' (generateInfo e x)) = None"
    using info_builds_cinf(1) [OF assms(2-4)] by (auto simp: caught_fst split: settled.splits)
  have fields: "cinf ?i = Some c" "thumbSize ?i = thumbSize x" "thumbTime ?i = thumbTime x" "tinf ?i = tinf x"
    "attachment ?i = attachment x"
    by (simp_all add: info_builds_cinf(2) [OF assms(2-4)] generateInfo_keeps)
  show ?thesis
  proof (cases "thumb_stat_first e")
    case True
    have "run_probes e x = (None, ?i, tes @ [Log_error ''Thumbnail Failed'' terr]
        @ snd (snd (caught ''Info Failed'' (generateInfo e x))))"
      using True info thumb
      by (simp add: run_probes_def and_then_def caught_def split: prod.splits settled.splits)
    with fields show ?thesis
      by auto
  next
    case False
    have "run_probes e x = (None, ?i, snd (snd (caught ''Info Failed'' (generateInfo e x)))
        @ tes' @ [Log_error ''Thumbnail Failed'' terr'])"
      using False info thumb'
      by (auto simp: run_probes_def and_then_def caught_def split: prod.splits settled.splits)
    with fields show ?thesis
      by auto
  qed
qed

lemma probes_settle:
  assumes "\<forall>err. run_ffprobe e (mediaPath x) \<noteq> Unparseable err"
  shows "\<exists>d es. run_probes e x = (None, d, es) \<and> mediaPath d = mediaPath x \<and> mediaSize d = mediaSize x
      \<and> mediaTime d = mediaTime x"
proof -
  have none: "fst (run_probes e x) = None"
    using assms by (simp add: run_probes_fst split: ffprobe_output.splits)
  have t: "mediaSize (fst (snd (generateThumb e y))) = mediaSize y"
    "mediaTime (fst (snd (generateThumb e y))) = mediaTime y" for y
    by (simp_all add: generateThumb_def Let_def split: sum.splits option.splits prod.splits)
  have i: "mediaSize (fst (snd (generateInfo e y))) = mediaSize y"
    "mediaTime (fst (snd (generateInfo e y))) = mediaTime y" for y
    by (simp_all add: generateInfo_def Let_def split: sum.splits option.splits ffprobe_output.splits)
  have "mediaPath (fst (snd (run_probes e x))) = mediaPath x"
    "mediaSize (fst (snd (run_probes e x))) = mediaSize x"
    "mediaTime (fst (snd (run_probes e x))) = mediaTime x"
    unfolding run_probes_settled [OF none]
    by (simp_all add: t i generateThumb_path generateInfo_path)
  with none show ?thesis
    by (cases "run_probes e x") auto
qed

text \<open>
  Claim C6, as the code has it. In a scan that gets as far as the probes, on a host
  whose ffprobe fails or prints output that can be parsed, the handler of the event
  returns, and its one write carries the path, size and time of the event; the catalog
  then holds that document. In particular:

  \<^item> When ffprobe fails or prints no stream and the thumbnail is made, the written
    document is the fetched entry with the stat fields of the event and the thumbnail
    fields (size, time, TINF, attachment) of this run; its CINF and metadata are those of
    the fetched entry; the failure is logged under \<^verbatim>\<open>Info Failed\<close>.

  \<^item> When ffprobe answers and the CINF record is built, but the interlace detection
    that follows fails, the info job fails as well, and is logged; the written document
    then carries the CINF record of this run, with the thumbnail fields of this run.

  \<^item> When the thumbnail fails before its file is statted and ffprobe answers with
    streams from which a CINF record is built, ffprobe has run, the failure is logged
    under \<^verbatim>\<open>Thumbnail Failed\<close>, and the written document carries that record and the
    thumbnail fields of the fetched entry.
\<close>

theorem partial_failure_still_writes:
  assumes "mediaId = getId e (paths_media e) path"
    and "doc = fetch (catalog w) mediaId"
    and "scan_proceeds w path mediaId mediaStat"
  shows
    "((\<forall>err. run_ffprobe e path \<noteq> Unparseable err) \<longrightarrow>
        (\<exists>es c' d r. on_event e w (path, Some mediaStat) = Inr \<lparr>catalog = c', effects = effects w @ es\<rparr>
           \<and> filter is_write es = [Db_put d]
           \<and> mediaPath d = path \<and> mediaSize d = st_size mediaStat \<and> mediaTime d = st_mtime mediaStat
           \<and> db_get c' mediaId = Inr (d\<lparr>doc_rev := r\<rparr>)))
     \<and> (ffprobe_rejection e path = Some err \<and> thumb_succeeds_with e path sz mt data \<longrightarrow>
        (\<exists>es c' d r. on_event e w (path, Some mediaStat) = Inr \<lparr>catalog = c', effects = effects w @ es\<rparr>
           \<and> filter is_write es = [Db_put d]
           \<and> d = doc\<lparr>mediaPath := path, mediaSize := st_size mediaStat, mediaTime := st_mtime mediaStat,
                     thumbSize := Some sz, thumbTime := Some mt,
                     tinf := Some (join_sp [dquote mediaId, moment_format True (utcOffset e) mt, show_int sz]
                                   @ CRLF),
                     attachment := Some data\<rparr>
           \<and> cinf d = cinf doc \<and> mediainfo d = mediainfo doc
           \<and> Log_error ''Info Failed'' err \<in> set es
           \<and> db_get c' mediaId = Inr (d\<lparr>doc_rev := r\<rparr>)))
     \<and> (run_ffprobe e path = Parsed json \<and> streams json \<noteq> []
          \<and> metadata e = Some m \<and> fieldOrder m \<and> run_idet e (fieldOrderScanDuration m) path = Inl ierr
          \<and> thumb_succeeds_with e path sz mt data
          \<and> generateCinf e
               (doc\<lparr>mediaPath := path, mediaSize := st_size mediaStat, mediaTime := st_mtime mediaStat,
                    thumbTime := (if thumb_stat_first e then Some mt else thumbTime doc)\<rparr>) json = Inr c \<longrightarrow>
        (\<exists>es c' d r. on_event e w (path, Some mediaStat) = Inr \<lparr>catalog = c', effects = effects w @ es\<rparr>
           \<and> filter is_write es = [Db_put d]
           \<and> d = doc\<lparr>mediaPath := path, mediaSize := st_size mediaStat, mediaTime := st_mtime mediaStat,
                     thumbSize := Some sz, thumbTime := Some mt,
                     tinf := Some (join_sp [dquote mediaId, moment_format True (utcOffset e) mt, show_int sz]
                                   @ CRLF),
                     attachment := Some data, cinf := Some c\<rparr>
           \<and> mediainfo d = mediainfo doc
           \<and> Log_error ''Info Failed'' ierr \<in> set es
           \<and> db_get c' mediaId = Inr (d\<lparr>doc_rev := r\<rparr>)))
     \<and> (thumb_fails_early e path \<and> run_ffprobe e path = Parsed json \<and> streams json \<noteq> []
          \<and> generateCinf e
               (doc\<lparr>mediaPath := path, mediaSize := st_size mediaStat, mediaTime := st_mtime mediaStat\<rparr>) json
             = Inr c \<longrightarrow>
        (\<exists>es c' d r terr. on_event e w (path, Some mediaStat) = Inr \<lparr>catalog = c', effects = effects w @ es\<rparr>
           \<and> filter is_write es = [Db_put d]
           \<and> Exec_ffprobe path \<in> set es \<and> Log_error ''Thumbnail Failed'' terr \<in> set es
           \<and> mediaPath d = path \<and> mediaSize d = st_size mediaStat \<and> mediaTime d = st_mtime mediaStat
           \<and> cinf d = Some c
           \<and> thumbSize d = thumbSize doc \<and> thumbTime d = thumbTime doc \<and> tinf d = tinf doc
           \<and> attachment d = attachment doc
           \<and> db_get c' mediaId = Inr (d\<lparr>doc_rev := r\<rparr>)))"
proof (intro conjI impI)
  let ?x = "with_stat doc path mediaStat"
  have x: "mediaPath ?x = path" "mediaSize ?x = st_size mediaStat" "mediaTime ?x = st_mtime mediaStat"
    by (simp_all add: with_stat_def)
  note go = assms(3) [unfolded assms(1)]
  have handler: "\<exists>es' c' r. on_event e w (path, Some mediaStat) = Inr \<lparr>catalog = c', effects = effects w @ es'\<rparr>
      \<and> filter is_write es' = [Db_put d2] \<and> set es \<subseteq> set es'
      \<and> db_get c' mediaId = Inr (d2\<lparr>doc_rev := r\<rparr>)"
    if "run_probes e ?x = (None, d2, es)" for d2 es
    using on_event_proceeds [OF go, of d2 es] that unfolding assms(1,2) by simp
  {
    assume "\<forall>err. run_ffprobe e path \<noteq> Unparseable err"
    with probes_settle [of e ?x] x obtain d es where "run_probes e ?x = (None, d, es)"
      and "mediaPath d = path" "mediaSize d = st_size mediaStat" "mediaTime d = st_mtime mediaStat"
      by auto
    with handler [of d es]
    show "\<exists>es c' d r. on_event e w (path, Some mediaStat) = Inr \<lparr>catalog = c', effects = effects w @ es\<rparr>
           \<and> filter is_write es = [Db_put d]
           \<and> mediaPath d = path \<and> mediaSize d = st_size mediaStat \<and> mediaTime d = st_mtime mediaStat
           \<and> db_get c' mediaId = Inr (d\<lparr>doc_rev := r\<rparr>)"
      by blast
  }
  {
    let ?d = "doc\<lparr>mediaPath := path, mediaSize := st_size mediaStat, mediaTime := st_mtime mediaStat,
                     thumbSize := Some sz, thumbTime := Some mt,
                     tinf := Some (join_sp [dquote mediaId, moment_format True (utcOffset e) mt, show_int sz]
                                   @ CRLF),
                     attachment := Some data\<rparr>"
    assume "ffprobe_rejection e path = Some err \<and> thumb_succeeds_with e path sz mt data"
    with probes_ffprobe_rejects [of e ?x err sz mt data] x
    obtain es where probes: "run_probes e ?x = (None, ?d, es)" and logged: "Log_error ''Info Failed'' err \<in> set es"
      unfolding assms(1) by (auto simp: with_stat_def)
    from handler [OF probes] logged
    have "\<exists>es c' r. on_event e w (path, Some mediaStat) = Inr \<lparr>catalog = c', effects = effects w @ es\<rparr>
           \<and> filter is_write es = [Db_put ?d] \<and> Log_error ''Info Failed'' err \<in> set es
           \<and> db_get c' mediaId = Inr (?d\<lparr>doc_rev := r\<rparr>)"
      by blast
    moreover have "cinf ?d = cinf doc" "mediainfo ?d = mediainfo doc"
      by simp_all
    ultimately
    show "\<exists>es c' d r. on_event e w (path, Some mediaStat) = Inr \<lparr>catalog = c', effects = effects w @ es\<rparr>
           \<and> filter is_write es = [Db_put d]
           \<and> d = ?d
           \<and> cinf d = cinf doc \<and> mediainfo d = mediainfo doc
           \<and> Log_error ''Info Failed'' err \<in> set es
           \<and> db_get c' mediaId = Inr (d\<lparr>doc_rev := r\<rparr>)"
      by blast
  }
  {
    let ?d = "doc\<lparr>mediaPath := path, mediaSize := st_size mediaStat, mediaTime := st_mtime mediaStat,
                     thumbSize := Some sz, thumbTime := Some mt,
                     tinf := Some (join_sp [dquote mediaId, moment_format True (utcOffset e) mt, show_int sz]
                                   @ CRLF),
                     attachment := Some data, cinf := Some c\<rparr>"
    assume b: "run_ffprobe e path = Parsed json \<and> streams json \<noteq> []
          \<and> metadata e = Some m \<and> fieldOrder m \<and> run_idet e (fieldOrderScanDuration m) path = Inl ierr
          \<and> thumb_succeeds_with e path sz mt data
          \<and> generateCinf e
               (doc\<lparr>mediaPath := path, mediaSize := st_size mediaStat, mediaTime := st_mtime mediaStat,
                    thumbTime := (if thumb_stat_first e then Some mt else thumbTime doc)\<rparr>) json = Inr c"
    have "generateCinf e (?x\<lparr>thumbTime := (if thumb_stat_first e then Some mt else thumbTime ?x)\<rparr>) json
        = generateCinf e
               (doc\<lparr>mediaPath := path, mediaSize := st_size mediaStat, mediaTime := st_mtime mediaStat,
                    thumbTime := (if thumb_stat_first e then Some mt else thumbTime doc)\<rparr>) json"
      by (rule generateCinf_reads) (simp_all add: with_stat_def)
    with b have "generateCinf e (?x\<lparr>thumbTime := (if thumb_stat_first e then Some mt else thumbTime ?x)\<rparr>) json
        = Inr c"
      by simp
    with probes_field_order_rejects [of e ?x json m ierr sz mt data c] b x
    obtain es where probes: "run_probes e ?x = (None, ?d, es)" and logged: "Log_error ''Info Failed'' ierr \<in> set es"
      unfolding assms(1) by (auto simp: with_stat_def)
    from handler [OF probes] logged
    have "\<exists>es c' r. on_event e w (path, Some mediaStat) = Inr \<lparr>catalog = c', effects = effects w @ es\<rparr>
           \<and> filter is_write es = [Db_put ?d] \<and> Log_error ''Info Failed'' ierr \<in> set es
           \<and> db_get c' mediaId = Inr (?d\<lparr>doc_rev := r\<rparr>)"
      by blast
    moreover have "mediainfo ?d = mediainfo doc"
      by simp
    ultimately
    show "\<exists>es c' d r. on_event e w (path, Some mediaStat) = Inr \<lparr>catalog = c', effects = effects w @ es\<rparr>
           \<and> filter is_write es = [Db_put d]
           \<and> d = ?d
           \<and> mediainfo d = mediainfo doc
           \<and> Log_error ''Info Failed'' ierr \<in> set es
           \<and> db_get c' mediaId = Inr (d\<lparr>doc_rev := r\<rparr>)"
      by blast
  }
  {
    assume c: "thumb_fails_early e path \<and> run_ffprobe e path = Parsed json \<and> streams json \<noteq> []
          \<and> generateCinf e
               (doc\<lparr>mediaPath := path, mediaSize := st_size mediaStat, mediaTime := st_mtime mediaStat\<rparr>) json
             = Inr c"
    then have cinf: "generateCinf e ?x json = Inr c"
      by (simp add: with_stat_def)
    from probes_thumb_fails [of e ?x json c] c cinf x
    obtain d es terr where probes: "run_probes e ?x = (None, d, es)"
      and fields: "cinf d = Some c" "thumbSize d = thumbSize doc" "thumbTime d = thumbTime doc"
        "tinf d = tinf doc" "attachment d = attachment doc"
      and logged: "Log_error ''Thumbnail Failed'' terr \<in> set es"
      by (auto simp: with_stat_def)
    from c have "\<forall>err. run_ffprobe e (mediaPath ?x) \<noteq> Unparseable err"
      by (simp add: x)
    from probes_settle [OF this] probes x
    have stat: "mediaPath d = path" "mediaSize d = st_size mediaStat" "mediaTime d = st_mtime mediaStat"
      by simp_all
    have ran: "Exec_ffprobe path \<in> set es"
      using run_probes_runs_ffprobe [of ?x e] probes x by simp
    from handler [OF probes] obtain es' c' r where
      "on_event e w (path, Some mediaStat) = Inr \<lparr>catalog = c', effects = effects w @ es'\<rparr>"
      "filter is_write es' = [Db_put d]" "set es \<subseteq> set es'" "db_get c' mediaId = Inr (d\<lparr>doc_rev := r\<rparr>)"
      by blast
    with fields stat logged ran
    show "\<exists>es c' d r terr. on_event e w (path, Some mediaStat) = Inr \<lparr>catalog = c', effects = effects w @ es\<rparr>
           \<and> filter is_write es = [Db_put d]
           \<and> Exec_ffprobe path \<in> set es \<and> Log_error ''Thumbnail Failed'' terr \<in> set es
           \<and> mediaPath d = path \<and> mediaSize d = st_size mediaStat \<and> mediaTime d = st_mtime mediaStat
           \<and> cinf d = Some c
           \<and> thumbSize d = thumbSize doc \<and> thumbTime d = thumbTime doc \<and> tinf d = tinf doc
           \<and> attachment d = attachment doc
           \<and> db_get c' mediaId = Inr (d\<lparr>doc_rev := r\<rparr>)"
      by blast
  }
qed

lemma clip_ids:
  "''CLIP'' = getId broken_probe_env (paths_media broken_probe_env) ''/media/CLIP''"
  "''CLIP'' = getId broken_idet_env (paths_media broken_idet_env) ''/media/CLIP''"
  "''CLIP'' = getId broken_thumb_env (paths_media broken_thumb_env) ''/media/CLIP''"
  by code_simp+

lemma clip_fetched: "clip_doc = fetch (catalog clip_world) ''CLIP''"
  by (simp add: fetch_def db_get_def clip_world_def clip_doc_def)

lemma clip_grown: "scan_proceeds clip_world ''/media/CLIP'' ''CLIP'' grown_stat"
  by code_simp

lemma grown_values: "st_size grown_stat = 2000" "st_mtime grown_stat = 60000"
  by (simp_all add: grown_stat_def)

lemma clip_tinf:
  "join_sp [dquote ''CLIP'', moment_format True (utcOffset broken_probe_env) 0, show_int 2048] @ CRLF
     = dquote ''CLIP'' @ '' 19700101T000000 2048'' @ CRLF"
  "join_sp [dquote ''CLIP'', moment_format True (utcOffset broken_idet_env) 0, show_int 2048] @ CRLF
     = dquote ''CLIP'' @ '' 19700101T000000 2048'' @ CRLF"
  by code_simp+

lemma clip_cinf:
  "generateCinf broken_idet_env
     (clip_doc\<lparr>mediaPath := ''/media/CLIP'', mediaSize := st_size grown_stat, mediaTime := st_mtime grown_stat,
        thumbTime := (if thumb_stat_first broken_idet_env then Some 0 else thumbTime clip_doc)\<rparr>) clip_probe
     = Inr (dquote ''CLIP'' @ ''  MOVIE  2000 19700101000000 50 1/25'' @ CRLF)"
  "generateCinf broken_thumb_env
     (clip_doc\<lparr>mediaPath := ''/media/CLIP'', mediaSize := st_size grown_stat, mediaTime := st_mtime grown_stat\<rparr>)
     clip_probe
     = Inr (dquote ''CLIP'' @ ''  MOVIE  2000 19700101000000 50 1/25'' @ CRLF)"
  by code_simp+

text \<open>
  The sample clip has grown to 2000 bytes. With ffprobe broken and the thumbnail made,
  the write carries the new stat and thumbnail fields and the CINF on file (none), and
  the failure is logged. With the interlace detection broken, the write carries the new
  CINF. With the thumbnail tool broken and ffprobe answering, the write carries the new
  CINF and the thumbnail size on file.
\<close>

theorem partial_failure_still_writes_witness:
  "''CLIP'' = getId broken_probe_env (paths_media broken_probe_env) ''/media/CLIP''
   \<and> clip_doc = fetch (catalog clip_world) ''CLIP''
   \<and> scan_proceeds clip_world ''/media/CLIP'' ''CLIP'' grown_stat
   \<and> ffprobe_rejection broken_probe_env ''/media/CLIP'' = Some (ExecError ''ffprobe'')
   \<and> thumb_succeeds_with broken_probe_env ''/media/CLIP'' 2048 0 ''PNG''
   \<and> (\<exists>es c'. on_event broken_probe_env clip_world (''/media/CLIP'', Some grown_stat)
                  = Inr \<lparr>catalog = c', effects = effects clip_world @ es\<rparr>
          \<and> filter is_write es
              = [Db_put (clip_doc\<lparr>mediaPath := ''/media/CLIP'', mediaSize := 2000, mediaTime := 60000,
                           thumbSize := Some 2048, thumbTime := Some 0,
                           tinf := Some (dquote ''CLIP'' @ '' 19700101T000000 2048'' @ CRLF),
                           attachment := Some ''PNG''\<rparr>)]
          \<and> Log_error ''Info Failed'' (ExecError ''ffprobe'') \<in> set es)
   \<and> cinf clip_doc = None
   \<and> run_ffprobe broken_idet_env ''/media/CLIP'' = Parsed clip_probe
   \<and> metadata broken_idet_env = Some idet_config
   \<and> run_idet broken_idet_env (fieldOrderScanDuration idet_config) ''/media/CLIP'' = Inl (ExecError ''ffmpeg'')
   \<and> (\<exists>es c'. on_event broken_idet_env clip_world (''/media/CLIP'', Some grown_stat)
                  = Inr \<lparr>catalog = c', effects = effects clip_world @ es\<rparr>
          \<and> filter is_write es
              = [Db_put (clip_doc\<lparr>mediaPath := ''/media/CLIP'', mediaSize := 2000, mediaTime := 60000,
                           thumbSize := Some 2048, thumbTime := Some 0,
                           tinf := Some (dquote ''CLIP'' @ '' 19700101T000000 2048'' @ CRLF),
                           attachment := Some ''PNG'',
                           cinf := Some (dquote ''CLIP'' @ ''  MOVIE  2000 19700101000000 50 1/25'' @ CRLF)\<rparr>)]
          \<and> Log_error ''Info Failed'' (ExecError ''ffmpeg'') \<in> set es)
   \<and> thumb_fails_early broken_thumb_env ''/media/CLIP''
   \<and> run_ffprobe broken_thumb_env ''/media/CLIP'' = Parsed clip_probe
   \<and> (\<exists>es c' d terr. on_event broken_thumb_env clip_world (''/media/CLIP'', Some grown_stat)
                  = Inr \<lparr>catalog = c', effects = effects clip_world @ es\<rparr>
          \<and> filter is_write es = [Db_put d] \<and> Exec_ffprobe ''/media/CLIP'' \<in> set es
          \<and> Log_error ''Thumbnail Failed'' terr \<in> set es
          \<and> mediaSize d = 2000 \<and> mediaTime d = 60000
          \<and> cinf d = Some (dquote ''CLIP'' @ ''  MOVIE  2000 19700101000000 50 1/25'' @ CRLF)
          \<and> thumbSize d = Some 2048)"
proof -
  have a: "ffprobe_rejection broken_probe_env ''/media/CLIP'' = Some (ExecError ''ffprobe'')
      \<and> thumb_succeeds_with broken_probe_env ''/media/CLIP'' 2048 0 ''PNG''"
    by (simp add: ffprobe_rejection_def thumb_succeeds_with_def broken_probe_env_def sample_env_def
        sample_thumb_def)
  have b_in: "run_ffprobe broken_idet_env ''/media/CLIP'' = Parsed clip_probe"
    "streams clip_probe \<noteq> []" "metadata broken_idet_env = Some idet_config" "fieldOrder idet_config"
    "run_idet broken_idet_env (fieldOrderScanDuration idet_config) ''/media/CLIP'' = Inl (ExecError ''ffmpeg'')"
    "thumb_succeeds_with broken_idet_env ''/media/CLIP'' 2048 0 ''PNG''"
    by (simp_all add: broken_idet_env_def sample_env_def clip_probe_def idet_config_def
        thumb_succeeds_with_def sample_thumb_def)
  have c_in: "thumb_fails_early broken_thumb_env ''/media/CLIP''"
    "run_ffprobe broken_thumb_env ''/media/CLIP'' = Parsed clip_probe"
    by (simp_all add: thumb_fails_early_def broken_thumb_env_def sample_env_def sample_thumb_def)
  have old: "cinf clip_doc = None" "thumbSize clip_doc = Some 2048"
    by (simp_all add: clip_doc_def)
  note first = partial_failure_still_writes [OF clip_ids(1) clip_fetched clip_grown,
      where sz = 2048 and mt = 0 and data = "''PNG''" and err = "ExecError ''ffprobe''",
      THEN conjunct2, THEN conjunct1, rule_format, OF a, unfolded clip_tinf grown_values]
  note second = partial_failure_still_writes [OF clip_ids(2) clip_fetched clip_grown,
      where sz = 2048 and mt = 0 and data = "''PNG''" and json = clip_probe and m = idet_config
        and ierr = "ExecError ''ffmpeg''"
        and c = "dquote ''CLIP'' @ ''  MOVIE  2000 19700101000000 50 1/25'' @ CRLF",
      THEN conjunct2, THEN conjunct2, THEN conjunct1, rule_format, unfolded clip_tinf]
  note third = partial_failure_still_writes [OF clip_ids(3) clip_fetched clip_grown,
      where json = clip_probe and c = "dquote ''CLIP'' @ ''  MOVIE  2000 19700101000000 50 1/25'' @ CRLF",
      THEN conjunct2, THEN conjunct2, THEN conjunct2, rule_format]
  from first have one: "\<exists>es c'. on_event broken_probe_env clip_world (''/media/CLIP'', Some grown_stat)
                  = Inr \<lparr>catalog = c', effects = effects clip_world @ es\<rparr>
          \<and> filter is_write es
              = [Db_put (clip_doc\<lparr>mediaPath := ''/media/CLIP'', mediaSize := 2000, mediaTime := 60000,
                           thumbSize := Some 2048, thumbTime := Some 0,
                           tinf := Some (dquote ''CLIP'' @ '' 19700101T000000 2048'' @ CRLF),
                           attachment := Some ''PNG''\<rparr>)]
          \<and> Log_error ''Info Failed'' (ExecError ''ffprobe'') \<in> set es"
    by blast
  from second b_in clip_cinf(1)
  have "\<exists>es c' d r. on_event broken_idet_env clip_world (''/media/CLIP'', Some grown_stat)
                  = Inr \<lparr>catalog = c', effects = effects clip_world @ es\<rparr>
           \<and> filter is_write es = [Db_put d]
           \<and> d = clip_doc\<lparr>mediaPath := ''/media/CLIP'', mediaSize := st_size grown_stat,
                     mediaTime := st_mtime grown_stat,
                     thumbSize := Some 2048, thumbTime := Some 0,
                     tinf := Some (dquote ''CLIP'' @ '' 19700101T000000 2048'' @ CRLF),
                     attachment := Some ''PNG'',
                     cinf := Some (dquote ''CLIP'' @ ''  MOVIE  2000 19700101000000 50 1/25'' @ CRLF)\<rparr>
           \<and> mediainfo d = mediainfo clip_doc
           \<and> Log_error ''Info Failed'' (ExecError ''ffmpeg'') \<in> set es
           \<and> db_get c' ''CLIP'' = Inr (d\<lparr>doc_rev := r\<rparr>)"
    by blast
  then have two: "\<exists>es c'. on_event broken_idet_env clip_world (''/media/CLIP'', Some grown_stat)
                  = Inr \<lparr>catalog = c', effects = effects clip_world @ es\<rparr>
          \<and> filter is_write es
              = [Db_put (clip_doc\<lparr>mediaPath := ''/media/CLIP'', mediaSize := 2000, mediaTime := 60000,
                           thumbSize := Some 2048, thumbTime := Some 0,
                           tinf := Some (dquote ''CLIP'' @ '' 19700101T000000 2048'' @ CRLF),
                           attachment := Some ''PNG'',
                           cinf := Some (dquote ''CLIP'' @ ''  MOVIE  2000 19700101000000 50 1/25'' @ CRLF)\<rparr>)]
          \<and> Log_error ''Info Failed'' (ExecError ''ffmpeg'') \<in> set es"
    unfolding grown_values by blast
  from third c_in b_in(2) clip_cinf(2)
  have "\<exists>es c' d r terr. on_event broken_thumb_env clip_world (''/media/CLIP'', Some grown_stat)
                  = Inr \<lparr>catalog = c', effects = effects clip_world @ es\<rparr>
           \<and> filter is_write es = [Db_put d]
           \<and> Exec_ffprobe ''/media/CLIP'' \<in> set es \<and> Log_error ''Thumbnail Failed'' terr \<in> set es
           \<and> mediaPath d = ''/media/CLIP'' \<and> mediaSize d = st_size grown_stat
           \<and> mediaTime d = st_mtime grown_stat
           \<and> cinf d = Some (dquote ''CLIP'' @ ''  MOVIE  2000 19700101000000 50 1/25'' @ CRLF)
           \<and> thumbSize d = thumbSize clip_doc \<and> thumbTime d = thumbTime clip_doc \<and> tinf d = tinf clip_doc
           \<and> attachment d = attachment clip_doc
           \<and> db_get c' ''CLIP'' = Inr (d\<lparr>doc_rev := r\<rparr>)"
    by blast
  then have three: "\<exists>es c' d terr. on_event broken_thumb_env clip_world (''/media/CLIP'', Some grown_stat)
                  = Inr \<lparr>catalog = c', effects = effects clip_world @ es\<rparr>
          \<and> filter is_write es = [Db_put d] \<and> Exec_ffprobe ''/media/CLIP'' \<in> set es
          \<and> Log_error ''Thumbnail Failed'' terr \<in> set es
          \<and> mediaSize d = 2000 \<and> mediaTime d = 60000
          \<and> cinf d = Some (dquote ''CLIP'' @ ''  MOVIE  2000 19700101000000 50 1/25'' @ CRLF)
          \<and> thumbSize d = Some 2048"
    unfolding grown_values old by blast
  from clip_ids(1) clip_fetched clip_grown a one old(1) b_in(1,3,5) two c_in three show ?thesis
    by (intro conjI) blast+
qed

text \<open>The claim as it is worded fails when the info job fails after it has built the
  CINF record: on a host whose interlace detection fails, the info job rejects, the
  thumbnail is made, and the entry that the scan stores carries a new CINF record, where
  the entry on file had none.\<close>

theorem info_failure_changes_cinf_counterexample:
  "fst (generateInfo broken_idet_env (with_stat clip_doc ''/media/CLIP'' grown_stat))
     = Rejected (ExecError ''ffmpeg'')
   \<and> fst (generateThumb broken_idet_env (with_stat clip_doc ''/media/CLIP'' grown_stat)) = Resolved
   \<and> cinf (fetch (catalog clip_world) ''CLIP'') = None
   \<and> on_event broken_idet_env clip_world (''/media/CLIP'', Some grown_stat)
       = Inr (after_event broken_idet_env clip_world (''/media/CLIP'', Some grown_stat))
   \<and> cinf (fetch (catalog (after_event broken_idet_env clip_world (''/media/CLIP'', Some grown_stat))) ''CLIP'')
       = Some (dquote ''CLIP'' @ ''  MOVIE  2000 19700101000000 50 1/25'' @ CRLF)"
  by code_simp

section \<open>Properties of the event pipeline\<close>

text \<open>What the \<^verbatim>\<open>try\<close> block rejects with is logged, and the handler returns.\<close>

lemma rejection_is_logged:
  assumes "handle_body e w path (getId e (paths_media e) path) mediaStat = (Rejected err, w1)"
  shows "on_event e w (path, mediaStat) = Inr (emit [Log_error [] err] w1)"
  using assms by (simp add: on_event_def)

lemma scanFile_uncaught:
  assumes "fst (scanFile e w path mediaId mediaStat) = Uncaught err"
  shows "run_ffprobe e path = Unparseable err"
proof -
  let ?d = "(fetch (catalog w) mediaId)\<lparr>mediaPath := path, mediaSize := st_size mediaStat,
      mediaTime := st_mtime mediaStat\<rparr>"
  from assms have "fst (run_probes e ?d) = Some err"
    by (auto simp: scanFile_def Let_def split: if_splits prod.splits option.splits sum.splits)
  then show ?thesis
    by (simp add: run_probes_fst split: ffprobe_output.splits)
qed

text \<open>The handler completes for every event on a host whose ffprobe never prints
  output that cannot be parsed.\<close>

lemma on_event_completes:
  assumes "\<forall>p err. run_ffprobe e p \<noteq> Unparseable err"
  shows "\<exists>w'. on_event e w ev = Inr w'"
proof -
  obtain path mediaStat where ev: "ev = (path, mediaStat)"
    by (cases ev)
  obtain r w1 where body: "handle_body e w path (getId e (paths_media e) path) mediaStat = (r, w1)"
    by (cases "handle_body e w path (getId e (paths_media e) path) mediaStat")
  have "r \<noteq> Uncaught err" for err
  proof
    assume r: "r = Uncaught err"
    show False
    proof (cases mediaStat)
      case None
      with body r show False
        by (auto simp: handle_body_def Let_def split: sum.splits)
    next
      case (Some st)
      with body r have "fst (scanFile e w path (getId e (paths_media e) path) st) = Uncaught err"
        by (simp add: handle_body_def)
      from scanFile_uncaught [OF this] assms show False
        by simp
    qed
  qed
  with body ev show ?thesis
    by (cases r) (auto simp: on_event_def)
qed

text \<open>On such a host the subscription handles every event of a sequence, one after
  the other in arrival order, each on the state its predecessor left.\<close>

lemma concatMap_subscribe_fold:
  assumes "\<forall>p err. run_ffprobe e p \<noteq> Unparseable err"
  shows "concatMap_subscribe (on_event e) w evs = Inr (foldl (after_event e) w evs)"
proof (induction evs arbitrary: w)
  case Nil
  show ?case by simp
next
  case (Cons ev evs)
  from on_event_completes [OF assms] obtain w' where w': "on_event e w ev = Inr w'"
    by blast
  then have "after_event e w ev = w'"
    by (simp add: after_event_def)
  with w' Cons.IH [of w'] show ?case
    by simp
qed

text \<open>A removal of a file that is not in the catalog fails at the lookup. The error is
  logged, and the event for the sample clip that follows is scanned and stored.\<close>

lemma failed_removal_example:
  "on_event sample_env empty_world (''/media/GONE'', None)
     = Inr (emit [Log_error [] NotFound] (emit [Db_get ''GONE''] empty_world))
   \<and> concatMap_subscribe (on_event sample_env) empty_world sample_events
       = Inr (foldl (after_event sample_env) empty_world sample_events)
   \<and> Log_error [] NotFound \<in> set (effects (foldl (after_event sample_env) empty_world sample_events))
   \<and> map doc_id (catalog (foldl (after_event sample_env) empty_world sample_events)) = [''CLIP'']"
  by code_simp

text \<open>
  Claim C9 does not hold of the code. The callback that \<^verbatim>\<open>generateInfo\<close> gives to
  \<^verbatim>\<open>cp.exec\<close> passes an error of the process and output without streams to \<^verbatim>\<open>reject\<close>,
  but calls \<^verbatim>\<open>JSON.parse(stdout)\<close> unguarded. On a host whose ffprobe exits with status
  0 and prints nothing for the file \<^verbatim>\<open>/media/BAD\<close>, the event for that file ends in an
  exception that nothing catches and nothing logs, and the event for the sample clip
  that follows is not handled. On the sample host, where ffprobe fails for the same
  file with an error of the process, both events are handled: the failure is logged and
  both files are stored.
\<close>

theorem unparseable_output_ends_the_pipeline:
  "run_ffprobe garbled_env ''/media/BAD'' = Unparseable SyntaxError
   \<and> generateInfo garbled_env (with_stat (placeholder ''BAD'') ''/media/BAD'' clip_stat)
       = (Uncaught SyntaxError, with_stat (placeholder ''BAD'') ''/media/BAD'' clip_stat,
          [Exec_ffprobe ''/media/BAD''])
   \<and> on_event garbled_env empty_world (''/media/BAD'', Some clip_stat) = Inl SyntaxError
   \<and> concatMap_subscribe (on_event garbled_env) empty_world bad_events = Inl SyntaxError
   \<and> run_ffprobe sample_env ''/media/BAD'' = Exec_failed (ExecError ''ffprobe'')
   \<and> concatMap_subscribe (on_event sample_env) empty_world bad_events
       = Inr (foldl (after_event sample_env) empty_world bad_events)
   \<and> Log_error ''Info Failed'' (ExecError ''ffprobe'')
       \<in> set (effects (foldl (after_event sample_env) empty_world bad_events))
   \<and> map doc_id (catalog (foldl (after_event sample_env) empty_world bad_events)) = [''BAD'', ''CLIP'']"
  by code_simp

section \<open>Properties of the sweep\<close>


lemma limit_ge_2: "2 \<le> limit"
  by (simp add: limit_def)

lemma sorted_catalog_distinct: "sorted_catalog c \<Longrightarrow> distinct (map doc_id c)"
  by (simp add: sorted_catalog_def strict_sorted_iff)

lemma sorted_catalog_filter: "sorted_catalog c \<Longrightarrow> sorted_catalog (filter P c)"
  unfolding sorted_catalog_def by (simp add: sorted_wrt_map sorted_wrt_filter)

lemma same_id_same_doc:
  assumes "sorted_catalog c" "x \<in> set c" "y \<in> set c" "doc_id x = doc_id y"
  shows "x = y"
  using assms sorted_catalog_distinct [of c] by (auto simp: distinct_map dest: inj_onD)

lemma sweep_row_fst: "fst (sweep_row e d) = (if survives e d then None else Some (deletion_of d))"
  by (auto simp: sweep_row_def survives_def starts_with_root_def is_regular_file_def deletion_of_def Let_def
      split: sum.splits)

lemma sweep_deleted_set: "set (sweep_deleted e rows) = deletion_of ` {d \<in> set rows. \<not> survives e d}"
  by (auto simp: sweep_deleted_def List.map_filter_def sweep_row_fst split: if_splits)

lemma sweep_row_snd: "snd (sweep_row e d) = (if starts_with_root e d then [Fs_stat (mediaPath d)] else [])"
  by (auto simp: sweep_row_def starts_with_root_def Let_def split: sum.splits)

text \<open>The stats of a page are those of its rows whose path starts with the root.\<close>

lemma page_stats_set:
  "set (page_stats e rows) = (\<lambda>d. Fs_stat (mediaPath d)) ` {d \<in> set rows. starts_with_root e d}"
  by (auto simp: page_stats_def sweep_row_snd split: if_splits)

lemma bulkDocs_sweep:
  assumes "sorted_catalog c" "set rows \<subseteq> set c"
  shows "bulkDocs c (sweep_deleted e rows) = filter (\<lambda>d. d \<notin> set rows \<or> survives e d) c"
  unfolding bulkDocs_def
proof (rule filter_cong [OF refl])
  fix d assume d: "d \<in> set c"
  have "list_ex (\<lambda>x. del_id x = doc_id d \<and> del_rev x = doc_rev d) (sweep_deleted e rows)
      \<longleftrightarrow> (\<exists>r \<in> set rows. \<not> survives e r \<and> doc_id r = doc_id d \<and> doc_rev r = doc_rev d)"
    by (auto simp: list_ex_iff sweep_deleted_set deletion_of_def)
  also have "\<dots> \<longleftrightarrow> d \<in> set rows \<and> \<not> survives e d"
    using same_id_same_doc [OF assms(1) _ d] assms(2) by blast
  finally show "(\<not> list_ex (\<lambda>x. del_id x = doc_id d \<and> del_rev x = doc_rev d) (sweep_deleted e rows))
      = (d \<notin> set rows \<or> survives e d)"
    by blast
qed

lemma sweep_page_catalog:
  assumes "sorted_catalog (catalog w)"
  shows "catalog (sweep_page e w sk)
    = filter (\<lambda>d. d \<notin> set (allDocs (catalog w) sk limit) \<or> survives e d) (catalog w)"
proof -
  have "set (allDocs (catalog w) sk limit) \<subseteq> set (catalog w)"
    by (auto simp: allDocs_def dest: in_set_takeD)
  from bulkDocs_sweep [OF assms this] show ?thesis
    by (simp add: sweep_page_def Let_def)
qed

text \<open>In a list in strictly increasing order of a key, the last element has the
  greatest key.\<close>

lemma before_last_less:
  assumes "sorted_wrt (<) (map f xs)" "x \<in> set (butlast xs)"
  shows "f x < f (last xs)"
proof -
  from assms(2) have "xs \<noteq> []" by auto
  then have "xs = butlast xs @ [last xs]" by simp
  then have "sorted_wrt (<) (map f (butlast xs @ [last xs]))"
    using assms(1) by simp
  with assms(2) show ?thesis
    by (auto simp: sorted_wrt_append)
qed

lemma after_prefix_greater:
  assumes "sorted_wrt (<) (map f xs)" "x \<in> set (take n xs)" "y \<in> set (drop n xs)"
  shows "f x < f y"
proof -
  have "sorted_wrt (<) (map f (take n xs @ drop n xs))"
    using assms(1) by simp
  with assms(2,3) show ?thesis
    unfolding map_append sorted_wrt_append by auto
qed


lemma allDocs_take: "allDocs c sk n = take n (filter (from_key sk) c)"
  by (simp add: allDocs_def)

text \<open>The facts about one full page of a sorted catalog that the loop rests on.\<close>

lemma full_page:
  assumes sorted: "sorted_catalog c"
    and full: "\<not> length (allDocs c sk limit) < limit"
  defines "rows \<equiv> allDocs c sk limit"
  defines "k \<equiv> doc_id (last rows)"
  shows "rows \<noteq> []"
    and "last rows \<in> set c"
    and "from_key sk (last rows)"
    and "\<And>d. d \<in> set c \<Longrightarrow> k \<le> doc_id d \<Longrightarrow> from_key sk d"
    and "\<And>d. d \<in> set c \<Longrightarrow> from_key sk d \<Longrightarrow> d \<notin> set rows \<Longrightarrow> k < doc_id d"
    and "\<And>d. d \<in> set rows \<Longrightarrow> doc_id d \<le> k"
proof -
  let ?F = "filter (from_key sk) c"
  have rows: "rows = take limit ?F"
    by (simp add: rows_def allDocs_take)
  have sortedF: "sorted_wrt (<) (map doc_id ?F)"
    using sorted_catalog_filter [OF sorted] by (simp add: sorted_catalog_def)
  from full limit_ge_2 show ne: "rows \<noteq> []"
    unfolding rows_def [symmetric] by auto
  then have last: "last rows \<in> set rows"
    by simp
  then have lastF: "last rows \<in> set ?F"
    unfolding rows by (rule in_set_takeD)
  then show "last rows \<in> set c" and fk: "from_key sk (last rows)"
    by simp_all
  show "from_key sk d" if "d \<in> set c" "k \<le> doc_id d" for d
    using fk that(2) by (auto simp: from_key_def k_def split: option.splits)
  show "k < doc_id d" if "d \<in> set c" "from_key sk d" "d \<notin> set rows" for d
  proof -
    from that have "d \<in> set (take limit ?F @ drop limit ?F)"
      by simp
    with that(3) have "d \<in> set (drop limit ?F)"
      unfolding set_append rows by blast
    with after_prefix_greater [OF sortedF] last show ?thesis
      unfolding rows k_def by blast
  qed
  show "doc_id d \<le> k" if "d \<in> set rows" for d
  proof (cases "d \<in> set (butlast rows)")
    case True
    have "sorted_wrt (<) (map doc_id rows)"
      unfolding rows using sortedF by (simp add: sorted_wrt_take flip: take_map)
    from before_last_less [OF this True] show ?thesis
      by (simp add: k_def)
  next
    case False
    with that ne have "d = last rows"
      by (metis append_butlast_last_id in_set_conv_decomp_first rotate1.simps(2) set_ConsD set_rotate1)
    then show ?thesis by (simp add: k_def)
  qed
qed


lemma sweep_page_effects:
  "effects (sweep_page e w sk) = effects w @ [Db_allDocs sk]
     @ concat (map (\<lambda>d. snd (sweep_row e d)) (allDocs (catalog w) sk limit))
     @ [Db_bulkDocs (sweep_deleted e (allDocs (catalog w) sk limit))]"
  by (simp add: sweep_page_def Let_def)

lemma sweep_page_submits:
  assumes "d \<in> set (allDocs (catalog w) sk limit)" "\<not> survives e d"
  shows "\<exists>es ds. effects (sweep_page e w sk) = effects w @ es \<and> Db_bulkDocs ds \<in> set es
           \<and> deletion_of d \<in> set ds"
proof -
  from assms have "deletion_of d \<in> set (sweep_deleted e (allDocs (catalog w) sk limit))"
    by (simp add: sweep_deleted_set)
  then show ?thesis
    unfolding sweep_page_effects by fastforce
qed

text \<open>The loop ends on a sorted catalog. From the start key on it leaves exactly the
  entries that survive, each other one having been submitted in a bulk deletion; the
  entries before the start key are not touched. The files that it stats are those of
  the entries from the start key on whose path starts with the root.\<close>

lemma cleanDeleted_loop_result:
  assumes "sorted_catalog (catalog w)"
  shows "\<exists>es. cleanDeleted_loop e w sk
           = Some \<lparr>catalog = filter (\<lambda>d. survives e d \<or> \<not> from_key sk d) (catalog w),
                   effects = effects w @ es\<rparr>
         \<and> (\<forall>d \<in> set (catalog w). from_key sk d \<and> \<not> survives e d
               \<longrightarrow> (\<exists>ds. Db_bulkDocs ds \<in> set es \<and> deletion_of d \<in> set ds))
         \<and> (\<forall>p. Fs_stat p \<in> set es
               \<longleftrightarrow> (\<exists>d \<in> set (catalog w). from_key sk d \<and> starts_with_root e d \<and> mediaPath d = p))"
  using assms
proof (induction "length (filter (from_key sk) (catalog w))" arbitrary: w sk rule: less_induct)
  case less
  let ?c = "catalog w"
  let ?F = "filter (from_key sk) ?c"
  let ?rows = "allDocs ?c sk limit"
  let ?w1 = "sweep_page e w sk"
  note sorted = \<open>sorted_catalog ?c\<close>
  have rows: "?rows = take limit ?F"
    by (rule allDocs_take)
  have c1: "catalog ?w1 = filter (\<lambda>d. d \<notin> set ?rows \<or> survives e d) ?c"
    by (rule sweep_page_catalog [OF sorted])
  have in_rows: "d \<in> set ?c \<and> from_key sk d" if "d \<in> set ?rows" for d
    using that unfolding rows by (auto dest: in_set_takeD)
  obtain es1 where es1: "effects ?w1 = effects w @ es1"
    and submitted: "\<And>d. d \<in> set ?rows \<Longrightarrow> \<not> survives e d
        \<Longrightarrow> \<exists>ds. Db_bulkDocs ds \<in> set es1 \<and> deletion_of d \<in> set ds"
    and statted: "\<And>p. Fs_stat p \<in> set es1
        \<longleftrightarrow> (\<exists>d \<in> set ?rows. starts_with_root e d \<and> mediaPath d = p)"
  proof
    show "effects ?w1 = effects w @ ([Db_allDocs sk] @ page_stats e ?rows
        @ [Db_bulkDocs (sweep_deleted e ?rows)])"
      by (simp add: sweep_page_effects page_stats_def)
    show "\<exists>ds. Db_bulkDocs ds \<in> set ([Db_allDocs sk] @ page_stats e ?rows
        @ [Db_bulkDocs (sweep_deleted e ?rows)]) \<and> deletion_of d \<in> set ds"
      if "d \<in> set ?rows" "\<not> survives e d" for d
      using that by (auto simp: sweep_deleted_set)
    show "Fs_stat p \<in> set ([Db_allDocs sk] @ page_stats e ?rows @ [Db_bulkDocs (sweep_deleted e ?rows)])
        \<longleftrightarrow> (\<exists>d \<in> set ?rows. starts_with_root e d \<and> mediaPath d = p)" for p
      by (auto simp: page_stats_set)
  qed
  show ?case
  proof (cases "length ?rows < limit")
    case True
    then have all: "?rows = ?F"
      unfolding rows by (metis length_take min_less_iff_conj nat_less_le take_all_iff nat_le_linear)
    have "cleanDeleted_loop e w sk = Some ?w1"
      by (subst cleanDeleted_loop.simps) (simp add: True Let_def)
    moreover have "catalog ?w1 = filter (\<lambda>d. survives e d \<or> \<not> from_key sk d) ?c"
      unfolding c1 all by (rule filter_cong) auto
    moreover have "\<exists>ds. Db_bulkDocs ds \<in> set es1 \<and> deletion_of d \<in> set ds"
      if "d \<in> set ?c" "from_key sk d \<and> \<not> survives e d" for d
      using submitted [of d] that all by simp
    moreover have "Fs_stat p \<in> set es1
        \<longleftrightarrow> (\<exists>d \<in> set ?c. from_key sk d \<and> starts_with_root e d \<and> mediaPath d = p)" for p
      unfolding statted all by auto
    ultimately show ?thesis
      using es1 by (intro exI [of _ es1]) (cases ?w1, simp)
  next
    case False
    let ?k = "doc_id (last ?rows)"
    note page = full_page [OF sorted False]
    have step: "cleanDeleted_loop e w sk = cleanDeleted_loop e ?w1 (Some ?k)"
      by (subst cleanDeleted_loop.simps) (simp add: False Let_def)
    have sorted1: "sorted_catalog (catalog ?w1)"
      unfolding c1 by (rule sorted_catalog_filter [OF sorted])
    have key: "from_key (Some ?k) d \<longleftrightarrow> ?k \<le> doc_id d" for d
      by (simp add: from_key_def)
    have len: "length ?F \<ge> limit"
      using False unfolding rows by simp
    have later_rows: "filter (from_key (Some ?k)) (catalog ?w1)
        = filter (\<lambda>d. d \<notin> set ?rows \<or> survives e d) (filter (\<lambda>d. ?k \<le> doc_id d) ?F)"
      unfolding c1 filter_filter key by (rule filter_cong) (use page(4) in auto)
    have "length (filter (from_key (Some ?k)) (catalog ?w1)) \<le> length (filter (\<lambda>d. ?k \<le> doc_id d) ?F)"
      unfolding later_rows by (rule length_filter_le)
    also have "filter (\<lambda>d. ?k \<le> doc_id d) ?F
        = filter (\<lambda>d. ?k \<le> doc_id d) (butlast ?rows @ [last ?rows]) @ filter (\<lambda>d. ?k \<le> doc_id d) (drop limit ?F)"
      using page(1) by (metis append_butlast_last_id append_take_drop_id filter_append rows)
    also have "filter (\<lambda>d. ?k \<le> doc_id d) (butlast ?rows @ [last ?rows]) = [last ?rows]"
    proof -
      have "sorted_wrt (<) (map doc_id ?rows)"
        unfolding rows using sorted_catalog_filter [OF sorted, of "from_key sk"]
        by (simp add: sorted_catalog_def sorted_wrt_take flip: take_map)
      from before_last_less [OF this] have "\<forall>d \<in> set (butlast ?rows). \<not> ?k \<le> doc_id d"
        by (auto simp: not_le)
      then show ?thesis by simp
    qed
    also have "length ([last ?rows] @ filter (\<lambda>d. ?k \<le> doc_id d) (drop limit ?F)) \<le> 1 + (length ?F - limit)"
      using length_filter_le [of "\<lambda>d. ?k \<le> doc_id d" "drop limit ?F"] by simp
    also have "\<dots> < length ?F"
      using len limit_ge_2 by linarith
    finally have dec: "length (filter (from_key (Some ?k)) (catalog ?w1)) < length ?F" .
    from less.hyps [OF dec sorted1] obtain es2 where
      res: "cleanDeleted_loop e ?w1 (Some ?k)
           = Some \<lparr>catalog = filter (\<lambda>d. survives e d \<or> \<not> from_key (Some ?k) d) (catalog ?w1),
                   effects = effects ?w1 @ es2\<rparr>"
      and later: "\<And>d. d \<in> set (catalog ?w1) \<Longrightarrow> from_key (Some ?k) d \<and> \<not> survives e d
          \<Longrightarrow> \<exists>ds. Db_bulkDocs ds \<in> set es2 \<and> deletion_of d \<in> set ds"
      and statted2: "\<And>p. Fs_stat p \<in> set es2
          \<longleftrightarrow> (\<exists>d \<in> set (catalog ?w1). from_key (Some ?k) d \<and> starts_with_root e d \<and> mediaPath d = p)"
      by blast
    have cat: "filter (\<lambda>d. survives e d \<or> \<not> from_key (Some ?k) d) (catalog ?w1)
        = filter (\<lambda>d. survives e d \<or> \<not> from_key sk d) ?c"
      unfolding c1 filter_filter key
    proof (rule filter_cong [OF refl])
      fix d assume d: "d \<in> set ?c"
      show "((d \<notin> set ?rows \<or> survives e d) \<and> (survives e d \<or> \<not> ?k \<le> doc_id d))
          = (survives e d \<or> \<not> from_key sk d)"
        using page(4) [OF d] page(5) [OF d] page(6) [of d] d
        by (auto simp: allDocs_take dest: in_set_takeD)
    qed
    have "\<exists>ds. Db_bulkDocs ds \<in> set (es1 @ es2) \<and> deletion_of d \<in> set ds"
      if d: "d \<in> set ?c" and bad: "from_key sk d \<and> \<not> survives e d" for d
    proof (cases "d \<in> set ?rows")
      case True
      with submitted [of d] bad show ?thesis by auto
    next
      case out: False
      with d have "d \<in> set (catalog ?w1)"
        unfolding c1 by simp
      moreover from page(5) [OF d] bad out have "from_key (Some ?k) d"
        unfolding key by simp
      ultimately show ?thesis
        using later [of d] bad by auto
    qed
    then have deleted: "\<forall>d \<in> set ?c. from_key sk d \<and> \<not> survives e d
        \<longrightarrow> (\<exists>ds. Db_bulkDocs ds \<in> set (es1 @ es2) \<and> deletion_of d \<in> set ds)"
      by blast
    have stats: "Fs_stat p \<in> set (es1 @ es2)
        \<longleftrightarrow> (\<exists>d \<in> set ?c. from_key sk d \<and> starts_with_root e d \<and> mediaPath d = p)" for p
    proof
      assume "Fs_stat p \<in> set (es1 @ es2)"
      then consider "Fs_stat p \<in> set es1" | "Fs_stat p \<in> set es2"
        by auto
      then show "\<exists>d \<in> set ?c. from_key sk d \<and> starts_with_root e d \<and> mediaPath d = p"
      proof cases
        case 1
        then obtain d where "d \<in> set ?rows" "starts_with_root e d" "mediaPath d = p"
          unfolding statted by blast
        with in_rows [of d] show ?thesis by blast
      next
        case 2
        then obtain d where d: "d \<in> set (catalog ?w1)" "from_key (Some ?k) d" "starts_with_root e d"
            "mediaPath d = p"
          unfolding statted2 by blast
        from d(1) have "d \<in> set ?c"
          unfolding c1 by simp
        moreover from page(4) [OF this] d(2) have "from_key sk d"
          unfolding key by simp
        ultimately show ?thesis
          using d(3,4) by blast
      qed
    next
      assume "\<exists>d \<in> set ?c. from_key sk d \<and> starts_with_root e d \<and> mediaPath d = p"
      then obtain d where d: "d \<in> set ?c" "from_key sk d" "starts_with_root e d" "mediaPath d = p"
        by blast
      show "Fs_stat p \<in> set (es1 @ es2)"
      proof (cases "d \<in> set ?rows")
        case True
        with d(3,4) have "Fs_stat p \<in> set es1"
          unfolding statted by blast
        then show ?thesis by simp
      next
        case out: False
        with d(1) have "d \<in> set (catalog ?w1)"
          unfolding c1 by simp
        moreover from page(5) [OF d(1,2) out] have "from_key (Some ?k) d"
          unfolding key by simp
        ultimately have "Fs_stat p \<in> set es2"
          unfolding statted2 using d(3,4) by blast
        then show ?thesis by simp
      qed
    qed
    from step res cat es1 deleted stats show ?thesis
      by (intro exI [of _ "es1 @ es2"]) simp
  qed
qed

text \<open>What the listing from the cursor holds after a full page: the last row of the
  page if it survived, then the entries beyond the page.\<close>

lemma next_listing:
  assumes sorted: "sorted_catalog c"
    and full: "\<not> length (allDocs c sk limit) < limit"
  shows "filter (from_key (Some (doc_id (last (allDocs c sk limit)))))
           (bulkDocs c (sweep_deleted e (allDocs c sk limit)))
       = (if survives e (last (allDocs c sk limit)) then [last (allDocs c sk limit)] else [])
         @ drop limit (filter (from_key sk) c)"
proof -
  let ?F = "filter (from_key sk) c"
  let ?rows = "allDocs c sk limit"
  let ?k = "doc_id (last ?rows)"
  let ?Q = "\<lambda>d. d \<notin> set ?rows \<or> survives e d"
  note page = full_page [OF sorted full]
  have rows: "?rows = take limit ?F"
    by (rule allDocs_take)
  have sortedF: "sorted_wrt (<) (map doc_id ?F)"
    using sorted_catalog_filter [OF sorted] by (simp add: sorted_catalog_def)
  have sub: "set ?rows \<subseteq> set c"
    by (auto simp: allDocs_def dest: in_set_takeD)
  have key: "from_key (Some ?k) d \<longleftrightarrow> ?k \<le> doc_id d" for d
    by (simp add: from_key_def)
  have beyond: "?k < doc_id d" if "d \<in> set (drop limit ?F)" for d
    using after_prefix_greater [OF sortedF, of "last ?rows" limit d] that page(1)
    unfolding rows by simp
  have "filter (from_key (Some ?k)) (bulkDocs c (sweep_deleted e ?rows))
      = filter ?Q (filter (\<lambda>d. ?k \<le> doc_id d) ?F)"
    unfolding bulkDocs_sweep [OF sorted sub] filter_filter key
    by (rule filter_cong) (use page(4) in auto)
  also have "filter (\<lambda>d. ?k \<le> doc_id d) ?F
      = filter (\<lambda>d. ?k \<le> doc_id d) (butlast ?rows @ [last ?rows])
        @ filter (\<lambda>d. ?k \<le> doc_id d) (drop limit ?F)"
    using page(1) by (metis append_butlast_last_id append_take_drop_id filter_append rows)
  also have "filter (\<lambda>d. ?k \<le> doc_id d) (butlast ?rows @ [last ?rows]) = [last ?rows]"
  proof -
    have "sorted_wrt (<) (map doc_id ?rows)"
      unfolding rows using sortedF by (simp add: sorted_wrt_take flip: take_map)
    from before_last_less [OF this] have "\<forall>d \<in> set (butlast ?rows). \<not> ?k \<le> doc_id d"
      by (auto simp: not_le)
    then show ?thesis by simp
  qed
  also have "filter (\<lambda>d. ?k \<le> doc_id d) (drop limit ?F) = drop limit ?F"
    using beyond by (intro filter_True) (auto simp: less_imp_le)
  also have "filter ?Q ([last ?rows] @ drop limit ?F)
      = (if survives e (last ?rows) then [last ?rows] else []) @ filter ?Q (drop limit ?F)"
    using page(1) by simp
  also have "filter ?Q (drop limit ?F) = drop limit ?F"
  proof (rule filter_True, rule ballI)
    fix d assume "d \<in> set (drop limit ?F)"
    from beyond [OF this] page(6) [of d] have "d \<notin> set ?rows"
      by auto
    then show "d \<notin> set ?rows \<or> survives e d"
      by simp
  qed
  finally show ?thesis .
qed

lemma next_page_listing:
  assumes "sorted_catalog c" "\<not> length (allDocs c sk limit) < limit"
  shows "next_page e c sk
       = take limit ((if survives e (last (allDocs c sk limit)) then [last (allDocs c sk limit)] else [])
                     @ drop limit (filter (from_key sk) c))"
  unfolding next_page_def allDocs_take [of "bulkDocs c _"]
  using next_listing [OF assms, of e] by (simp add: allDocs_take)

lemma surviving_last_listed_again:
  assumes "sorted_catalog c" "\<not> length (allDocs c sk limit) < limit"
    and "survives e (last (allDocs c sk limit))"
  shows "next_page e c sk \<noteq> []" and "hd (next_page e c sk) = last (allDocs c sk limit)"
proof -
  from limit_ge_2 obtain n where "limit = Suc n"
    by (cases limit) auto
  then show "next_page e c sk \<noteq> []" and "hd (next_page e c sk) = last (allDocs c sk limit)"
    unfolding next_page_listing [OF assms(1,2)] using assms(3) by simp_all
qed

lemma deleted_last_not_listed:
  assumes sorted: "sorted_catalog c" and full: "\<not> length (allDocs c sk limit) < limit"
    and "\<not> survives e (last (allDocs c sk limit))"
  shows "last (allDocs c sk limit) \<notin> set (next_page e c sk)"
proof
  let ?F = "filter (from_key sk) c"
  let ?rows = "allDocs c sk limit"
  assume "last ?rows \<in> set (next_page e c sk)"
  with assms(3) have "last ?rows \<in> set (drop limit ?F)"
    unfolding next_page_listing [OF sorted full] by (auto dest: in_set_takeD)
  moreover have "sorted_wrt (<) (map doc_id ?F)"
    using sorted_catalog_filter [OF sorted] by (simp add: sorted_catalog_def)
  moreover have "last ?rows \<in> set (take limit ?F)"
    using full_page(1) [OF sorted full] by (simp flip: allDocs_take)
  ultimately have "doc_id (last ?rows) < doc_id (last ?rows)"
    by (rule after_prefix_greater [rotated 2])
  then show False by simp
qed

lemma survivor_is_statted:
  assumes "d \<in> set rows" "survives e d"
  shows "Fs_stat (mediaPath d) \<in> set (page_stats e rows)"
proof -
  from assms(2) have "snd (sweep_row e d) = [Fs_stat (mediaPath d)]"
    by (auto simp: sweep_row_def survives_def starts_with_root_def is_regular_file_def Let_def split: sum.splits)
  with assms(1) show ?thesis
    by (force simp: page_stats_def)
qed

lemma cleanDeleted_result:
  assumes "sorted_catalog (catalog w)"
  shows "\<exists>es. cleanDeleted e w = Some \<lparr>catalog = filter (survives e) (catalog w), effects = effects w @ es\<rparr>
      \<and> (\<forall>d \<in> set (catalog w). \<not> survives e d
            \<longrightarrow> (\<exists>ds. Db_bulkDocs ds \<in> set es \<and> deletion_of d \<in> set ds))
      \<and> (\<forall>p. Fs_stat p \<in> set es
            \<longleftrightarrow> (\<exists>d \<in> set (catalog w). starts_with_root e d \<and> mediaPath d = p))"
proof -
  let ?w0 = "emit [Log_info ''Checking for dead media''] w"
  have "sorted_catalog (catalog ?w0)"
    using assms by (simp add: emit_def)
  from cleanDeleted_loop_result [OF this, of e None]
  obtain es where loop: "cleanDeleted_loop e ?w0 None
           = Some \<lparr>catalog = filter (\<lambda>d. survives e d \<or> \<not> from_key None d) (catalog ?w0),
                   effects = effects ?w0 @ es\<rparr>"
    and sub: "\<forall>d \<in> set (catalog ?w0). from_key None d \<and> \<not> survives e d
               \<longrightarrow> (\<exists>ds. Db_bulkDocs ds \<in> set es \<and> deletion_of d \<in> set ds)"
    and stats: "\<forall>p. Fs_stat p \<in> set es
               \<longleftrightarrow> (\<exists>d \<in> set (catalog ?w0). from_key None d \<and> starts_with_root e d \<and> mediaPath d = p)"
    by blast
  let ?es = "Log_info ''Checking for dead media'' # es @ [Log_info ''Finished check for dead media'']"
  from loop have "cleanDeleted e w = Some \<lparr>catalog = filter (survives e) (catalog w), effects = effects w @ ?es\<rparr>"
    by (simp add: cleanDeleted_def emit_def from_key_def)
  moreover from sub have "\<forall>d \<in> set (catalog w). \<not> survives e d
            \<longrightarrow> (\<exists>ds. Db_bulkDocs ds \<in> set ?es \<and> deletion_of d \<in> set ds)"
    by (auto simp: emit_def from_key_def)
  moreover from stats have "\<forall>p. Fs_stat p \<in> set ?es
            \<longleftrightarrow> (\<exists>d \<in> set (catalog w). starts_with_root e d \<and> mediaPath d = p)"
    by (simp add: emit_def from_key_def)
  ultimately show ?thesis by blast
qed

text \<open>
  Claim C2, as the code has it. On a catalog in the order of its ids the sweep ends.
  The test that it makes on the path of an entry is whether the normalized path starts
  with the normalized text of the scan root.

  \<^item> An entry whose path passes the test and whose stat fails or reports something
    else than a regular file has been statted, has been submitted in a bulk deletion,
    and is gone from the catalog.

  \<^item> An entry whose path fails the test is not statted; it has been submitted in a
    bulk deletion and is gone from the catalog all the same.

  \<^item> An entry whose path passes the test and whose stat reports a regular file has
    been statted and is kept.

  The catalog that the sweep leaves holds exactly the entries of the third kind.
\<close>

theorem sweep_keeps_only_files_under_root:
  assumes "sorted_catalog (catalog w)"
  shows "\<exists>w' es. cleanDeleted e w = Some w' \<and> effects w' = effects w @ es
      \<and> catalog w' = filter (survives e) (catalog w)
      \<and> (\<forall>d \<in> set (catalog w).
            (prefix (path_normalize e (scanner_paths e)) (path_normalize e (mediaPath d))
               \<and> \<not> is_regular_file e (mediaPath d)
               \<longrightarrow> d \<notin> set (catalog w') \<and> Fs_stat (mediaPath d) \<in> set es
                 \<and> (\<exists>ds. Db_bulkDocs ds \<in> set es \<and> deletion_of d \<in> set ds))
          \<and> (\<not> prefix (path_normalize e (scanner_paths e)) (path_normalize e (mediaPath d))
               \<longrightarrow> d \<notin> set (catalog w') \<and> Fs_stat (mediaPath d) \<notin> set es
                 \<and> (\<exists>ds. Db_bulkDocs ds \<in> set es \<and> deletion_of d \<in> set ds))
          \<and> (prefix (path_normalize e (scanner_paths e)) (path_normalize e (mediaPath d))
               \<and> is_regular_file e (mediaPath d)
               \<longrightarrow> d \<in> set (catalog w') \<and> Fs_stat (mediaPath d) \<in> set es))"
proof -
  from cleanDeleted_result [OF assms, of e]
  obtain es where res: "cleanDeleted e w
        = Some \<lparr>catalog = filter (survives e) (catalog w), effects = effects w @ es\<rparr>"
    and sub: "\<forall>d \<in> set (catalog w). \<not> survives e d
            \<longrightarrow> (\<exists>ds. Db_bulkDocs ds \<in> set es \<and> deletion_of d \<in> set ds)"
    and stats: "\<forall>p. Fs_stat p \<in> set es
            \<longleftrightarrow> (\<exists>d \<in> set (catalog w). starts_with_root e d \<and> mediaPath d = p)"
    by blast
  have inside: "Fs_stat (mediaPath d) \<in> set es" if "d \<in> set (catalog w)" "starts_with_root e d" for d
    using stats that by blast
  have outside: "Fs_stat (mediaPath d) \<notin> set es" if "\<not> starts_with_root e d" for d
  proof
    assume "Fs_stat (mediaPath d) \<in> set es"
    with stats obtain d' where "starts_with_root e d'" "mediaPath d' = mediaPath d"
      by blast
    with that show False
      by (simp add: starts_with_root_def)
  qed
  show ?thesis
    apply (rule exI [of _ "\<lparr>catalog = filter (survives e) (catalog w), effects = effects w @ es\<rparr>"])
    apply (rule exI [of _ es])
    using res sub inside outside by (auto simp: survives_def starts_with_root_def [symmetric])
qed

lemma sweep_world_sorted: "sorted_catalog (catalog sweep_world)"
  by code_simp

lemma sweep_world_survivors: "filter (survives sweep_env) (catalog sweep_world) = [clip_doc, sibling_doc]"
  by code_simp

lemma sweep_world_entries:
  "gone_doc \<in> set (catalog sweep_world)" "stray_doc \<in> set (catalog sweep_world)"
  "sibling_doc \<in> set (catalog sweep_world)"
  "prefix (path_normalize sweep_env (scanner_paths sweep_env)) (path_normalize sweep_env (mediaPath gone_doc))"
  "\<not> is_regular_file sweep_env (mediaPath gone_doc)"
  "\<not> prefix (path_normalize sweep_env (scanner_paths sweep_env)) (path_normalize sweep_env (mediaPath stray_doc))"
  "prefix (path_normalize sweep_env (scanner_paths sweep_env)) (path_normalize sweep_env (mediaPath sibling_doc))"
  "is_regular_file sweep_env (mediaPath sibling_doc)"
  "mediaPath gone_doc = ''/media/GONE''" "mediaPath stray_doc = ''/archive/OLD''"
  "mediaPath sibling_doc = ''/media-old/SIDE''"
  by code_simp+

text \<open>
  The scan root is \<^verbatim>\<open>/media\<close>. Of the sample clip, an entry under the root whose file
  is gone, an entry in \<^verbatim>\<open>/archive\<close> whose file exists, and an entry in \<^verbatim>\<open>/media-old\<close>
  whose file exists, the sweep leaves the sample clip and the entry in \<^verbatim>\<open>/media-old\<close>,
  whose path starts with the text of the root. It stats the missing file and the file in
  \<^verbatim>\<open>/media-old\<close>, and does not stat the file in \<^verbatim>\<open>/archive\<close>, whose entry it deletes.
\<close>

theorem sweep_keeps_only_files_under_root_witness:
  "sorted_catalog (catalog sweep_world)
   \<and> (\<exists>w' es. cleanDeleted sweep_env sweep_world = Some w' \<and> effects w' = effects sweep_world @ es
          \<and> catalog w' = [clip_doc, sibling_doc]
          \<and> Fs_stat ''/media/GONE'' \<in> set es
          \<and> (\<exists>ds. Db_bulkDocs ds \<in> set es \<and> deletion_of gone_doc \<in> set ds)
          \<and> Fs_stat ''/archive/OLD'' \<notin> set es
          \<and> (\<exists>ds. Db_bulkDocs ds \<in> set es \<and> deletion_of stray_doc \<in> set ds)
          \<and> Fs_stat ''/media-old/SIDE'' \<in> set es)"
proof -
  from sweep_keeps_only_files_under_root [OF sweep_world_sorted, of sweep_env]
  obtain w' es where res: "cleanDeleted sweep_env sweep_world = Some w'" "effects w' = effects sweep_world @ es"
      "catalog w' = filter (survives sweep_env) (catalog sweep_world)"
    and each: "\<forall>d \<in> set (catalog sweep_world).
            (prefix (path_normalize sweep_env (scanner_paths sweep_env)) (path_normalize sweep_env (mediaPath d))
               \<and> \<not> is_regular_file sweep_env (mediaPath d)
               \<longrightarrow> d \<notin> set (catalog w') \<and> Fs_stat (mediaPath d) \<in> set es
                 \<and> (\<exists>ds. Db_bulkDocs ds \<in> set es \<and> deletion_of d \<in> set ds))
          \<and> (\<not> prefix (path_normalize sweep_env (scanner_paths sweep_env)) (path_normalize sweep_env (mediaPath d))
               \<longrightarrow> d \<notin> set (catalog w') \<and> Fs_stat (mediaPath d) \<notin> set es
                 \<and> (\<exists>ds. Db_bulkDocs ds \<in> set es \<and> deletion_of d \<in> set ds))
          \<and> (prefix (path_normalize sweep_env (scanner_paths sweep_env)) (path_normalize sweep_env (mediaPath d))
               \<and> is_regular_file sweep_env (mediaPath d)
               \<longrightarrow> d \<in> set (catalog w') \<and> Fs_stat (mediaPath d) \<in> set es)"
    by blast
  note e = sweep_world_entries
  from each e(1,4,5) have gone: "Fs_stat (mediaPath gone_doc) \<in> set es"
      "\<exists>ds. Db_bulkDocs ds \<in> set es \<and> deletion_of gone_doc \<in> set ds"
    by blast+
  from each e(2,6) have stray: "Fs_stat (mediaPath stray_doc) \<notin> set es"
      "\<exists>ds. Db_bulkDocs ds \<in> set es \<and> deletion_of stray_doc \<in> set ds"
    by blast+
  from each e(3,7,8) have side: "Fs_stat (mediaPath sibling_doc) \<in> set es"
    by blast
  from res gone stray side show ?thesis
    unfolding e(9,10,11) sweep_world_survivors using sweep_world_sorted by blast
qed

text \<open>The entry outside the scan root is deleted, although its file exists.\<close>

theorem sweep_deletes_outside_root_counterexample:
  "stray_doc \<in> set (catalog sweep_world)
   \<and> \<not> starts_with_root sweep_env stray_doc
   \<and> is_regular_file sweep_env (mediaPath stray_doc)
   \<and> (\<exists>w'. cleanDeleted sweep_env sweep_world = Some w' \<and> stray_doc \<notin> set (catalog w'))"
proof -
  have "stray_doc \<in> set (catalog sweep_world)" "\<not> starts_with_root sweep_env stray_doc"
    "is_regular_file sweep_env (mediaPath stray_doc)" "stray_doc \<notin> set [clip_doc, sibling_doc]"
    by code_simp+
  with cleanDeleted_result [OF sweep_world_sorted, of sweep_env] sweep_world_survivors
  show ?thesis by auto
qed

subsection \<open>The page cursor\<close>

lemma loop_continues:
  assumes "\<not> length (allDocs (catalog w) sk limit) < limit"
  shows "cleanDeleted_loop e w sk
    = cleanDeleted_loop e (sweep_page e w sk) (Some (doc_id (last (allDocs (catalog w) sk limit))))"
  by (subst cleanDeleted_loop.simps) (simp add: assms Let_def)

lemma next_page_is_next_listing:
  "allDocs (catalog (sweep_page e w sk)) (Some (doc_id (last (allDocs (catalog w) sk limit)))) limit
     = next_page e (catalog w) sk"
  by (simp add: next_page_def sweep_page_def Let_def)

text \<open>
  Claim C10, as the code has it. After a full page of a catalog in the order of its
  ids, the loop goes on with the id of the last row of the page as start key, and the
  listing of the next page starts at that key inclusively. When the last row survived
  its page (its path lies under the scan root and its stat reports a regular file), it
  is the first row of the next page, and its file is statted in both pages. When it was
  deleted in its page, it is not among the rows of the next page.
\<close>

theorem last_row_of_full_page:
  assumes "sorted_catalog (catalog w)"
    and "\<not> length (allDocs (catalog w) sk limit) < limit"
  shows "cleanDeleted_loop e w sk
           = cleanDeleted_loop e (sweep_page e w sk) (Some (doc_id (last (allDocs (catalog w) sk limit))))
       \<and> allDocs (catalog (sweep_page e w sk)) (Some (doc_id (last (allDocs (catalog w) sk limit)))) limit
           = next_page e (catalog w) sk
       \<and> effects (sweep_page e w sk)
           = effects w @ [Db_allDocs sk] @ page_stats e (allDocs (catalog w) sk limit)
               @ [Db_bulkDocs (sweep_deleted e (allDocs (catalog w) sk limit))]
       \<and> (survives e (last (allDocs (catalog w) sk limit)) \<longrightarrow>
            next_page e (catalog w) sk \<noteq> []
          \<and> hd (next_page e (catalog w) sk) = last (allDocs (catalog w) sk limit)
          \<and> Fs_stat (mediaPath (last (allDocs (catalog w) sk limit)))
               \<in> set (page_stats e (allDocs (catalog w) sk limit))
          \<and> Fs_stat (mediaPath (last (allDocs (catalog w) sk limit)))
               \<in> set (page_stats e (next_page e (catalog w) sk)))
       \<and> (\<not> survives e (last (allDocs (catalog w) sk limit)) \<longrightarrow>
            last (allDocs (catalog w) sk limit) \<notin> set (next_page e (catalog w) sk))"
proof (intro conjI impI)
  let ?rows = "allDocs (catalog w) sk limit"
  let ?next = "next_page e (catalog w) sk"
  show "cleanDeleted_loop e w sk = cleanDeleted_loop e (sweep_page e w sk) (Some (doc_id (last ?rows)))"
    by (rule loop_continues [OF assms(2)])
  show "allDocs (catalog (sweep_page e w sk)) (Some (doc_id (last ?rows))) limit = ?next"
    by (rule next_page_is_next_listing)
  show "effects (sweep_page e w sk)
      = effects w @ [Db_allDocs sk] @ page_stats e ?rows @ [Db_bulkDocs (sweep_deleted e ?rows)]"
    unfolding page_stats_def by (rule sweep_page_effects)
  show "last ?rows \<notin> set ?next" if "\<not> survives e (last ?rows)"
    using deleted_last_not_listed [OF assms that] .
  assume alive: "survives e (last ?rows)"
  show ne: "?next \<noteq> []" and first: "hd ?next = last ?rows"
    using surviving_last_listed_again [OF assms alive] by simp_all
  have "last ?rows \<in> set ?rows"
    using full_page(1) [OF assms] by simp
  then show "Fs_stat (mediaPath (last ?rows)) \<in> set (page_stats e ?rows)"
    using alive by (rule survivor_is_statted)
  from ne have "hd ?next \<in> set ?next"
    by (rule hd_in_set)
  then have "last ?rows \<in> set ?next"
    by (simp only: first)
  then show "Fs_stat (mediaPath (last ?rows)) \<in> set (page_stats e ?next)"
    using alive by (rule survivor_is_statted)
qed

subsection \<open>A catalog of three hundred entries\<close>

lemma replicate_less:
  assumes "m < n"
  shows "replicate (Suc m) (c::char) < replicate (Suc n) c"
proof -
  from assms obtain k where "n = Suc (m + k)"
    by (auto simp: less_iff_Suc_add)
  then have "Suc n = Suc m + Suc k"
    by simp
  then have longer: "replicate (Suc n) c = replicate (Suc m) c @ replicate (Suc k) c"
    by (simp only: replicate_add)
  have "(replicate (Suc m) c, replicate (Suc m) c @ replicate (Suc k) c) \<in> lexord {(u, v). u < v}"
    by (rule lexord_append_rightI) simp
  then show ?thesis
    unfolding longer list_less_def .
qed

lemma big_catalog_sorted: "sorted_catalog big_catalog"
  unfolding sorted_catalog_def big_catalog_def sorted_wrt_map
proof (rule sorted_wrt_mono_rel [OF _ sorted_wrt_upt])
  fix m n :: nat
  assume "m < n"
  then show "doc_id (numbered_doc m) < doc_id (numbered_doc n)"
    by (simp add: numbered_doc_def placeholder_def replicate_less del: replicate_Suc)
qed

lemma from_start: "filter (from_key None) c = c"
  by (simp add: from_key_def)

lemma big_first_page: "allDocs big_catalog None limit = map numbered_doc [0..<256]"
proof -
  have "take 256 [0..<300] = [0..<0 + 256]"
    by (rule take_upt) simp
  then show ?thesis
    unfolding allDocs_take from_start big_catalog_def limit_def take_map
    by (simp only: add_0)
qed

lemma big_page_full: "\<not> length (allDocs big_catalog None limit) < limit"
  unfolding big_first_page by (simp add: limit_def)

lemma last_of_numbered: "last (map f [0..<Suc n]) = f n"
  by simp

lemma big_last_row: "last (allDocs big_catalog None limit) = numbered_doc 255"
proof -
  have "(256::nat) = Suc 255"
    by simp
  then have "last (map numbered_doc [0..<256]) = last (map numbered_doc [0..<Suc 255])"
    by (simp only:)
  then show ?thesis
    unfolding big_first_page by (simp only: last_of_numbered)
qed

lemma mounted_survives: "survives mounted_env (numbered_doc n)"
  by (simp add: survives_def starts_with_root_def is_regular_file_def mounted_env_def sample_env_def
      numbered_doc_def placeholder_def)

lemma unmounted_survives: "\<not> survives unmounted_env d"
  by (simp add: survives_def is_regular_file_def unmounted_env_def)

text \<open>With all three hundred files in place, the entry 255, the last row of the first
  page, is the first row of the second page.\<close>

theorem last_row_of_full_page_witness:
  "sorted_catalog (catalog big_world)
   \<and> \<not> length (allDocs (catalog big_world) None limit) < limit
   \<and> last (allDocs (catalog big_world) None limit) = numbered_doc 255
   \<and> survives mounted_env (last (allDocs (catalog big_world) None limit))
   \<and> hd (next_page mounted_env (catalog big_world) None) = numbered_doc 255
   \<and> Fs_stat (mediaPath (numbered_doc 255)) \<in> set (page_stats mounted_env (next_page mounted_env (catalog big_world) None))"
proof -
  have c: "catalog big_world = big_catalog"
    by (simp add: big_world_def)
  have sorted: "sorted_catalog (catalog big_world)"
    and full: "\<not> length (allDocs (catalog big_world) None limit) < limit"
    and last: "last (allDocs (catalog big_world) None limit) = numbered_doc 255"
    and alive: "survives mounted_env (last (allDocs (catalog big_world) None limit))"
    unfolding c by (simp_all add: big_catalog_sorted big_page_full big_last_row mounted_survives)
  from last_row_of_full_page [OF sorted full, of mounted_env] alive
  have "hd (next_page mounted_env (catalog big_world) None) = last (allDocs (catalog big_world) None limit)"
    and "Fs_stat (mediaPath (last (allDocs (catalog big_world) None limit)))
      \<in> set (page_stats mounted_env (next_page mounted_env (catalog big_world) None))"
    by blast+
  with sorted full last alive show ?thesis
    by simp
qed

text \<open>With the media volume gone, every row of the first page is deleted, and the
  last row of the first page is not listed a second time.\<close>

theorem last_row_not_listed_again_counterexample:
  "sorted_catalog big_catalog
   \<and> length big_catalog = 300
   \<and> length (allDocs big_catalog None limit) = limit
   \<and> last (allDocs big_catalog None limit) \<notin> set (next_page unmounted_env big_catalog None)"
proof -
  have "length big_catalog = 300"
    unfolding big_catalog_def by (simp only: length_map length_upt diff_zero)
  moreover have "length (allDocs big_catalog None limit) = limit"
    unfolding big_first_page by (simp add: limit_def)
  moreover have "last (allDocs big_catalog None limit) \<notin> set (next_page unmounted_env big_catalog None)"
    using deleted_last_not_listed [OF big_catalog_sorted big_page_full unmounted_survives] .
  ultimately show ?thesis
    using big_catalog_sorted by simp
qed

end
